(* ===== verification/Scribe_Prelude.thy ===== *)
theory Scribe_Prelude
  imports Main "HOL-Library.Sublist" "HOL-Library.Multiset" "HOL-Library.Code_Target_Nat"
begin

section \<open>Shared vocabulary of the Scribe development\<close>

text \<open>
  The parts every component uses: the Go string functions the sources call, the error values of
  the store layer, database transactions as state transformers that either commit a new state or
  roll back with an error, the effect of an SQL statement on a table (a list of rows), and the
  locale of transition systems in which an invariant is lifted to every reachable state.
\<close>

named_theorems tx_simps \<open>equations that run a transaction\<close>
named_theorems tx_elims \<open>inversions of a committed transaction\<close>

subsection \<open>Go strings\<close>

text \<open>
  A Go string is a sequence of bytes, here a \<^typ>\<open>string\<close>. \<^verbatim>\<open>strings.TrimSpace\<close> removes leading and
  trailing Unicode white space; the list holds the UTF-8 encodings of every code point for which
  \<^verbatim>\<open>unicode.IsSpace\<close> holds.
\<close>

definition go_spaces :: "string list" where
  "go_spaces =
     [[CHR 0x09], [CHR 0x0A], [CHR 0x0B], [CHR 0x0C], [CHR 0x0D], [CHR 0x20],
      [CHR 0xC2, CHR 0x85], [CHR 0xC2, CHR 0xA0], [CHR 0xE1, CHR 0x9A, CHR 0x80],
      [CHR 0xE2, CHR 0x80, CHR 0x80], [CHR 0xE2, CHR 0x80, CHR 0x81],
      [CHR 0xE2, CHR 0x80, CHR 0x82], [CHR 0xE2, CHR 0x80, CHR 0x83],
      [CHR 0xE2, CHR 0x80, CHR 0x84], [CHR 0xE2, CHR 0x80, CHR 0x85],
      [CHR 0xE2, CHR 0x80, CHR 0x86], [CHR 0xE2, CHR 0x80, CHR 0x87],
      [CHR 0xE2, CHR 0x80, CHR 0x88], [CHR 0xE2, CHR 0x80, CHR 0x89],
      [CHR 0xE2, CHR 0x80, CHR 0x8A], [CHR 0xE2, CHR 0x80, CHR 0xA8],
      [CHR 0xE2, CHR 0x80, CHR 0xA9], [CHR 0xE2, CHR 0x80, CHR 0xAF],
      [CHR 0xE2, CHR 0x81, CHR 0x9F], [CHR 0xE3, CHR 0x80, CHR 0x80]]"

fun strip_prefix :: "string \<Rightarrow> string \<Rightarrow> string option" where
  "strip_prefix [] s = Some s"
| "strip_prefix (p # ps) [] = None"
| "strip_prefix (p # ps) (c # cs) = (if p = c then strip_prefix ps cs else None)"

fun strip_any :: "string list \<Rightarrow> string \<Rightarrow> string option" where
  "strip_any [] s = None"
| "strip_any (w # ws) s = (case strip_prefix w s of Some t \<Rightarrow> Some t | None \<Rightarrow> strip_any ws s)"

lemma strip_prefix_eq: "strip_prefix p s = Some t \<longleftrightarrow> s = p @ t"
  by (induction p s rule: strip_prefix.induct) auto

lemma strip_any_SomeD: "strip_any ws s = Some t \<Longrightarrow> \<exists>w \<in> set ws. s = w @ t"
  by (induction ws) (auto simp: strip_prefix_eq split: option.splits)

lemma strip_any_None_iff: "strip_any ws s = None \<longleftrightarrow> (\<forall>w \<in> set ws. \<forall>t. s \<noteq> w @ t)"
proof (induction ws)
  case (Cons w ws)
  show ?case
  proof (cases "strip_prefix w s")
    case None
    then have "\<forall>t. s \<noteq> w @ t" using strip_prefix_eq [of w s] by auto
    with None Cons show ?thesis by auto
  next
    case (Some t)
    then have "strip_any (w # ws) s = Some t" by simp
    moreover from Some have "s = w @ t" by (simp add: strip_prefix_eq)
    ultimately show ?thesis by (metis list.set_intros(1) option.distinct(1))
  qed
qed simp


text \<open>The empty word never matches, so the loop makes progress on every round.\<close>

function strip_all :: "string list \<Rightarrow> string \<Rightarrow> string" where
  "strip_all ws s =
     (case strip_any (filter (\<lambda>w. w \<noteq> []) ws) s of None \<Rightarrow> s | Some t \<Rightarrow> strip_all ws t)"
  by pat_completeness auto
termination
  by (relation "measure (\<lambda>(ws, s). length s)") (auto dest!: strip_any_SomeD)

declare strip_all.simps [simp del]

definition trim_space :: "string \<Rightarrow> string" where
  "trim_space s = rev (strip_all (map rev go_spaces) (rev (strip_all go_spaces s)))"

lemma strip_all_Nil [simp]: "strip_all ws [] = []"
  by (subst strip_all.simps) (auto split: option.splits dest!: strip_any_SomeD)

lemma strip_all_stuck:
  "strip_any (filter (\<lambda>w. w \<noteq> []) ws) (strip_all ws s) = None"
proof (induction ws s rule: strip_all.induct)
  case (1 ws s)
  then show ?case
    by (subst strip_all.simps) (simp split: option.splits)
qed

lemma strip_all_idem [simp]: "strip_all ws (strip_all ws s) = strip_all ws s"
  by (subst strip_all.simps) (simp add: strip_all_stuck)

lemma strip_all_suffix: "\<exists>p. s = p @ strip_all ws s"
proof (induction ws s rule: strip_all.induct)
  case (1 ws s)
  show ?case
  proof (cases "strip_any (filter (\<lambda>w. w \<noteq> []) ws) s")
    case None
    then show ?thesis by (subst strip_all.simps) simp
  next
    case (Some t)
    then obtain w where w: "s = w @ t" by (auto dest!: strip_any_SomeD)
    from "1" [OF Some] obtain p where "t = p @ strip_all ws t" by blast
    with w Some have "s = (w @ p) @ strip_all ws s" by (subst strip_all.simps) simp
    then show ?thesis by blast
  qed
qed

lemma trim_space_Nil [simp]: "trim_space [] = []"
  by (simp add: trim_space_def)

text \<open>Trimming on the left of a string whose left end is stuck does nothing.\<close>

lemma strip_all_stuckD: "strip_any (filter (\<lambda>w. w \<noteq> []) ws) s = None \<Longrightarrow> strip_all ws s = s"
  by (subst strip_all.simps) simp

lemma trim_space_idem [simp]: "trim_space (trim_space s) = trim_space s"
proof -
  let ?W = "filter (\<lambda>w. w \<noteq> []) go_spaces"
  let ?l = "strip_all go_spaces s"
  let ?t = "trim_space s"
  have stuck: "strip_any ?W ?l = None" by (rule strip_all_stuck)
  obtain p where p: "rev ?l = p @ strip_all (map rev go_spaces) (rev ?l)"
    using strip_all_suffix by blast
  then have pre: "?l = ?t @ rev p"
    by (metis rev_append rev_rev_ident trim_space_def)
  have "strip_any ?W ?t = None"
    unfolding strip_any_None_iff
  proof (intro ballI allI notI)
    fix w t assume "w \<in> set ?W" and "?t = w @ t"
    with pre have "?l = w @ (t @ rev p)" by simp
    with stuck \<open>w \<in> set ?W\<close> show False unfolding strip_any_None_iff by blast
  qed
  then have "strip_all go_spaces ?t = ?t" by (rule strip_all_stuckD)
  then show ?thesis by (simp add: trim_space_def)
qed

text \<open>
  \<^verbatim>\<open>strings.ToLower\<close>. Every string the sources lower-case is afterwards only tested for ASCII
  words. Of the non-ASCII code points only U+0130 and U+212A have an ASCII lower case, so the
  other multi-byte sequences are left as they are.
\<close>

definition lower_byte :: "char \<Rightarrow> char" where
  "lower_byte c = (if 65 \<le> (of_char c :: nat) \<and> (of_char c :: nat) \<le> 90
                   then char_of ((of_char c :: nat) + 32) else c)"

fun to_lower :: "string \<Rightarrow> string" where
  "to_lower [] = []"
| "to_lower (c # cs) =
     (case strip_prefix [CHR 0xC4, CHR 0xB0] (c # cs) of
        Some r \<Rightarrow> CHR ''i'' # to_lower (drop 1 cs)
      | None \<Rightarrow>
         (case strip_prefix [CHR 0xE2, CHR 0x84, CHR 0xAA] (c # cs) of
            Some r \<Rightarrow> CHR ''k'' # to_lower (drop 2 cs)
          | None \<Rightarrow> lower_byte c # to_lower cs))"

text \<open>\<^verbatim>\<open>strings.HasPrefix\<close>, \<^verbatim>\<open>strings.Contains\<close> and \<^verbatim>\<open>strings.Cut\<close> on a one-byte separator.\<close>

definition has_prefix :: "string \<Rightarrow> string \<Rightarrow> bool" where
  "has_prefix s p \<longleftrightarrow> strip_prefix p s \<noteq> None"

fun contains_str :: "string \<Rightarrow> string \<Rightarrow> bool" where
  "contains_str [] w = (w = [])"
| "contains_str (c # cs) w = (has_prefix (c # cs) w \<or> contains_str cs w)"

fun cut_at :: "char \<Rightarrow> string \<Rightarrow> (string \<times> string) option" where
  "cut_at sep [] = None"
| "cut_at sep (c # cs) =
     (if c = sep then Some ([], cs)
      else map_option (\<lambda>(a, b). (c # a, b)) (cut_at sep cs))"

lemma cut_at_Some: "cut_at sep s = Some (a, b) \<longleftrightarrow> s = a @ sep # b \<and> sep \<notin> set a"
  by (induction s arbitrary: a b) (auto simp: Cons_eq_append_conv split: if_splits)

lemma cut_at_None [simp]: "cut_at sep s = None \<longleftrightarrow> sep \<notin> set s"
  by (induction s) auto

lemma has_prefix_iff: "has_prefix s p \<longleftrightarrow> (\<exists>t. s = p @ t)"
  by (auto simp: has_prefix_def strip_prefix_eq)

lemma contains_str_iff: "contains_str s w \<longleftrightarrow> (\<exists>a b. s = a @ w @ b)"
proof (induction s)
  case (Cons c cs)
  show ?case
  proof
    assume "contains_str (c # cs) w"
    then consider "has_prefix (c # cs) w" | "contains_str cs w" by auto
    then show "\<exists>a b. c # cs = a @ w @ b"
    proof cases
      case 1
      then obtain t where "c # cs = w @ t" by (auto simp: has_prefix_iff)
      then have "c # cs = [] @ w @ t" by simp
      then show ?thesis by blast
    next
      case 2
      with Cons.IH obtain a b where "cs = a @ w @ b" by blast
      then have "c # cs = (c # a) @ w @ b" by simp
      then show ?thesis by blast
    qed
  next
    assume "\<exists>a b. c # cs = a @ w @ b"
    then obtain a b where ab: "c # cs = a @ w @ b" by blast
    show "contains_str (c # cs) w"
    proof (cases a)
      case Nil
      with ab have "has_prefix (c # cs) w" by (auto simp: has_prefix_iff)
      then show ?thesis by simp
    next
      case (Cons x a')
      with ab have "cs = a' @ w @ b" by simp
      with Cons.IH show ?thesis by auto
    qed
  qed
qed auto

text \<open>\<^verbatim>\<open>strconv.ParseUint(s, 10, 64)\<close>: decimal digits only, at least one, below $2^{64}$.\<close>

definition is_digit :: "char \<Rightarrow> bool" where
  "is_digit c \<longleftrightarrow> 48 \<le> (of_char c :: nat) \<and> (of_char c :: nat) \<le> 57"

definition digit_val :: "char \<Rightarrow> nat" where
  "digit_val c = of_char c - 48"

definition digits_val :: "string \<Rightarrow> nat" where
  "digits_val s = foldl (\<lambda>n c. 10 * n + digit_val c) 0 s"

definition parse_uint64 :: "string \<Rightarrow> nat option" where
  "parse_uint64 s =
     (if s \<noteq> [] \<and> list_all is_digit s \<and> digits_val s < 2 ^ 64 then Some (digits_val s) else None)"

lemma digit_chars:
  "d < 10 \<Longrightarrow> is_digit (char_of (48 + d))" "d < 10 \<Longrightarrow> digit_val (char_of (48 + d)) = d"
  by (simp_all add: is_digit_def digit_val_def)

lemma digits_val_snoc [simp]: "digits_val (s @ [c]) = 10 * digits_val s + digit_val c"
  by (simp add: digits_val_def)

text \<open>\<^verbatim>\<open>strconv.Itoa\<close> and \<^verbatim>\<open>strconv.FormatUint(n, 10)\<close>.\<close>

fun itoa :: "nat \<Rightarrow> string" where
  "itoa n = (if n < 10 then [char_of (48 + n)] else itoa (n div 10) @ [char_of (48 + n mod 10)])"

declare itoa.simps [simp del]

lemma itoa_digits: "list_all is_digit (itoa n)" "itoa n \<noteq> []"
proof (induction n rule: itoa.induct)
  case (1 n)
  { case 1 from "1.IH" show ?case by (subst itoa.simps) (auto simp: digit_chars)
  next
    case 2 show ?case by (subst itoa.simps) simp }
qed

lemma digits_val_itoa [simp]: "digits_val (itoa n) = n"
proof (induction n rule: itoa.induct)
  case (1 n)
  then show ?case
    by (subst itoa.simps) (simp add: digit_chars digits_val_def)
qed

lemma parse_uint64_itoa: "n < 2 ^ 64 \<Longrightarrow> parse_uint64 (itoa n) = Some n"
  by (simp add: parse_uint64_def itoa_digits)

text \<open>\<^verbatim>\<open>strings.Fields\<close>: the maximal runs without white space.\<close>

function fields_from :: "string \<Rightarrow> string \<Rightarrow> string list" where
  "fields_from acc [] = (if acc = [] then [] else [acc])"
| "fields_from acc (c # cs) =
     (case strip_any go_spaces (c # cs) of
        Some r \<Rightarrow> (if length r < length (c # cs) then (if acc = [] then [] else [acc]) @ fields_from [] r else [])
      | None \<Rightarrow> fields_from (acc @ [c]) cs)"
  by pat_completeness auto
termination by (relation "measure (length \<circ> snd)") auto

definition fields :: "string \<Rightarrow> string list" where
  "fields s = fields_from [] s"

text \<open>A string whose first and last bytes are printable ASCII has nothing to trim.\<close>

definition is_graph :: "char \<Rightarrow> bool" where
  "is_graph c \<longleftrightarrow> 33 \<le> (of_char c :: nat) \<and> (of_char c :: nat) \<le> 126"

lemma go_spaces_not_graph:
  "list_all (\<lambda>w. w \<noteq> [] \<and> \<not> is_graph (hd w) \<and> \<not> is_graph (last w)) go_spaces"
  by code_simp

lemma strip_any_graph:
  assumes "list_all (\<lambda>w. w \<noteq> [] \<and> \<not> is_graph (hd w)) ws" and "s = [] \<or> is_graph (hd s)"
  shows "strip_any ws s = None"
  unfolding strip_any_None_iff
proof (intro ballI allI notI)
  fix w t assume "w \<in> set ws" and "s = w @ t"
  moreover from this assms(1) have "w \<noteq> []" and "\<not> is_graph (hd w)" by (auto simp: list_all_iff)
  ultimately show False using assms(2) by (cases w) auto
qed

lemma trim_space_graph:
  assumes "s \<noteq> []" and "is_graph (hd s)" and "is_graph (last s)"
  shows "trim_space s = s"
proof -
  have "strip_any (filter (\<lambda>w. w \<noteq> []) go_spaces) s = None"
    by (rule strip_any_graph) (use assms go_spaces_not_graph in \<open>auto simp: list_all_iff\<close>)
  moreover have "strip_any (filter (\<lambda>w. w \<noteq> []) (map rev go_spaces)) (rev s) = None"
    by (rule strip_any_graph)
       (use assms go_spaces_not_graph in \<open>auto simp: list_all_iff hd_rev\<close>)
  ultimately show ?thesis by (simp add: trim_space_def strip_all_stuckD)
qed


subsection \<open>Errors of the store layer\<close>

text \<open>
  The sentinel errors the store compares with \<^verbatim>\<open>errors.Is\<close> have a constructor each; wrapping with
  \<^verbatim>\<open>%w\<close> keeps that identity. \<open>ErrCheck\<close>, \<open>ErrDuplicateKey\<close> and \<open>ErrForeignKey\<close> are the errors of the
  database for a CHECK constraint, a unique key and a foreign key; \<open>ErrPanic\<close> stands for a run-time
  panic; \<open>ErrInvalid\<close> carries the text of a plain \<^verbatim>\<open>fmt.Errorf\<close>.
\<close>

datatype err =
    ErrNoRows
  | ErrTranscriptionJobFence
  | ErrAnnotationJobFence
  | ErrTranscriptionCanonicalPageRequired
  | ErrExternalRequestMismatch
  | ErrTranscriptionJobQuotaExceeded nat int
  | ErrStorageQuotaExceeded string
  | ErrWebhookSubscriptionExists
  | ErrWebhookSubscriptionLimit
  | ErrResourceCleanupLease
  | ErrUploadBlobRetired
  | ErrAnnotationPageNotFound
  | ErrAnnotationRevisionConflict
  | ErrAnnotationPageResource
  | ErrAnnotationMirrorLease
  | ErrUploadBatchNotFound
  | ErrUploadBatchRequestMismatch
  | ErrUploadBatchCanceled
  | ErrUploadBatchCompleted
  | ErrUploadBatchFileMismatch
  | ErrUploadBatchFileInProgress
  | ErrUploadBatchFileAttemptsExhausted
  | ErrUploadBatchFileFence
  | ErrInvalidWorkspaceRole
  | ErrLastWorkspaceAdmin
  | ErrWorkspaceMemberExists
  | ErrWorkspaceAccessLimit
  | ErrWorkspaceMemberLimit
  | ErrEditorReviewTokenLimit
  | ErrEditorReviewTokenInvalid
  | ErrAPIKeyLimit
  | ErrSelectionRuleLimit
  | ErrContextResolutionLimit
  | ErrInvalidContextMetadata
  | ErrCheck
  | ErrDuplicateKey
  | ErrForeignKey
  | ErrPanic
  | ErrInvalid string

subsection \<open>Transactions\<close>

text \<open>
  A transaction maps the database to an error, in which case nothing is written (the deferred
  \<^verbatim>\<open>tx.Rollback()\<close>), or to a result and the committed database.
\<close>

type_synonym ('s, 'a) tx = "'s \<Rightarrow> err + ('a \<times> 's)"

definition tx_return :: "'a \<Rightarrow> ('s, 'a) tx" where
  "tx_return x = (\<lambda>s. Inr (x, s))"

definition tx_raise :: "err \<Rightarrow> ('s, 'a) tx" where
  "tx_raise e = (\<lambda>s. Inl e)"

definition tx_bind :: "('s, 'a) tx \<Rightarrow> ('a \<Rightarrow> ('s, 'b) tx) \<Rightarrow> ('s, 'b) tx" where
  "tx_bind m f = (\<lambda>s. case m s of Inl e \<Rightarrow> Inl e | Inr (x, s') \<Rightarrow> f x s')"

definition tx_read :: "('s \<Rightarrow> 'a) \<Rightarrow> ('s, 'a) tx" where
  "tx_read g = (\<lambda>s. Inr (g s, s))"

definition tx_guard :: "bool \<Rightarrow> err \<Rightarrow> ('s, unit) tx" where
  "tx_guard b e = (if b then tx_return () else tx_raise e)"

definition tx_when :: "bool \<Rightarrow> ('s, unit) tx \<Rightarrow> ('s, unit) tx" where
  "tx_when b m = (if b then m else tx_return ())"

text \<open>A row lookup: \<^verbatim>\<open>sql.ErrNoRows\<close> when there is none.\<close>

definition tx_row :: "('s \<Rightarrow> 'a option) \<Rightarrow> ('s, 'a) tx" where
  "tx_row g = (\<lambda>s. case g s of None \<Rightarrow> Inl ErrNoRows | Some r \<Rightarrow> Inr (r, s))"

text \<open>The \<^verbatim>\<open>if errors.Is(err, sql.ErrNoRows) { return e }\<close> idiom.\<close>

definition tx_no_rows_as :: "err \<Rightarrow> ('s, 'a) tx \<Rightarrow> ('s, 'a) tx" where
  "tx_no_rows_as e m = (\<lambda>s. case m s of Inl ErrNoRows \<Rightarrow> Inl e | r \<Rightarrow> r)"

text \<open>The \<^verbatim>\<open>errors.Is(err, sql.ErrNoRows)\<close> idiom where a missing row is a regular case.\<close>

definition tx_optional :: "('s, 'a) tx \<Rightarrow> ('s, 'a option) tx" where
  "tx_optional m = (\<lambda>s. case m s of
     Inl e \<Rightarrow> if e = ErrNoRows then Inr (None, s) else Inl e
   | Inr (x, t) \<Rightarrow> Inr (Some x, t))"

text \<open>A value computed by pure Go code that may return an error.\<close>

definition tx_lift :: "err + 'a \<Rightarrow> ('s, 'a) tx" where
  "tx_lift r = (\<lambda>s. case r of Inl e \<Rightarrow> Inl e | Inr x \<Rightarrow> Inr (x, s))"

text \<open>What the database holds after an operation: the committed state, or the state as it was.\<close>

definition tx_state :: "('s, 'a) tx \<Rightarrow> 's \<Rightarrow> 's" where
  "tx_state m s = (case m s of Inl e \<Rightarrow> s | Inr (x, s') \<Rightarrow> s')"

fun tx_iter :: "('a \<Rightarrow> ('s, unit) tx) \<Rightarrow> 'a list \<Rightarrow> ('s, unit) tx" where
  "tx_iter f [] = tx_return ()"
| "tx_iter f (x # xs) = tx_bind (f x) (\<lambda>_. tx_iter f xs)"

lemma tx_return_run [tx_simps]: "tx_return x s = Inr (x, s)"
  by (simp add: tx_return_def)

lemma tx_raise_run [tx_simps]: "tx_raise e s = Inl e"
  by (simp add: tx_raise_def)

lemma tx_read_run [tx_simps]: "tx_read g s = Inr (g s, s)"
  by (simp add: tx_read_def)

lemma tx_row_run [tx_simps]:
  "tx_row g s = (case g s of None \<Rightarrow> Inl ErrNoRows | Some r \<Rightarrow> Inr (r, s))"
  by (simp add: tx_row_def)

lemma tx_guard_run [tx_simps]: "tx_guard b e s = (if b then Inr ((), s) else Inl e)"
  by (simp add: tx_guard_def tx_simps)

lemma tx_when_run [tx_simps]: "tx_when b m s = (if b then m s else Inr ((), s))"
  by (simp add: tx_when_def tx_simps)

lemma tx_lift_run [tx_simps]:
  "tx_lift r s = (case r of Inl e \<Rightarrow> Inl e | Inr x \<Rightarrow> Inr (x, s))"
  by (simp add: tx_lift_def)

lemma tx_bind_run [tx_simps]:
  "tx_bind m f s = (case m s of Inl e \<Rightarrow> Inl e | Inr (x, s') \<Rightarrow> f x s')"
  by (simp add: tx_bind_def)

lemma tx_bind_Inr [tx_elims]:
  "tx_bind m f s = Inr (y, t) \<longleftrightarrow> (\<exists>x u. m s = Inr (x, u) \<and> f x u = Inr (y, t))"
  by (auto simp: tx_bind_def split: sum.splits)

lemma tx_return_Inr [tx_elims]: "tx_return x s = Inr (y, t) \<longleftrightarrow> y = x \<and> t = s"
  by (auto simp: tx_return_def)

lemma tx_raise_Inr [tx_elims]: "tx_raise e s = Inr r \<longleftrightarrow> False"
  by (simp add: tx_raise_def)

lemma tx_read_Inr [tx_elims]: "tx_read g s = Inr (y, t) \<longleftrightarrow> y = g s \<and> t = s"
  by (auto simp: tx_read_def)

lemma tx_row_Inr [tx_elims]: "tx_row g s = Inr (r, t) \<longleftrightarrow> g s = Some r \<and> t = s"
  by (auto simp: tx_row_def split: option.splits)

lemma tx_guard_Inr [tx_elims]: "tx_guard b e s = Inr (y, t) \<longleftrightarrow> b \<and> t = s"
  by (auto simp: tx_guard_def tx_return_def tx_raise_def)

lemma tx_lift_Inr [tx_elims]: "tx_lift r s = Inr (y, t) \<longleftrightarrow> r = Inr y \<and> t = s"
  by (auto simp: tx_lift_def split: sum.splits)

lemma tx_no_rows_as_Inr [tx_elims]: "tx_no_rows_as e m s = Inr r \<longleftrightarrow> m s = Inr r"
  by (auto simp: tx_no_rows_as_def split: sum.splits err.splits)

lemma tx_optional_run [tx_simps]:
  "tx_optional m s = (case m s of
     Inl e \<Rightarrow> if e = ErrNoRows then Inr (None, s) else Inl e
   | Inr (x, t) \<Rightarrow> Inr (Some x, t))"
  by (simp add: tx_optional_def)

lemma tx_optional_Inr [tx_elims]:
  "tx_optional m s = Inr (y, t) \<longleftrightarrow> (\<exists>x. m s = Inr (x, t) \<and> y = Some x) \<or> (m s = Inl ErrNoRows \<and> y = None \<and> t = s)"
  by (auto simp: tx_optional_def split: sum.splits if_splits)

lemma tx_when_Inr [tx_elims]:
  "tx_when b m s = Inr (y, t) \<longleftrightarrow> (if b then m s = Inr ((), t) else t = s)"
  by (auto simp: tx_when_def tx_return_def)

lemma tx_state_Inr [simp]: "m s = Inr (x, t) \<Longrightarrow> tx_state m s = t"
  by (simp add: tx_state_def)

lemma tx_state_Inl [simp]: "m s = Inl e \<Longrightarrow> tx_state m s = s"
  by (simp add: tx_state_def)

subsection \<open>SQL statements on a table\<close>

text \<open>
  A table is the list of its rows. \<^verbatim>\<open>UPDATE t SET f WHERE P\<close> rewrites the rows that match. The
  MySQL driver is opened without \<^verbatim>\<open>clientFoundRows\<close>, so \<^verbatim>\<open>RowsAffected\<close> counts the rows that the
  statement changed, not the rows it matched (the source says so in
  \<^verbatim>\<open>ResizeStorageQuotaReservation\<close>).
\<close>

definition sql_update :: "('r \<Rightarrow> bool) \<Rightarrow> ('r \<Rightarrow> 'r) \<Rightarrow> 'r list \<Rightarrow> 'r list" where
  "sql_update P f rows = map (\<lambda>r. if P r then f r else r) rows"

definition sql_changed :: "('r \<Rightarrow> bool) \<Rightarrow> ('r \<Rightarrow> 'r) \<Rightarrow> 'r list \<Rightarrow> nat" where
  "sql_changed P f rows = length (filter (\<lambda>r. P r \<and> f r \<noteq> r) rows)"

definition sql_delete :: "('r \<Rightarrow> bool) \<Rightarrow> 'r list \<Rightarrow> 'r list" where
  "sql_delete P rows = filter (\<lambda>r. \<not> P r) rows"

definition sql_count :: "('r \<Rightarrow> bool) \<Rightarrow> 'r list \<Rightarrow> nat" where
  "sql_count P rows = length (filter P rows)"

text \<open>\<^verbatim>\<open>SELECT \<dots> WHERE P ORDER BY k ASC LIMIT 1\<close>; rows with equal keys keep the table's order.\<close>

fun first_by :: "('r \<Rightarrow> 'k::linorder) \<Rightarrow> 'r list \<Rightarrow> 'r option" where
  "first_by k [] = None"
| "first_by k (r # rs) =
     (case first_by k rs of None \<Rightarrow> Some r | Some b \<Rightarrow> Some (if k b < k r then b else r))"

text \<open>
  An \<^verbatim>\<open>UPDATE\<close> whose result would violate a CHECK constraint fails as a whole.
\<close>

definition exec_update ::
    "('s \<Rightarrow> 'r list) \<Rightarrow> ('r list \<Rightarrow> 's \<Rightarrow> 's) \<Rightarrow> ('r \<Rightarrow> bool) \<Rightarrow> ('r \<Rightarrow> bool) \<Rightarrow> ('r \<Rightarrow> 'r) \<Rightarrow> ('s, nat) tx" where
  "exec_update get put chk P f = (\<lambda>s.
     if list_ex (\<lambda>r. P r \<and> \<not> chk (f r)) (get s) then Inl ErrCheck
     else Inr (sql_changed P f (get s), put (sql_update P f (get s)) s))"

definition exec_delete ::
    "('s \<Rightarrow> 'r list) \<Rightarrow> ('r list \<Rightarrow> 's \<Rightarrow> 's) \<Rightarrow> ('r \<Rightarrow> bool) \<Rightarrow> ('s, nat) tx" where
  "exec_delete get put P = (\<lambda>s. Inr (sql_count P (get s), put (sql_delete P (get s)) s))"

lemma exec_update_Inr [tx_elims]:
  "exec_update get put chk P f s = Inr (n, t) \<longleftrightarrow>
     (\<forall>r \<in> set (get s). P r \<longrightarrow> chk (f r)) \<and> n = sql_changed P f (get s) \<and>
     t = put (sql_update P f (get s)) s"
  by (auto simp: exec_update_def list_ex_iff)

lemma exec_delete_Inr [tx_elims]:
  "exec_delete get put P s = Inr (n, t) \<longleftrightarrow>
     n = sql_count P (get s) \<and> t = put (sql_delete P (get s)) s"
  by (auto simp: exec_delete_def)

lemma length_sql_update [simp]: "length (sql_update P f rows) = length rows"
  by (simp add: sql_update_def)

lemma set_sql_update:
  "set (sql_update P f rows) = f ` {r \<in> set rows. P r} \<union> {r \<in> set rows. \<not> P r}"
  by (auto simp: sql_update_def)

lemma map_key_sql_update:
  assumes "\<And>r. P r \<Longrightarrow> k (f r) = k r"
  shows "map k (sql_update P f rows) = map k rows"
  using assms by (simp add: sql_update_def)

lemma filter_sql_update_other:
  assumes "\<And>r. P r \<Longrightarrow> Q (f r) \<longleftrightarrow> Q r" and "\<And>r. P r \<Longrightarrow> \<not> Q r"
  shows "filter Q (sql_update P f rows) = filter Q rows"
  using assms by (induction rows) (auto simp: sql_update_def)

text \<open>
  With a unique key, a statement that pins the key touches one row: it changed exactly one row
  if and only if that row is there, matches and is really modified.
\<close>

lemma sql_update_cong:
  assumes "\<And>r. r \<in> set rows \<Longrightarrow> P r \<longleftrightarrow> Q r" and "\<And>r. r \<in> set rows \<Longrightarrow> P r \<Longrightarrow> f r = g r"
  shows "sql_update P f rows = sql_update Q g rows"
  unfolding sql_update_def by (rule map_cong [OF refl]) (use assms in auto)

lemma sql_update_none: "(\<And>r. r \<in> set rows \<Longrightarrow> \<not> P r) \<Longrightarrow> sql_update P f rows = rows"
  unfolding sql_update_def by (rule map_idI) simp

lemma sql_changed_one:
  assumes "sql_changed P f rows = 1"
  obtains r where "r \<in> set rows" and "P r" and "f r \<noteq> r"
proof -
  from assms have "filter (\<lambda>r. P r \<and> f r \<noteq> r) rows \<noteq> []"
    unfolding sql_changed_def by auto
  then obtain r where "r \<in> set (filter (\<lambda>r. P r \<and> f r \<noteq> r) rows)"
    by (meson last_in_set)
  then show thesis using that by auto
qed

lemma filter_key_unique:
  assumes "distinct (map k rows)" and "r \<in> set rows"
  shows "filter (\<lambda>x. k x = k r) rows = [r]"
  using assms
proof (induction rows)
  case (Cons x xs)
  show ?case
  proof (cases "x = r")
    case True
    with Cons.prems have "\<forall>y \<in> set xs. k y \<noteq> k r" by (metis distinct.simps(2) image_eqI list.set_map list.simps(9))
    with True show ?thesis by (auto simp: filter_empty_conv)
  next
    case False
    with Cons.prems have "r \<in> set xs" by auto
    with Cons.prems have "k x \<noteq> k r" by (metis distinct.simps(2) image_eqI list.set_map list.simps(9))
    with Cons \<open>r \<in> set xs\<close> show ?thesis by simp
  qed
qed simp

text \<open>Joins, as list comprehensions write them: a guard is a filter, and a join on a unique key has at most one row.\<close>

lemma concat_if_filter: "concat (map (\<lambda>x. if P x then f x else []) xs) = concat (map f (filter P xs))"
  by (induction xs) auto

lemma filter_key_cases:
  assumes "distinct (map k xs)"
  shows "filter (\<lambda>x. k x = v) xs = [] \<or> (\<exists>x \<in> set xs. k x = v \<and> filter (\<lambda>x. k x = v) xs = [x])"
proof (cases "\<exists>x \<in> set xs. k x = v")
  case True
  then show ?thesis using filter_key_unique [OF assms] by blast
qed (simp add: filter_empty_conv)

lemma join_at_most_one:
  assumes "distinct (map k xs)" and "\<And>x. length (g x) \<le> 1"
  shows "length (concat (map (\<lambda>x. if k x = v \<and> Q x then g x else []) xs)) \<le> 1"
proof -
  let ?F = "filter (\<lambda>x. k x = v) xs"
  have eq: "concat (map (\<lambda>x. if k x = v \<and> Q x then g x else []) xs) = concat (map g (filter Q ?F))"
    unfolding concat_if_filter filter_filter by (simp add: conj_commute)
  consider "?F = []" | x where "?F = [x]" using filter_key_cases [OF assms(1), of v] by blast
  then show ?thesis unfolding eq by cases (use assms(2) in simp_all)
qed

lemma distinct_concat_key:
  assumes "distinct (map k xs)" and "\<And>x. length (g x) \<le> 1" and "\<And>x y. y \<in> set (g x) \<Longrightarrow> key y = k x"
  shows "distinct (map key (concat (map g xs)))"
  using assms(1)
proof (induction xs)
  case (Cons x xs)
  have "set (map key (concat (map g xs))) \<subseteq> k ` set xs" using assms(3) by auto
  moreover have "distinct (map key (g x))" using assms(2) [of x] by (cases "g x") auto
  moreover have "set (map key (g x)) \<subseteq> {k x}" using assms(3) by auto
  moreover have "k x \<notin> k ` set xs" using Cons.prems by simp
  ultimately have "set (map key (g x)) \<inter> set (map key (concat (map g xs))) = {}" by blast
  with Cons \<open>distinct (map key (g x))\<close> show ?case by simp
qed simp

text \<open>A statement that names distinct keys of the table removes as many rows as it names.\<close>

lemma count_members:
  assumes "distinct (map k rows)" and "distinct ids" and "set ids \<subseteq> k ` set rows"
  shows "sql_count (\<lambda>r. List.member ids (k r)) rows = length ids"
proof -
  let ?F = "filter (\<lambda>r. k r \<in> set ids) rows"
  have "k ` set ?F = set ids" using assms(3) by auto
  moreover have "distinct (map k ?F)" by (rule distinct_map_filter [OF assms(1)])
  ultimately have "length (map k ?F) = length ids"
    using assms(2) by (metis distinct_card list.set_map)
  then show ?thesis by (simp add: sql_count_def)
qed

lemma sql_changed_unique:
  assumes "distinct (map k rows)" and "r \<in> set rows" and "P r" and "\<And>x. P x \<Longrightarrow> k x = k r"
  shows "sql_changed P f rows = (if f r = r then 0 else 1)"
proof -
  have key: "k x \<noteq> k r" if "x \<in> set rows" and "x \<noteq> r" for x
  proof
    assume "k x = k r"
    with that(1) have "x \<in> set (filter (\<lambda>y. k y = k r) rows)" by simp
    with filter_key_unique [OF assms(1,2)] have "x \<in> set [r]" by simp
    with that(2) show False by simp
  qed
  have "filter (\<lambda>x. P x \<and> f x \<noteq> x) rows = filter (\<lambda>x. f x \<noteq> x) (filter (\<lambda>x. k x = k r) rows)"
    unfolding filter_filter
    by (rule filter_cong [OF refl]) (use assms(3,4) key in blast)
  also have "\<dots> = filter (\<lambda>x. f x \<noteq> x) [r]"
    by (simp add: filter_key_unique [OF assms(1,2)])
  finally show ?thesis unfolding sql_changed_def by simp
qed

lemma sql_update_unique:
  assumes "distinct (map k rows)" and "r \<in> set rows" and "P r" and "\<And>x. P x \<Longrightarrow> k x = k r"
  shows "sql_update P f rows = sql_update (\<lambda>x. k x = k r) (\<lambda>_. f r) rows"
proof (rule sql_update_cong)
  fix x assume x: "x \<in> set rows"
  have eq: "x = r" if "k x = k r"
  proof -
    from that x have "x \<in> set (filter (\<lambda>y. k y = k r) rows)" by simp
    with filter_key_unique [OF assms(1,2)] show ?thesis by simp
  qed
  show "P x \<longleftrightarrow> k x = k r" using eq assms(3,4) by blast
  assume "P x"
  with assms(4) eq show "f x = f r" by simp
qed

lemma first_by_None [simp]: "first_by k rs = None \<longleftrightarrow> rs = []"
  by (cases rs) (auto split: option.splits)

lemma first_by_mem: "first_by k rs = Some r \<Longrightarrow> r \<in> set rs"
  by (induction rs arbitrary: r) (auto split: option.splits if_splits)

lemma first_by_min: "first_by k rs = Some r \<Longrightarrow> x \<in> set rs \<Longrightarrow> k r \<le> k x"
proof (induction rs arbitrary: r x)
  case (Cons y ys)
  show ?case
  proof (cases "first_by k ys")
    case None
    with Cons.prems show ?thesis by auto
  next
    case (Some b)
    with Cons.prems(1) have r: "r = (if k b < k y then b else y)" by simp
    from Cons.IH [OF Some] have b: "\<And>z. z \<in> set ys \<Longrightarrow> k b \<le> k z" by blast
    from Cons.prems(2) consider "x = y" | "x \<in> set ys" by auto
    then show ?thesis
    proof cases
      case 1
      with r show ?thesis by auto
    next
      case 2
      with b have "k b \<le> k x" by blast
      with r show ?thesis by auto
    qed
  qed
qed simp

lemma find_Some_mem: "find P xs = Some x \<Longrightarrow> x \<in> set xs \<and> P x"
  by (induction xs) (auto split: if_splits)

lemma find_unique:
  assumes "distinct (map k rows)" and "r \<in> set rows" and "P r" and "\<And>x. P x \<Longrightarrow> k x = k r"
  shows "find P rows = Some r"
proof -
  obtain x where x: "find P rows = Some x"
    using assms(2,3) by (metis find_None_iff not_None_eq)
  then have "x \<in> set (filter (\<lambda>y. k y = k r) rows)" using assms(4) find_Some_mem by fastforce
  then have "x = r" by (simp add: filter_key_unique [OF assms(1,2)])
  with x show ?thesis by simp
qed

text \<open>\<^verbatim>\<open>ORDER BY k LIMIT n\<close> on a unique key: a row that is left out comes after every row of a full page.\<close>

lemma take_sort_left_out:
  fixes k :: "'r \<Rightarrow> 'k::linorder"
  assumes "distinct (map k xs)" and "x \<in> set xs" and "x \<notin> set (take n (sort_key k xs))"
  shows "length (take n (sort_key k xs)) = n \<and> (\<forall>y \<in> set (take n (sort_key k xs)). k y < k x)"
proof -
  let ?s = "sort_key k xs"
  have x: "x \<in> set (drop n ?s)" using assms(2,3) by (metis Un_iff append_take_drop_id set_append set_sort)
  then have "n < length ?s" by (metis drop_eq_Nil empty_iff empty_set not_le)
  moreover have "k y < k x" if y: "y \<in> set (take n ?s)" for y
  proof -
    have "sorted (map k (take n ?s) @ map k (drop n ?s))" by (simp flip: map_append)
    then have "k y \<le> k x" using x y by (simp add: sorted_append)
    moreover have "k y \<noteq> k x"
      using assms x y by (metis in_set_takeD distinct_map inj_on_def set_sort)
    ultimately show ?thesis by simp
  qed
  ultimately show ?thesis by simp
qed

lemma sort_key_strict:
  fixes k :: "'r \<Rightarrow> 'k::linorder"
  assumes "distinct (map k xs)"
  shows "sorted_wrt (<) (map k (sort_key k xs))"
proof -
  have "distinct (map k (sort_key k xs))" using assms by (simp add: distinct_map)
  then show ?thesis by (simp add: strict_sorted_iff)
qed

subsection \<open>Transition systems\<close>

text \<open>
  The interface behind every stateful component: a step relation and an invariant that every
  step keeps. What holds initially then holds after any sequence of steps, whatever their order.
\<close>

locale transition_system =
  fixes step :: "'s \<Rightarrow> 's \<Rightarrow> bool" and inv :: "'s \<Rightarrow> bool"
  assumes step_inv: "step s t \<Longrightarrow> inv s \<Longrightarrow> inv t"
begin

lemma steps_inv:
  assumes "step\<^sup>*\<^sup>* s t" and "inv s"
  shows "inv t"
  using assms by (induction rule: rtranclp_induct) (auto intro: step_inv)

text \<open>A relation that is reflexive, transitive and kept by every step holds along a run.\<close>

lemma steps_rel:
  assumes "step\<^sup>*\<^sup>* s t" and "inv s" and "\<And>x. inv x \<Longrightarrow> R x x"
    and "\<And>x y. step x y \<Longrightarrow> inv x \<Longrightarrow> R x y" and "\<And>x y z. R x y \<Longrightarrow> R y z \<Longrightarrow> R x z"
  shows "R s t"
  using assms(1)
proof (induction rule: rtranclp_induct)
  case base
  show ?case by (rule assms(3) [OF assms(2)])
next
  case (step y z)
  from step.hyps(1) assms(2) have "inv y" by (rule steps_inv)
  with step.hyps(2) have "R y z" by (rule assms(4))
  with step.IH show ?case by (rule assms(5))
qed

end

end
