(* ===== verification/Upload_Reference.thy ===== *)
theory Upload_Reference
  imports Scribe_Prelude
begin

section \<open>References to stored uploads\<close>

text \<open>
  \<^verbatim>\<open>internal/uploadref/url.go\<close>: which image URLs name an object that Scribe stored itself, and the
  name. \<open>relative_path\<close> is what \<^verbatim>\<open>url.Parse\<close> gives for a reference that has a path and nothing
  else: no scheme, host, user, opaque part, query or fragment.
\<close>

subsection \<open>Relative references\<close>

definition is_ctl :: "char \<Rightarrow> bool" where
  "is_ctl c \<longleftrightarrow> of_char c < (32 :: nat) \<or> of_char c = (127 :: nat)"

definition hex_value :: "char \<Rightarrow> nat option" where
  "hex_value c = (let n = of_char c :: nat in
     if 48 \<le> n \<and> n \<le> 57 then Some (n - 48)
     else if 97 \<le> n \<and> n \<le> 102 then Some (n - 87)
     else if 65 \<le> n \<and> n \<le> 70 then Some (n - 55) else None)"

text \<open>Undoing the percent encoding of a path; \<^const>\<open>None\<close> for a malformed escape.\<close>

fun path_unescape :: "string \<Rightarrow> string option" where
  "path_unescape [] = Some []"
| "path_unescape (c # cs) =
     (if c \<noteq> CHR ''%'' then map_option (Cons c) (path_unescape cs)
      else case cs of
             a # b # r \<Rightarrow> (case (hex_value a, hex_value b) of
                 (Some x, Some y) \<Rightarrow> map_option (Cons (char_of (16 * x + y))) (path_unescape r)
               | _ \<Rightarrow> None)
           | _ \<Rightarrow> None)"

text \<open>
  A reference that starts with two slashes names a host, unless a third one follows; a first segment
  with a colon is an error; one question mark at the end is an empty query.
\<close>

definition relative_path :: "string \<Rightarrow> string option" where
  "relative_path raw =
     (let (u, fragment) = (case cut_at (CHR ''#'') raw of None \<Rightarrow> (raw, []) | Some (a, b) \<Rightarrow> (a, b));
          (rest, query) = (case cut_at (CHR ''?'') u of None \<Rightarrow> (u, []) | Some (a, b) \<Rightarrow> (a, b)) in
      if fragment \<noteq> [] \<or> query \<noteq> [] \<or> list_ex is_ctl u then None
      else if has_prefix rest ''//'' \<and> \<not> has_prefix rest ''///'' then None
      else if \<not> has_prefix rest ''/'' \<and>
        List.member (case cut_at (CHR ''/'') rest of None \<Rightarrow> rest | Some (a, b) \<Rightarrow> a) (CHR '':'') then None
      else path_unescape rest)"

subsection \<open>Upload names\<close>

definition upload_dir :: string where
  "upload_dir = ''/static/uploads/''"

definition NameFromURL :: "string \<Rightarrow> string option" where
  "NameFromURL raw =
     (case relative_path (trim_space raw) of
        None \<Rightarrow> None
      | Some path \<Rightarrow> (case strip_prefix upload_dir path of
           None \<Rightarrow> None
         | Some name \<Rightarrow>
             if name = [] \<or> name = ''.'' \<or> name = ''..'' \<or> List.member name (CHR ''/'') \<or>
                List.member name (CHR 0x5C) then None
             else Some name))"

definition is_hex :: "char \<Rightarrow> bool" where
  "is_hex c \<longleftrightarrow> List.member ''0123456789abcdef'' c"

text \<open>The regular expression: fields of hexadecimal digits with their lengths, and an extension.\<close>

definition is_field :: "nat \<Rightarrow> string \<Rightarrow> bool" where
  "is_field n s \<longleftrightarrow> length s = n \<and> list_all is_hex s"

definition nth_is :: "string \<Rightarrow> nat \<Rightarrow> string \<Rightarrow> bool" where
  "nth_is s n allowed \<longleftrightarrow> (case drop n s of [] \<Rightarrow> False | c # cs \<Rightarrow> List.member allowed c)"

definition immutableUploadName :: "string \<Rightarrow> bool" where
  "immutableUploadName s \<longleftrightarrow>
     is_field 64 (take 64 s) \<and> nth_is s 64 ''-'' \<and> is_field 8 (take 8 (drop 65 s)) \<and> nth_is s 73 ''-'' \<and>
     is_field 4 (take 4 (drop 74 s)) \<and> nth_is s 78 ''-'' \<and> nth_is s 79 ''12345'' \<and> is_field 3 (take 3 (drop 80 s)) \<and>
     nth_is s 83 ''-'' \<and> nth_is s 84 ''89ab'' \<and> is_field 3 (take 3 (drop 85 s)) \<and> nth_is s 88 ''-'' \<and>
     is_field 12 (take 12 (drop 89 s)) \<and> nth_is s 101 ''.'' \<and>
     List.member [''gif'', ''jp2'', ''jpg'', ''png'', ''tiff'', ''webp''] (drop 102 s)"

definition IsImmutableName :: "string \<Rightarrow> bool" where
  "IsImmutableName name \<longleftrightarrow> immutableUploadName (trim_space name)"

definition ImmutableNameFromURL :: "string \<Rightarrow> string option" where
  "ImmutableNameFromURL raw =
     (case NameFromURL raw of None \<Rightarrow> None | Some name \<Rightarrow> if IsImmutableName name then Some name else None)"

subsection \<open>Names are read back\<close>

definition name_char :: "char \<Rightarrow> bool" where
  "name_char c \<longleftrightarrow> List.member ''0123456789abcdef-.gijnptw'' c"

lemma name_chars_plain:
  "list_all (\<lambda>c. is_graph c \<and> \<not> is_ctl c \<and> \<not> List.member [CHR ''%'', CHR ''#'', CHR ''?'', CHR ''/'', CHR 0x5C] c)
     ''0123456789abcdef-.gijnptw''"
  by code_simp

lemma name_char_plain:
  assumes "name_char c"
  shows "is_graph c" "\<not> is_ctl c" "c \<notin> {CHR ''%'', CHR ''#'', CHR ''?'', CHR ''/'', CHR 0x5C}"
proof -
  have "c \<in> set ''0123456789abcdef-.gijnptw''" using assms by (simp only: name_char_def List.member_iff)
  then have "is_graph c \<and> \<not> is_ctl c \<and> \<not> List.member [CHR ''%'', CHR ''#'', CHR ''?'', CHR ''/'', CHR 0x5C] c"
    using name_chars_plain unfolding list_all_iff by blast
  then show "is_graph c" "\<not> is_ctl c" "c \<notin> {CHR ''%'', CHR ''#'', CHR ''?'', CHR ''/'', CHR 0x5C}" by simp_all
qed

lemma hex_name_char: "is_hex c \<Longrightarrow> name_char c"
  by (auto simp: is_hex_def name_char_def)

lemma field_chars:
  assumes "is_field n (take n (drop m s))" and "list_all name_char (drop (n + m) s)"
  shows "list_all name_char (drop m s)"
proof -
  have "list_all name_char (take n (drop m s))"
    using assms(1) by (simp add: is_field_def list_all_iff hex_name_char)
  moreover have "drop m s = take n (drop m s) @ drop (n + m) s" by (simp add: drop_drop [symmetric] del: drop_drop)
  ultimately show ?thesis using assms(2) list_all_append [of name_char "take n (drop m s)" "drop (n + m) s"] by simp
qed

lemma nth_chars:
  assumes "nth_is s m allowed" and "list_all name_char allowed" and "list_all name_char (drop (Suc m) s)"
  shows "list_all name_char (drop m s)"
proof -
  from assms(1) obtain c cs where c: "drop m s = c # cs" "c \<in> set allowed" by (auto simp: nth_is_def split: list.splits)
  then have "drop (Suc m) s = cs" by (metis drop_Suc list.sel(3) tl_drop)
  with c assms show ?thesis by (auto simp: list_all_iff)
qed

lemma immutable_chars:
  assumes "immutableUploadName s"
  shows "list_all name_char s" and "102 < length s"
proof -
  note a = assms [unfolded immutableUploadName_def]
  have ext: "List.member [''gif'', ''jp2'', ''jpg'', ''png'', ''tiff'', ''webp''] (drop 102 s)" using a by blast
  then have "drop 102 s \<noteq> []" by auto
  then show "102 < length s" by (simp add: not_le [symmetric])
  have "list_all name_char (drop 102 s)" using ext by (auto simp: name_char_def)
  then have "list_all name_char (drop 101 s)" by (intro nth_chars [of s 101 "''.''"]) (use a in \<open>simp_all add: name_char_def\<close>)
  then have "list_all name_char (drop 89 s)" by (intro field_chars [of 12 89]) (use a in simp_all)
  then have "list_all name_char (drop 88 s)" by (intro nth_chars [of s 88 "''-''"]) (use a in \<open>simp_all add: name_char_def\<close>)
  then have "list_all name_char (drop 85 s)" by (intro field_chars [of 3 85]) (use a in simp_all)
  then have "list_all name_char (drop 84 s)" by (intro nth_chars [of s 84 "''89ab''"]) (use a in \<open>simp_all add: name_char_def\<close>)
  then have "list_all name_char (drop 83 s)" by (intro nth_chars [of s 83 "''-''"]) (use a in \<open>simp_all add: name_char_def\<close>)
  then have "list_all name_char (drop 80 s)" by (intro field_chars [of 3 80]) (use a in simp_all)
  then have "list_all name_char (drop 79 s)" by (intro nth_chars [of s 79 "''12345''"]) (use a in \<open>simp_all add: name_char_def\<close>)
  then have "list_all name_char (drop 78 s)" by (intro nth_chars [of s 78 "''-''"]) (use a in \<open>simp_all add: name_char_def\<close>)
  then have "list_all name_char (drop 74 s)" by (intro field_chars [of 4 74]) (use a in simp_all)
  then have "list_all name_char (drop 73 s)" by (intro nth_chars [of s 73 "''-''"]) (use a in \<open>simp_all add: name_char_def\<close>)
  then have "list_all name_char (drop 65 s)" by (intro field_chars [of 8 65]) (use a in simp_all)
  then have "list_all name_char (drop 64 s)" by (intro nth_chars [of s 64 "''-''"]) (use a in \<open>simp_all add: name_char_def\<close>)
  then have "list_all name_char (drop 0 s)" by (intro field_chars [of 64 0]) (use a in simp_all)
  then show "list_all name_char s" by simp
qed

lemma path_unescape_plain: "CHR ''%'' \<notin> set s \<Longrightarrow> path_unescape s = Some s"
  by (induction s) auto

lemma immutable_name_read_back:
  assumes "immutableUploadName key"
  shows "ImmutableNameFromURL (upload_dir @ key) = Some key"
proof -
  note plain = immutable_chars [OF assms]
  have ne: "key \<noteq> []" using plain(2) by auto
  then have ends: "hd key \<in> set key" "last key \<in> set key" by simp_all
  have char: "c \<in> set key \<Longrightarrow> name_char c" for c using plain(1) by (simp add: list_all_iff)
  have trim: "trim_space (upload_dir @ key) = upload_dir @ key" "trim_space key = key"
    using ne ends [THEN char, THEN name_char_plain(1)] by (auto intro!: trim_space_graph simp: upload_dir_def is_graph_def)
  have no: "CHR ''%'' \<notin> set key" "CHR ''#'' \<notin> set key" "CHR ''?'' \<notin> set key" "CHR ''/'' \<notin> set key" "CHR 0x5C \<notin> set key"
    using char name_char_plain(3) by blast+
  then have cut: "cut_at (CHR ''#'') (upload_dir @ key) = None" "cut_at (CHR ''?'') (upload_dir @ key) = None"
    by (simp_all add: upload_dir_def)
  have "\<not> list_ex is_ctl (upload_dir @ key)" using char name_char_plain(2) by (auto simp: list_ex_iff upload_dir_def is_ctl_def)
  moreover have "\<not> has_prefix (upload_dir @ key) ''//''" "has_prefix (upload_dir @ key) ''/''"
    by (simp_all add: has_prefix_def upload_dir_def)
  moreover have "path_unescape (upload_dir @ key) = Some (upload_dir @ key)"
    using no(1) by (intro path_unescape_plain) (simp add: upload_dir_def)
  ultimately have "relative_path (upload_dir @ key) = Some (upload_dir @ key)"
    by (simp add: relative_path_def cut)
  moreover have "strip_prefix upload_dir (upload_dir @ key) = Some key" by (simp add: strip_prefix_eq)
  moreover have "key \<noteq> ''.''" "key \<noteq> ''..''" using plain(2) by auto
  ultimately have "NameFromURL (upload_dir @ key) = Some key"
    using ne no(4,5) by (simp add: NameFromURL_def trim(1))
  then show ?thesis using assms by (simp add: ImmutableNameFromURL_def IsImmutableName_def trim)
qed

end
