(* ===== verification/Go_URL.thy ===== *)
theory Go_URL
  imports Upload_Reference
begin

section \<open>Absolute URLs\<close>

text \<open>
  What the code uses of Go's \<^verbatim>\<open>net/url\<close>: \<open>Parse\<close> splits a URL into its parts and \<open>url_String\<close>
  prints them. A part that is absent is the empty string, and \<^verbatim>\<open>User\<close> is only asked for its presence.
  \<^verbatim>\<open>RawPath\<close>, which every caller that prints a URL clears first, is left out.
\<close>

subsection \<open>Bytes and their escapes\<close>

definition is_alpha :: "char \<Rightarrow> bool" where
  "is_alpha c \<longleftrightarrow> (let n = of_char c :: nat in 97 \<le> n \<and> n \<le> 122 \<or> 65 \<le> n \<and> n \<le> 90)"

definition is_alnum :: "char \<Rightarrow> bool" where
  "is_alnum c \<longleftrightarrow> is_alpha c \<or> is_digit c"

definition path_plain :: "char \<Rightarrow> bool" where
  "path_plain c \<longleftrightarrow> is_alnum c \<or> List.member ''-_.~$&+,/:;=@'' c"

definition host_plain :: "char \<Rightarrow> bool" where
  "host_plain c \<longleftrightarrow> is_alnum c \<or> List.member ''-_.~!$&()*+,;=:[]<>'' c \<or> c = CHR 0x22 \<or> c = CHR 0x27"

definition hex_digit :: "nat \<Rightarrow> char" where
  "hex_digit n = ''0123456789ABCDEF'' ! n"

definition escape_byte :: "char \<Rightarrow> string" where
  "escape_byte c = (let n = of_char c in [CHR ''%'', hex_digit (n div 16), hex_digit (n mod 16)])"

definition escape_path :: "string \<Rightarrow> string" where
  "escape_path s = concat (map (\<lambda>c. if path_plain c then [c] else escape_byte c) s)"

definition escape_host :: "string \<Rightarrow> string" where
  "escape_host s = concat (map (\<lambda>c. if host_plain c then [c] else escape_byte c) s)"

text \<open>In a host only bytes outside ASCII, and the percent sign itself, may be escaped.\<close>

fun host_unescape :: "string \<Rightarrow> string option" where
  "host_unescape [] = Some []"
| "host_unescape (c # cs) =
     (if c \<noteq> CHR ''%''
      then if of_char c < (128 :: nat) \<and> \<not> host_plain c then None else map_option (Cons c) (host_unescape cs)
      else case cs of
             a # b # r \<Rightarrow> (case (hex_value a, hex_value b) of
                 (Some x, Some y) \<Rightarrow>
                   if x < 8 \<and> (x, y) \<noteq> (2, 5) then None else map_option (Cons (char_of (16 * x + y))) (host_unescape r)
               | _ \<Rightarrow> None)
           | _ \<Rightarrow> None)"

text \<open>In the zone of an IPv6 literal any byte that a host may hold, and the blank, may be escaped.\<close>

fun zone_unescape :: "string \<Rightarrow> string option" where
  "zone_unescape [] = Some []"
| "zone_unescape (c # cs) =
     (if c \<noteq> CHR ''%''
      then if of_char c < (128 :: nat) \<and> \<not> host_plain c then None else map_option (Cons c) (zone_unescape cs)
      else case cs of
             a # b # r \<Rightarrow> (case (hex_value a, hex_value b) of
                 (Some x, Some y) \<Rightarrow>
                   (let v = char_of (16 * x + y) in
                    if (x, y) \<noteq> (2, 5) \<and> v \<noteq> CHR '' '' \<and> \<not> host_plain v then None
                    else map_option (Cons v) (zone_unescape r))
               | _ \<Rightarrow> None)
           | _ \<Rightarrow> None)"

subsection \<open>Hosts\<close>

definition validOptionalPort :: "string \<Rightarrow> bool" where
  "validOptionalPort port \<longleftrightarrow> (case port of [] \<Rightarrow> True | c # ds \<Rightarrow> c = CHR '':'' \<and> list_all is_digit ds)"

text \<open>The text of an IPv4 address at the end of an IPv6 one: four octets without leading zeros.\<close>

fun split_dots :: "string \<Rightarrow> string list" where
  "split_dots [] = [[]]"
| "split_dots (c # cs) = (if c = CHR ''.'' then [] # split_dots cs
     else case split_dots cs of [] \<Rightarrow> [[c]] | y # ys \<Rightarrow> (c # y) # ys)"

definition ipv4_field :: "string \<Rightarrow> bool" where
  "ipv4_field f \<longleftrightarrow> f \<noteq> [] \<and> list_all is_digit f \<and> length f \<le> 3 \<and> digits_val f \<le> 255 \<and>
     (length f > 1 \<longrightarrow> hd f \<noteq> CHR ''0'')"

definition ipv4_fields :: "string \<Rightarrow> bool" where
  "ipv4_fields s \<longleftrightarrow> length (split_dots s) = 4 \<and> list_all ipv4_field (split_dots s)"

text \<open>
  \<open>v6_groups m gap s\<close> reads at most \<open>m\<close> more groups; \<open>gap\<close> says that a double colon was seen, which has
  to stand for at least one group.
\<close>

fun v6_groups :: "nat \<Rightarrow> bool \<Rightarrow> string \<Rightarrow> bool" where
  "v6_groups 0 gap s \<longleftrightarrow> s = [] \<and> \<not> gap"
| "v6_groups (Suc m) gap s \<longleftrightarrow>
     (let g = takeWhile (\<lambda>c. hex_value c \<noteq> None) s; r = dropWhile (\<lambda>c. hex_value c \<noteq> None) s in
      g \<noteq> [] \<and> length g \<le> 4 \<and>
      (case r of
         [] \<Rightarrow> gap = (m \<noteq> 0)
       | c # t \<Rightarrow>
           if c = CHR ''.'' then 1 \<le> m \<and> (gap \<or> m = 1) \<and> ipv4_fields s \<and> gap = (m \<noteq> 1)
           else c = CHR '':'' \<and> t \<noteq> [] \<and>
             (if hd t = CHR '':'' then \<not> gap \<and> (if tl t = [] then m \<noteq> 0 else v6_groups m True (tl t))
              else v6_groups m gap t)))"

definition ipv6_address :: "string \<Rightarrow> bool" where
  "ipv6_address s =
     (case strip_prefix ''::'' s of Some r \<Rightarrow> r = [] \<or> v6_groups 8 True r | None \<Rightarrow> v6_groups 8 False s)"

definition ipv6_literal :: "string \<Rightarrow> bool" where
  "ipv6_literal s =
     (case cut_at (CHR ''%'') s of None \<Rightarrow> ipv6_address s | Some (a, zone) \<Rightarrow> zone \<noteq> [] \<and> ipv6_address a)"

definition cut_last :: "char \<Rightarrow> string \<Rightarrow> (string \<times> string) option" where
  "cut_last c s = map_option (\<lambda>(a, b). (rev b, rev a)) (cut_at c (rev s))"

text \<open>The zone starts at the first escaped percent sign.\<close>

fun cut_zone :: "string \<Rightarrow> string \<times> string" where
  "cut_zone [] = ([], [])"
| "cut_zone (c # cs) = (if has_prefix (c # cs) ''%25'' then ([], c # cs) else let (a, b) = cut_zone cs in (c # a, b))"

text \<open>
  A host with brackets is an IPv6 literal with an optional port. In any other host the first colon
  starts the port; the schemes for which Go tolerates further colons are refused by every caller.
\<close>

definition parseHost :: "string \<Rightarrow> string option" where
  "parseHost host =
     (case cut_last (CHR ''['') host of
        Some (front, opened) \<Rightarrow>
          (case cut_last (CHR '']'') host of
             None \<Rightarrow> None
           | Some (_, colonPort) \<Rightarrow>
               if front \<noteq> [] \<or> \<not> validOptionalPort colonPort \<or> length opened < length colonPort + 1 then None
               else let hostname = take (length opened - length colonPort - 1) opened;
                        (hostPart, zonePart) = cut_zone hostname in
                 (case (host_unescape hostPart, zone_unescape zonePart) of
                    (Some a, Some b) \<Rightarrow> if ipv6_literal (a @ b) then Some (''['' @ a @ b @ '']'' @ colonPort) else None
                  | _ \<Rightarrow> None))
      | None \<Rightarrow>
          if (case cut_at (CHR '':'') host of None \<Rightarrow> True | Some (_, port) \<Rightarrow> validOptionalPort (CHR '':'' # port))
          then host_unescape host else None)"

definition userinfo_char :: "char \<Rightarrow> bool" where
  "userinfo_char c \<longleftrightarrow> is_alnum c \<or> List.member ''-._:~!$&()*+,;=%@'' c \<or> c = CHR 0x27"

text \<open>A user is refused when a byte of it is out of place or an escape is malformed.\<close>

definition parseAuthority :: "string \<Rightarrow> (bool \<times> string) option" where
  "parseAuthority authority =
     (case cut_last (CHR ''@'') authority of
        None \<Rightarrow> map_option (Pair False) (parseHost authority)
      | Some (userinfo, h) \<Rightarrow>
          (case parseHost h of
             None \<Rightarrow> None
           | Some host \<Rightarrow>
               if list_all userinfo_char userinfo \<and> path_unescape userinfo \<noteq> None then Some (True, host) else None))"

subsection \<open>Parsing and printing\<close>

record URL =
  u_Scheme :: string
  u_Opaque :: string
  u_User :: bool
  u_Host :: string
  u_Path :: string
  u_OmitHost :: bool
  u_ForceQuery :: bool
  u_RawQuery :: string
  u_Fragment :: string

definition no_url :: URL where
  "no_url = \<lparr>u_Scheme = [], u_Opaque = [], u_User = False, u_Host = [], u_Path = [], u_OmitHost = False,
     u_ForceQuery = False, u_RawQuery = [], u_Fragment = []\<rparr>"

definition scheme_char :: "char \<Rightarrow> bool" where
  "scheme_char c \<longleftrightarrow> is_alnum c \<or> List.member ''+-.'' c"

definition getScheme :: "string \<Rightarrow> (string \<times> string) option" where
  "getScheme raw =
     (case raw of
        [] \<Rightarrow> Some ([], raw)
      | c # _ \<Rightarrow>
          if c = CHR '':'' then None
          else if \<not> is_alpha c then Some ([], raw)
          else case dropWhile scheme_char raw of
                 x # rest \<Rightarrow> if x = CHR '':'' then Some (takeWhile scheme_char raw, rest) else Some ([], raw)
               | [] \<Rightarrow> Some ([], raw))"

definition cut_query :: "string \<Rightarrow> string \<times> bool \<times> string" where
  "cut_query rest =
     (case cut_at (CHR ''?'') rest of
        None \<Rightarrow> (rest, False, [])
      | Some (a, []) \<Rightarrow> (a, True, [])
      | Some (a, q) \<Rightarrow> (a, False, q))"

definition cut_authority :: "string \<Rightarrow> string \<times> string" where
  "cut_authority s = (case cut_at (CHR ''/'') s of None \<Rightarrow> (s, []) | Some (a, p) \<Rightarrow> (a, CHR ''/'' # p))"

definition parse_hierarchy :: "string \<Rightarrow> bool \<Rightarrow> string \<Rightarrow> string \<Rightarrow> URL option" where
  "parse_hierarchy scheme force query rest =
     (let u = no_url\<lparr>u_Scheme := scheme, u_ForceQuery := force, u_RawQuery := query\<rparr> in
      if (scheme \<noteq> [] \<or> \<not> has_prefix rest ''///'') \<and> has_prefix rest ''//''
      then let (authority, path) = cut_authority (drop 2 rest) in
        (case (parseAuthority authority, path_unescape path) of
           (Some (user, host), Some p) \<Rightarrow> Some (u\<lparr>u_User := user, u_Host := host, u_Path := p\<rparr>)
         | _ \<Rightarrow> None)
      else map_option (\<lambda>p. u\<lparr>u_Path := p, u_OmitHost := (scheme \<noteq> [] \<and> has_prefix rest ''/'')\<rparr>) (path_unescape rest))"

definition parse_url :: "string \<Rightarrow> URL option" where
  "parse_url raw =
     (if list_ex is_ctl raw then None
      else if raw = ''*'' then Some (no_url\<lparr>u_Path := ''*''\<rparr>)
      else case getScheme raw of
        None \<Rightarrow> None
      | Some (s, rest0) \<Rightarrow>
          (let scheme = map lower_byte s; (rest, force, query) = cut_query rest0 in
           if \<not> has_prefix rest ''/'' \<and> scheme \<noteq> []
           then Some (no_url\<lparr>u_Scheme := scheme, u_Opaque := rest, u_ForceQuery := force, u_RawQuery := query\<rparr>)
           else if \<not> has_prefix rest ''/'' \<and> List.member (fst (cut_authority rest)) (CHR '':'') then None
           else parse_hierarchy scheme force query rest))"

definition Parse :: "string \<Rightarrow> URL option" where
  "Parse raw =
     (case cut_at (CHR ''#'') raw of
        None \<Rightarrow> parse_url raw
      | Some (u, frag) \<Rightarrow>
          (case (parse_url u, path_unescape frag) of
             (Some url, Some f) \<Rightarrow> Some (url\<lparr>u_Fragment := f\<rparr>)
           | _ \<Rightarrow> None))"

text \<open>Printing a URL that has a scheme, a host and neither a user nor a fragment.\<close>

definition url_String :: "URL \<Rightarrow> string" where
  "url_String u =
     u_Scheme u @ ''://'' @ escape_host (u_Host u) @
     (let path = escape_path (u_Path u) in if path \<noteq> [] \<and> hd path \<noteq> CHR ''/'' then CHR ''/'' # path else path) @
     (if u_ForceQuery u \<or> u_RawQuery u \<noteq> [] then CHR ''?'' # u_RawQuery u else [])"

end
