(* ===== verification/Job_Schema.thy ===== *)
theory Job_Schema
  imports Scribe_Prelude "HOL-Library.List_Lexorder" "HOL-Library.Char_ord"
begin

section \<open>The tables behind transcription jobs\<close>

text \<open>
  The rows of the tables that \<^verbatim>\<open>internal/store/transcription_jobs.go\<close> and its neighbours read and
  write, with the CHECK constraints of \<^verbatim>\<open>internal/database/migrations/0001_initial.sql\<close>, and the
  database record that holds them. Identifiers and DATETIME values (in seconds) are natural
  numbers, INT columns are integers, NULL is \<^const>\<open>None\<close>. A JSON column holds a JSON value.
\<close>

subsection \<open>JSON values\<close>

text \<open>
  A number keeps its literal, as \<^verbatim>\<open>decoder.UseNumber()\<close> does; an object keeps its members in the
  order of the text.
\<close>

datatype json =
    JNull
  | JBool bool
  | JNum string
  | JStr string
  | JArr "json list"
  | JObj "(string \<times> json) list"

text \<open>
  Decoding an object into \<^verbatim>\<open>map[string]any\<close> keeps the last member of each name; encoding the map
  writes the names in byte order. Two documents normalise to the same bytes exactly when these
  normal forms are equal.
\<close>

fun keep_last :: "(string \<times> 'v) list \<Rightarrow> (string \<times> 'v) list" where
  "keep_last [] = []"
| "keep_last ((k, v) # kvs) =
     (if List.member (map fst kvs) k then keep_last kvs else (k, v) # keep_last kvs)"

fun json_normalize :: "json \<Rightarrow> json" where
  "json_normalize (JArr xs) = JArr (map json_normalize xs)"
| "json_normalize (JObj kvs) =
     JObj (sort_key fst (keep_last (map (\<lambda>kv. (fst kv, json_normalize (snd kv))) kvs)))"
| "json_normalize j = j"

definition equivalentJSON :: "json \<Rightarrow> json \<Rightarrow> bool" where
  "equivalentJSON left right \<longleftrightarrow> json_normalize left = json_normalize right"

subsection \<open>Job rows\<close>

datatype job_status = Pending | Running | Completed | Failed | Canceled | Superseded

record job_row =
  j_id :: nat
  j_workspace_id :: nat
  j_item_image_id :: nat
  j_context_id :: "nat option"
  j_context_scope_id :: "nat option"
  j_context_snapshot :: json
  j_input_revision :: nat
  j_status :: job_status
  j_total_segments :: int
  j_completed_segments :: int
  j_failed_segments :: int
  j_attempt_count :: int
  j_max_attempts :: int
  j_retry_after :: "nat option"
  j_lease_until :: "nat option"
  j_locked_by :: "string option"
  j_current_annotation_id :: "string option"
  j_current_annotation_json :: "string option"
  j_last_result_annotation_json :: "string option"
  j_error_message :: "string option"
  j_created_at :: nat
  j_updated_at :: nat

text \<open>The two active statuses; \<^verbatim>\<open>active_item_image_id\<close> is a generated column.\<close>

definition active_status :: "job_status \<Rightarrow> bool" where
  "active_status s \<longleftrightarrow> s = Pending \<or> s = Running"

definition terminal_status :: "job_status \<Rightarrow> bool" where
  "terminal_status s \<longleftrightarrow> s = Completed \<or> s = Failed \<or> s = Canceled \<or> s = Superseded"

definition j_active_item_image_id :: "job_row \<Rightarrow> nat option" where
  "j_active_item_image_id r = (if active_status (j_status r) then Some (j_item_image_id r) else None)"

definition job_row_check :: "job_row \<Rightarrow> bool" where
  "job_row_check r \<longleftrightarrow>
     ((j_context_id r = None \<and> j_context_scope_id r = None) \<or>
      (j_context_id r \<noteq> None \<and>
       (j_context_scope_id r = Some 0 \<or> j_context_scope_id r = Some (j_workspace_id r)))) \<and>
     0 < j_input_revision r \<and>
     0 < j_max_attempts r \<and> 0 \<le> j_attempt_count r \<and> j_attempt_count r \<le> j_max_attempts r \<and>
     0 \<le> j_total_segments r \<and> 0 \<le> j_completed_segments r \<and> 0 \<le> j_failed_segments r \<and>
     (if j_status r = Running
      then 0 < j_attempt_count r \<and> j_lease_until r \<noteq> None \<and> j_locked_by r \<noteq> None
      else j_lease_until r = None \<and> j_locked_by r = None)"

lemma not_active_iff_terminal: "\<not> active_status s \<longleftrightarrow> terminal_status s"
  by (cases s) (simp_all add: active_status_def terminal_status_def)

subsection \<open>Attempt rows\<close>

datatype outcome =
    ORunning | OCompleted | ORetryableFailed | OFailed | OCanceled | OSuperseded | OLeaseExpired

record attempt_row =
  a_job_id :: nat
  a_attempt_number :: int
  a_context_snapshot :: json
  a_input_revision :: nat
  a_lease_owner :: string
  a_lease_token :: string
  a_outcome :: outcome
  a_safe_error_message :: "string option"
  a_result_revision :: "nat option"
  a_started_at :: nat
  a_finished_at :: "nat option"

definition attempt_row_check :: "attempt_row \<Rightarrow> bool" where
  "attempt_row_check a \<longleftrightarrow>
     0 < a_attempt_number a \<and> 0 < a_input_revision a \<and>
     (if a_outcome a = ORunning then a_finished_at a = None \<and> a_result_revision a = None
      else a_finished_at a \<noteq> None) \<and>
     (a_outcome a = OCompleted \<longleftrightarrow> a_result_revision a \<noteq> None) \<and>
     (a_outcome a \<in> {ORunning, OCompleted} \<longleftrightarrow> a_safe_error_message a = None) \<and>
     (case a_finished_at a of None \<Rightarrow> True | Some t \<Rightarrow> a_started_at a \<le> t)"

subsection \<open>The other tables\<close>

record checkpoint_row =
  c_job_id :: nat
  c_line_id :: string
  c_payload :: string

datatype item_source = SourceURL | SourceUpload | SourceManifest | SourceHocr

record item_row =
  it_id :: string
  it_user_id :: nat
  it_workspace_id :: nat
  it_name :: string
  it_document_type :: "string option"
  it_source_type :: item_source
  it_source_url :: "string option"
  it_source_manifest :: "string option"
  it_metadata :: string
  it_external_reference_id :: string
  it_caller_idempotency_key :: string
  it_created_at :: nat

record image_row =
  im_id :: nat
  im_item_id :: string
  im_workspace_id :: nat
  im_sequence :: nat
  im_image_url :: string
  im_storage_bytes :: nat
  im_canvas_uri :: "string option"
  im_width :: "nat option"
  im_height :: "nat option"
  im_label :: "string option"
  im_hocr_url :: "string option"

datatype member_role = RoleAdmin | RoleWrite | RoleCreate | RoleRead

record member_row =
  wm_workspace_id :: nat
  wm_user_id :: nat
  wm_role :: member_role

text \<open>
  The canonical page of an image, its query index, the published snapshot, and the ground truth. A
  payload is the text of a JSON document; its length is what \<^verbatim>\<open>OCTET_LENGTH\<close> measures.
\<close>

record page_row =
  pg_item_image_id :: nat
  pg_workspace_id :: nat
  pg_page_id :: string
  pg_canvas_uri :: string
  pg_payload :: string
  pg_revision :: nat
  pg_updated_by_user_id :: "nat option"

record index_row =
  an_workspace_id :: nat
  an_item_image_id :: nat
  an_id :: string
  an_canvas_uri :: string
  an_text_granularity :: "string option"
  an_position :: nat
  an_payload :: string

record published_row =
  pp_workspace_id :: nat
  pp_item_image_id :: nat
  pp_page_id :: string
  pp_canvas_uri :: string
  pp_payload :: string
  pp_published_revision :: nat
  pp_published_by_user_id :: "nat option"
  pp_published_at :: nat

record ground_truth_row =
  gt_workspace_id :: nat
  gt_item_image_id :: nat
  gt_revision :: nat
  gt_context_id :: "nat option"
  gt_document_type :: string
  gt_payload :: string
  gt_original_page :: string
  gt_image_url :: string
  gt_transcript :: string
  gt_marked_by_user_id :: "nat option"

datatype mirror_status = MPending | MProcessing | MFailed

record mirror_row =
  mi_item_image_id :: nat
  mi_revision :: nat
  mi_payload :: string
  mi_status :: mirror_status
  mi_attempt_count :: int
  mi_max_attempts :: int
  mi_next_attempt_at :: nat
  mi_lease_until :: "nat option"
  mi_locked_by :: "string option"
  mi_last_error :: "string option"
  mi_created_at :: nat
  mi_updated_at :: nat

record tombstone_row =
  tb_item_image_id :: nat
  tb_generation :: nat
  tb_annotation_ids :: string

record audit_row =
  pa_id :: nat
  pa_workspace_id :: nat
  pa_session_id :: "string option"
  pa_item_image_id :: "nat option"
  pa_context_id :: "nat option"
  pa_context_scope_id :: "nat option"
  pa_provider :: string
  pa_model :: string
  pa_operation :: string
  pa_error_message :: "string option"
  pa_http_status :: "int option"
  pa_duration_ms :: nat
  pa_database_bytes :: nat
  pa_input_tokens :: nat
  pa_output_tokens :: nat
  pa_thought_tokens :: nat
  pa_created_at :: nat

text \<open>A one-time grant to review one image, and the browser session its redemption opens.\<close>

record review_token_row =
  et_id :: string
  et_token_hash :: string
  et_workspace_id :: nat
  et_item_id :: string
  et_item_image_id :: nat
  et_issued_by_user_id :: nat
  et_reviewer_subject_hash :: string
  et_reviewer_name :: string
  et_reviewer_email :: "string option"
  et_session_ttl_seconds :: nat
  et_expires_at :: nat
  et_redeemed_at :: "nat option"

record review_session_row =
  es_id :: nat
  es_token_hash :: string
  es_review_token_id :: string
  es_workspace_id :: nat
  es_item_id :: string
  es_item_image_id :: nat
  es_issued_by_user_id :: nat
  es_reviewer_subject_hash :: string
  es_reviewer_name :: string
  es_reviewer_email :: "string option"
  es_expires_at :: nat
  es_user_agent :: "string option"
  es_ip_address :: "string option"

text \<open>
  A context row. The columns other than these three are kept as the members that \<^verbatim>\<open>json.Marshal\<close>
  writes for them after \<^verbatim>\<open>document_type\<close>, the first field of the \<^verbatim>\<open>Context\<close> struct.
\<close>

record context_row =
  cx_id :: nat
  cx_workspace_id :: "nat option"
  cx_document_type :: string
  cx_members :: "(string \<times> json) list"

definition cx_scope_id :: "context_row \<Rightarrow> nat" where
  "cx_scope_id c = (case cx_workspace_id c of None \<Rightarrow> 0 | Some w \<Rightarrow> w)"

datatype batch_status = BInProgress | BCompleted | BCanceled

record batch_row =
  ub_workspace_id :: nat
  ub_id :: string
  ub_item_id :: string
  ub_context_id :: "nat option"
  ub_context_scope_id :: "nat option"
  ub_context_snapshot :: json
  ub_request_hash :: string
  ub_creation_token :: string
  ub_status :: batch_status
  ub_created_at :: nat
  ub_updated_at :: nat

datatype batch_file_status = FPending | FProcessing | FCompleted | FFailed | FCanceled

record batch_file_row =
  bf_workspace_id :: nat
  bf_batch_id :: string
  bf_sequence :: nat
  bf_filename :: string
  bf_size :: nat
  bf_content_sha256 :: string
  bf_status :: batch_file_status
  bf_attempt_count :: nat
  bf_max_attempts :: nat
  bf_lease_until :: "nat option"
  bf_locked_by :: "string option"
  bf_item_image_id :: "nat option"
  bf_transcription_job_id :: "nat option"
  bf_error_message :: "string option"
  bf_created_at :: nat
  bf_updated_at :: nat

datatype request_status = InProgress | RCompleted | RFailed

record request_row =
  rq_id :: nat
  rq_workspace_id :: nat
  rq_source :: string
  rq_idempotency_key :: string
  rq_request_hash :: string
  rq_status :: request_status
  rq_item_id :: "string option"
  rq_item_image_id :: "nat option"
  rq_transcription_job_id :: "nat option"
  rq_session_id :: "string option"
  rq_event_header :: "string option"
  rq_attempt_count :: int
  rq_max_attempts :: int
  rq_lease_until :: "nat option"
  rq_locked_by :: "string option"
  rq_error_message :: "string option"
  rq_updated_at :: nat

record event_row =
  ev_id :: nat
  ev_event_id :: string
  ev_event_type :: string
  ev_workspace_id :: "nat option"
  ev_subject :: "string option"
  ev_body_json :: string
  ev_created_at :: nat

datatype delivery_status = DPending | DProcessing | DDelivered | DFailed

record delivery_row =
  wd_id :: nat
  wd_event_id :: string
  wd_subscription_id :: nat
  wd_status :: delivery_status
  wd_attempt_count :: int
  wd_max_attempts :: int
  wd_next_attempt_at :: "nat option"
  wd_lease_until :: "nat option"
  wd_locked_by :: "string option"
  wd_last_error :: "string option"
  wd_created_at :: nat
  wd_updated_at :: nat

record ocr_run_row =
  run_session_id :: string
  run_workspace_id :: nat
  run_item_image_id :: nat
  run_context_id :: "nat option"
  run_context_scope_id :: "nat option"
  run_image_url :: string
  run_provider :: string
  run_model :: string
  run_original_hocr :: string
  run_original_text :: string
  run_original_page :: "string option"
  run_segmentation_correction :: "string option"
  run_canonical_revision :: "nat option"
  run_levenshtein_distance :: int

record current_run_row =
  cr_item_image_id :: nat
  cr_session_id :: string

record subscription_row =
  ws_id :: nat
  ws_workspace_id :: nat
  ws_target_url :: string
  ws_target_hash :: string
  ws_signing_secret :: string
  ws_created_at :: nat
  ws_updated_at :: nat

text \<open>
  The counters of a workspace, and in the row of workspace 0 those of the whole installation. A
  counter is a \<^verbatim>\<open>BIGINT UNSIGNED\<close> column; \<^verbatim>\<open>updated_at\<close> is read nowhere and left out.
\<close>

record usage_row =
  us_workspace_id :: nat
  us_upload_blob_bytes :: nat
  us_database_bytes :: nat
  us_item_count :: nat
  us_image_count :: nat
  us_reserved_upload_blob_bytes :: nat
  us_reserved_database_bytes :: nat
  us_reserved_item_count :: nat
  us_reserved_image_count :: nat

record reservation_row =
  sr_id :: string
  sr_workspace_id :: nat
  sr_reserved_bytes :: nat
  sr_reserved_database_bytes :: nat
  sr_reserved_items :: nat
  sr_reserved_images :: nat
  sr_resource_key :: "string option"
  sr_expires_at :: nat
  sr_created_at :: nat

datatype cleanup_kind = UploadBlob | TripletPresentationImage | TripletPresentationItem

datatype cleanup_status = CPending | CProcessing | CFailed

record cleanup_row =
  rc_id :: nat
  rc_kind :: cleanup_kind
  rc_resource_key :: string
  rc_workspace_id :: nat
  rc_storage_bytes :: nat
  rc_generation :: nat
  rc_delete_fenced_at :: "nat option"
  rc_status :: cleanup_status
  rc_attempt_count :: int
  rc_max_attempts :: int
  rc_next_attempt_at :: nat
  rc_lease_until :: "nat option"
  rc_locked_by :: "string option"
  rc_last_error :: "string option"
  rc_created_at :: nat
  rc_updated_at :: nat

subsection \<open>The database\<close>

record db =
  jobs :: "job_row list"
  attempts :: "attempt_row list"
  checkpoints :: "checkpoint_row list"
  workspaces :: "nat list"
  items :: "item_row list"
  images :: "image_row list"
  pages :: "page_row list"
  contexts :: "context_row list"
  batch_files :: "batch_file_row list"
  requests :: "request_row list"
  events :: "event_row list"
  deliveries :: "delivery_row list"
  subscriptions :: "subscription_row list"
  ocr_runs :: "ocr_run_row list"
  next_job_id :: nat
  next_request_id :: nat
  next_event_id :: nat
  next_delivery_id :: nat
  next_subscription_id :: nat
  usages :: "usage_row list"
  reservations :: "reservation_row list"
  cleanups :: "cleanup_row list"
  next_cleanup_id :: nat
  next_image_id :: nat
  members :: "member_row list"
  batches :: "batch_row list"
  page_index :: "index_row list"
  published_pages :: "published_row list"
  ground_truths :: "ground_truth_row list"
  mirrors :: "mirror_row list"
  tombstones :: "tombstone_row list"
  current_runs :: "current_run_row list"
  audits :: "audit_row list"
  next_audit_id :: nat
  review_tokens :: "review_token_row list"
  review_sessions :: "review_session_row list"
  next_review_session_id :: nat

text \<open>
  What a transaction reads from outside the database: \<open>now\<close> is the database's \<^verbatim>\<open>NOW()\<close> and
  \<open>now6\<close> its \<^verbatim>\<open>NOW(6)\<close> in microseconds, \<open>clock6\<close> the process's \<^verbatim>\<open>time.Now().UTC()\<close> in
  microseconds, \<open>uuid\<close> the value of \<^verbatim>\<open>uuid.NewString()\<close>, \<open>hostname\<close> the result of
  \<^verbatim>\<open>os.Hostname()\<close> (\<^const>\<open>None\<close> for an error), and the last five the job,
  delivery, quota, reservation and cleanup rows other transactions hold, which \<^verbatim>\<open>SKIP LOCKED\<close>
  passes over.
\<close>

record env =
  now :: nat
  now6 :: nat
  clock6 :: nat
  uuid :: string
  hostname :: "string option"
  row_locked :: "nat \<Rightarrow> bool"
  delivery_locked :: "nat \<Rightarrow> bool"
  usage_locked :: "nat \<Rightarrow> bool"
  reservation_locked :: "string \<Rightarrow> bool"
  cleanup_locked :: "nat \<Rightarrow> bool"

text \<open>A time with microseconds is rounded when a DATETIME column stores it.\<close>

definition datetime_of :: "nat \<Rightarrow> nat" where
  "datetime_of t6 = (t6 + 500000) div 1000000"

definition clock :: "env \<Rightarrow> nat" where
  "clock e = datetime_of (clock6 e)"

abbreviation put_jobs :: "job_row list \<Rightarrow> db \<Rightarrow> db" where
  "put_jobs rs d \<equiv> d\<lparr>jobs := rs\<rparr>"

abbreviation put_attempts :: "attempt_row list \<Rightarrow> db \<Rightarrow> db" where
  "put_attempts rs d \<equiv> d\<lparr>attempts := rs\<rparr>"

abbreviation put_checkpoints :: "checkpoint_row list \<Rightarrow> db \<Rightarrow> db" where
  "put_checkpoints rs d \<equiv> d\<lparr>checkpoints := rs\<rparr>"

abbreviation put_requests :: "request_row list \<Rightarrow> db \<Rightarrow> db" where
  "put_requests rs d \<equiv> d\<lparr>requests := rs\<rparr>"

abbreviation put_batch_files :: "batch_file_row list \<Rightarrow> db \<Rightarrow> db" where
  "put_batch_files rs d \<equiv> d\<lparr>batch_files := rs\<rparr>"

abbreviation put_events :: "event_row list \<Rightarrow> db \<Rightarrow> db" where
  "put_events rs d \<equiv> d\<lparr>events := rs\<rparr>"

abbreviation put_subscriptions :: "subscription_row list \<Rightarrow> db \<Rightarrow> db" where
  "put_subscriptions rs d \<equiv> d\<lparr>subscriptions := rs\<rparr>"

abbreviation put_deliveries :: "delivery_row list \<Rightarrow> db \<Rightarrow> db" where
  "put_deliveries rs d \<equiv> d\<lparr>deliveries := rs\<rparr>"

abbreviation put_usages :: "usage_row list \<Rightarrow> db \<Rightarrow> db" where
  "put_usages rs d \<equiv> d\<lparr>usages := rs\<rparr>"

abbreviation put_reservations :: "reservation_row list \<Rightarrow> db \<Rightarrow> db" where
  "put_reservations rs d \<equiv> d\<lparr>reservations := rs\<rparr>"

abbreviation put_cleanups :: "cleanup_row list \<Rightarrow> db \<Rightarrow> db" where
  "put_cleanups rs d \<equiv> d\<lparr>cleanups := rs\<rparr>"

subsection \<open>Values that cross the driver\<close>

text \<open>\<^verbatim>\<open>newLeaseOwner\<close>: a normalised prefix, a dash and a fresh UUID.\<close>

definition trim_char :: "char \<Rightarrow> string \<Rightarrow> string" where
  "trim_char c s = rev (dropWhile (\<lambda>x. x = c) (rev (dropWhile (\<lambda>x. x = c) s)))"

definition newLeaseOwner :: "env \<Rightarrow> string \<Rightarrow> string" where
  "newLeaseOwner e owner_prefix =
     (let p = trim_char (CHR ''-'') (to_lower (trim_space owner_prefix)) in
      (if p = [] then ''lease'' else p) @ ''-'' @ uuid e)"

text \<open>What the code relies on of \<^verbatim>\<open>uuid.NewString()\<close>: hexadecimal digits and dashes, 36 bytes.\<close>

definition uuid_text :: "string \<Rightarrow> bool" where
  "uuid_text u \<longleftrightarrow> length u = 36 \<and> list_all (\<lambda>c. List.member ''0123456789abcdef-'' c) u"

text \<open>\<^verbatim>\<open>nullableString\<close> and \<^verbatim>\<open>nullableUint64\<close> of the store package.\<close>

definition nullableString :: "string \<Rightarrow> string option" where
  "nullableString v = (let t = trim_space v in if t = [] then None else Some t)"

definition nullableUint64 :: "nat \<Rightarrow> nat option" where
  "nullableUint64 v = (if v = 0 \<or> v > 2 ^ 63 - 1 then None else Some v)"

text \<open>\<^verbatim>\<open>COALESCE(column, '') = ?\<close> and \<^verbatim>\<open>column = ?\<close> with a nullable argument: a comparison with NULL is not true.\<close>

definition coalesce_eq :: "string option \<Rightarrow> string option \<Rightarrow> bool" where
  "coalesce_eq col arg =
     (case arg of None \<Rightarrow> False
      | Some t \<Rightarrow> (case col of None \<Rightarrow> t = [] | Some s \<Rightarrow> s = t))"

definition null_eq :: "'a option \<Rightarrow> 'a option \<Rightarrow> bool" where
  "null_eq col arg = (case arg of None \<Rightarrow> False | Some t \<Rightarrow> col = Some t)"

lemma hex_is_graph: "List.member ''0123456789abcdef-'' c \<Longrightarrow> is_graph c"
  by (auto simp: is_graph_def)

lemma newLeaseOwner_prefixes:
  "newLeaseOwner e ''worker'' = ''worker-'' @ uuid e"
  "newLeaseOwner e ''webhook'' = ''webhook-'' @ uuid e"
  "newLeaseOwner e ''request'' = ''request-'' @ uuid e"
  "newLeaseOwner e ''resource-cleanup'' = ''resource-cleanup-'' @ uuid e"
proof -
  have "trim_char (CHR ''-'') (to_lower (trim_space ''worker'')) = ''worker''"
    "trim_char (CHR ''-'') (to_lower (trim_space ''webhook'')) = ''webhook''"
    "trim_char (CHR ''-'') (to_lower (trim_space ''request'')) = ''request''"
    "trim_char (CHR ''-'') (to_lower (trim_space ''resource-cleanup'')) = ''resource-cleanup''" by code_simp+
  then show "newLeaseOwner e ''worker'' = ''worker-'' @ uuid e"
    "newLeaseOwner e ''webhook'' = ''webhook-'' @ uuid e"
    "newLeaseOwner e ''request'' = ''request-'' @ uuid e"
    "newLeaseOwner e ''resource-cleanup'' = ''resource-cleanup-'' @ uuid e" by (simp_all add: newLeaseOwner_def Let_def)
qed

lemma trim_space_owner:
  assumes "uuid_text u" and "p \<noteq> []" and "is_graph (hd p)"
  shows "trim_space (p @ u) = p @ u"
proof (rule trim_space_graph)
  from assms(1) have "u \<noteq> []" by (auto simp: uuid_text_def)
  then have "last u \<in> set u" by simp
  with assms(1) have "List.member ''0123456789abcdef-'' (last u)"
    unfolding uuid_text_def list_all_iff by blast
  then have "is_graph (last u)" by (rule hex_is_graph)
  with \<open>u \<noteq> []\<close> show "is_graph (last (p @ u))" by simp
qed (use assms in auto)

lemma nullableString_owner:
  assumes "uuid_text u" and "p \<noteq> []" and "is_graph (hd p)"
  shows "nullableString (p @ u) = Some (p @ u)"
  using trim_space_owner [OF assms] assms(2) by (simp add: nullableString_def)

lemma nullableString_nonempty [simp]: "nullableString v \<noteq> Some []"
  by (simp add: nullableString_def Let_def)

lemma coalesce_eq_nonempty [simp]:
  "coalesce_eq col (nullableString v) \<longleftrightarrow> nullableString v \<noteq> None \<and> col = nullableString v"
  by (auto simp: coalesce_eq_def nullableString_def Let_def split: option.splits)

end
