(* ===== verification/Media_Fragment.thy ===== *)
theory Media_Fragment
  imports Job_Schema
begin

section \<open>Media fragments and pixel geometry\<close>

text \<open>
  \<^verbatim>\<open>internal/iiif/media_fragment.go\<close> and the coordinate and geometry checks of
  \<^verbatim>\<open>internal/iiif/presentation.go\<close>: reading, replacing and removing the \<^verbatim>\<open>xywh\<close> parameter of a media
  fragment among its other parameters, finding it in a compact target or in the selectors of a
  SpecificResource, and binding it to the dimensions of the image. A decoded JSON value is a
  \<^typ>\<open>json\<close>; of equal members of an object the last one counts, and JSON null reads as Go's nil.
\<close>

subsection \<open>Splitting and joining\<close>

fun split_on :: "char \<Rightarrow> string \<Rightarrow> string list" where
  "split_on c [] = [[]]"
| "split_on c (x # xs) =
     (if x = c then [] # split_on c xs
      else case split_on c xs of [] \<Rightarrow> [[x]] | y # ys \<Rightarrow> (x # y) # ys)"

fun join_with :: "char \<Rightarrow> string list \<Rightarrow> string" where
  "join_with c [] = []"
| "join_with c [x] = x"
| "join_with c (x # y # ys) = x @ c # join_with c (y # ys)"

definition trim_prefix :: "string \<Rightarrow> string \<Rightarrow> string" where
  "trim_prefix s p = (case strip_prefix p s of None \<Rightarrow> s | Some t \<Rightarrow> t)"

text \<open>
  \<^verbatim>\<open>strings.EqualFold\<close> with an ASCII word: besides the letters of both cases only U+017F and U+212A
  fold to ASCII letters.
\<close>

fun ascii_fold :: "string \<Rightarrow> string" where
  "ascii_fold [] = []"
| "ascii_fold (c # cs) =
     (case strip_prefix [CHR 0xC5, CHR 0xBF] (c # cs) of
        Some r \<Rightarrow> CHR ''s'' # ascii_fold (drop 1 cs)
      | None \<Rightarrow>
         (case strip_prefix [CHR 0xE2, CHR 0x84, CHR 0xAA] (c # cs) of
            Some r \<Rightarrow> CHR ''k'' # ascii_fold (drop 2 cs)
          | None \<Rightarrow> lower_byte c # ascii_fold cs))"

definition equal_fold :: "string \<Rightarrow> string \<Rightarrow> bool" where
  "equal_fold s word \<longleftrightarrow> ascii_fold s = ascii_fold word"

subsection \<open>Coordinates\<close>

definition MaxPixelCoordinate :: nat where
  "MaxPixelCoordinate = 2 ^ 31 - 1"

fun parse_parts :: "string list \<Rightarrow> err + nat list" where
  "parse_parts [] = Inr []"
| "parse_parts (p # ps) =
     (case parse_uint64 (trim_space p) of
        None \<Rightarrow> Inl (ErrInvalid ''xywh coordinate must be a non-negative integer'')
      | Some v \<Rightarrow> (case parse_parts ps of Inl e \<Rightarrow> Inl e | Inr vs \<Rightarrow> Inr (v # vs)))"

definition parsePixelXYWH :: "string \<Rightarrow> err + nat \<times> nat \<times> nat \<times> nat" where
  "parsePixelXYWH raw0 =
     (let raw1 = trim_space raw0;
          raw = (if has_prefix raw1 ''pixel:'' then trim_space (trim_prefix raw1 ''pixel:'') else raw1) in
      if has_prefix raw ''percent:'' then Inl (ErrInvalid ''percent coordinates are not supported'')
      else let parts = split_on (CHR '','') raw in
        if length parts \<noteq> 4 then Inl (ErrInvalid ''xywh must contain four coordinates'')
        else case parse_parts parts of
          Inl e \<Rightarrow> Inl e
        | Inr values \<Rightarrow>
            (let x = values ! 0; y = values ! 1; w = values ! 2; h = values ! 3 in
             if w = 0 \<or> h = 0 then Inl (ErrInvalid ''xywh width and height must be positive'')
             else if list_ex (\<lambda>v. v > MaxPixelCoordinate) values then Inl (ErrInvalid ''xywh coordinate exceeds the maximum'')
             else if w > MaxPixelCoordinate - x \<or> h > MaxPixelCoordinate - y then Inl (ErrInvalid ''xywh extent exceeds the maximum'')
             else Inr (x, y, w, h)))"

definition validatePixelXYWH :: "string \<Rightarrow> err option" where
  "validatePixelXYWH raw = (case parsePixelXYWH raw of Inl e \<Rightarrow> Some e | Inr _ \<Rightarrow> None)"

subsection \<open>Fragments\<close>

definition fragment_text :: "string \<Rightarrow> string" where
  "fragment_text raw = trim_space (trim_prefix (trim_space raw) ''#'')"

definition mediaFragmentParameters :: "string \<Rightarrow> string list" where
  "mediaFragmentParameters raw0 =
     (let raw = fragment_text raw0 in if raw = [] then [] else split_on (CHR ''&'') raw)"

text \<open>The value of a parameter with the key \<^verbatim>\<open>xywh\<close>.\<close>

definition xywh_value :: "string \<Rightarrow> string option" where
  "xywh_value parameter =
     (case cut_at (CHR ''='') parameter of
        None \<Rightarrow> None
      | Some (k, v) \<Rightarrow> if trim_space k = ''xywh'' then Some v else None)"

definition MediaFragmentPixelXYWH :: "string \<Rightarrow> err + string option" where
  "MediaFragmentPixelXYWH raw =
     (let (n, found) = foldl (\<lambda>(n, found) parameter.
            case xywh_value parameter of None \<Rightarrow> (n, found) | Some v \<Rightarrow> (n + 1, trim_space v))
          (0::nat, []) (mediaFragmentParameters raw) in
      if n > 1 then Inl (ErrInvalid ''media fragment contains multiple xywh parameters'')
      else if n = 0 then Inr None
      else if found = [] then Inl (ErrInvalid ''media fragment xywh parameter is empty'')
      else Inr (Some found))"

definition replacement_value :: "string \<Rightarrow> string \<Rightarrow> string" where
  "replacement_value existing xywh =
     (let replacement = trim_space xywh in
      if has_prefix (trim_space existing) ''pixel:'' \<and> \<not> has_prefix replacement ''pixel:''
      then ''pixel:'' @ replacement else replacement)"

definition replaced_parameter :: "string \<Rightarrow> string \<Rightarrow> string" where
  "replaced_parameter parameter xywh =
     (case cut_at (CHR ''='') parameter of
        None \<Rightarrow> parameter
      | Some (k, existing) \<Rightarrow> k @ CHR ''='' # replacement_value existing xywh)"

fun replace_loop :: "string \<Rightarrow> bool \<Rightarrow> string list \<Rightarrow> err + string list \<times> bool" where
  "replace_loop xywh replaced [] = Inr ([], replaced)"
| "replace_loop xywh replaced (p # ps) =
     (case xywh_value p of
        None \<Rightarrow> (case replace_loop xywh replaced ps of Inl e \<Rightarrow> Inl e | Inr (qs, r) \<Rightarrow> Inr (p # qs, r))
      | Some _ \<Rightarrow>
          if replaced then Inl (ErrInvalid ''media fragment contains multiple xywh parameters'')
          else (case replace_loop xywh True ps of
                  Inl e \<Rightarrow> Inl e | Inr (qs, r) \<Rightarrow> Inr (replaced_parameter p xywh # qs, r)))"

definition ReplaceMediaFragmentPixelXYWH :: "string \<Rightarrow> string \<Rightarrow> err + string" where
  "ReplaceMediaFragmentPixelXYWH raw xywh =
     (case validatePixelXYWH xywh of
        Some e \<Rightarrow> Inl e
      | None \<Rightarrow>
          (case replace_loop xywh False (mediaFragmentParameters raw) of
             Inl e \<Rightarrow> Inl e
           | Inr (parameters, replaced) \<Rightarrow>
               Inr (join_with (CHR ''&'')
                 (if replaced then parameters else parameters @ [''xywh='' @ trim_space xywh]))))"

fun remove_loop :: "bool \<Rightarrow> string list \<Rightarrow> err + string list" where
  "remove_loop removed [] = Inr []"
| "remove_loop removed (p # ps) =
     (case xywh_value p of
        None \<Rightarrow> (case remove_loop removed ps of Inl e \<Rightarrow> Inl e | Inr qs \<Rightarrow> Inr (p # qs))
      | Some _ \<Rightarrow>
          if removed then Inl (ErrInvalid ''media fragment contains multiple xywh parameters'')
          else remove_loop True ps)"

definition RemoveMediaFragmentPixelXYWH :: "string \<Rightarrow> err + string" where
  "RemoveMediaFragmentPixelXYWH raw =
     (case remove_loop False (mediaFragmentParameters raw) of
        Inl e \<Rightarrow> Inl e | Inr result \<Rightarrow> Inr (join_with (CHR ''&'') result))"

subsection \<open>Targets\<close>

definition obj_get :: "(string \<times> json) list \<Rightarrow> string \<Rightarrow> json" where
  "obj_get kvs k = (case map_of (rev kvs) k of None \<Rightarrow> JNull | Some v \<Rightarrow> v)"

definition obj_set :: "string \<Rightarrow> json \<Rightarrow> (string \<times> json) list \<Rightarrow> (string \<times> json) list" where
  "obj_set k v kvs = filter (\<lambda>kv. fst kv \<noteq> k) kvs @ [(k, v)]"

definition stringValue :: "json \<Rightarrow> string" where
  "stringValue v = (case v of JStr s \<Rightarrow> s | _ \<Rightarrow> [])"

definition isCanvasReference :: "(string \<times> json) list \<Rightarrow> bool" where
  "isCanvasReference value \<longleftrightarrow>
     stringValue (obj_get value ''type'') = ''Canvas'' \<and> trim_space (stringValue (obj_get value ''id'')) \<noteq> [] \<and>
     obj_get value ''source'' = JNull"

definition before_hash :: "string \<Rightarrow> string" where
  "before_hash s = (case cut_at (CHR ''#'') s of None \<Rightarrow> s | Some (a, b) \<Rightarrow> a)"

fun TargetCanvas :: "json \<Rightarrow> string" where
  "TargetCanvas (JStr s) = trim_space (before_hash (trim_space s))"
| "TargetCanvas (JObj kvs) =
     (case obj_get kvs ''source'' of
        JStr s \<Rightarrow> trim_space s
      | JObj source \<Rightarrow> trim_space (stringValue (obj_get source ''id''))
      | _ \<Rightarrow> if isCanvasReference kvs then trim_space (stringValue (obj_get kvs ''id'')) else [])"
| "TargetCanvas (JArr [t]) = TargetCanvas t"
| "TargetCanvas _ = []"

definition fragmentSelectorType :: string where
  "fragmentSelectorType = ''FragmentSelector''"

definition is_fragment_selector :: "(string \<times> json) list \<Rightarrow> bool" where
  "is_fragment_selector kvs \<longleftrightarrow> equal_fold (trim_space (stringValue (obj_get kvs ''type''))) fragmentSelectorType"

text \<open>The state of the traversal is the number of spatial selectors seen and the last one.\<close>

fun selector_visit :: "json \<Rightarrow> nat \<times> string \<Rightarrow> err + nat \<times> string"
  and selector_visits :: "json list \<Rightarrow> nat \<times> string \<Rightarrow> err + nat \<times> string" where
  "selector_visit (JObj kvs) acc =
     (if \<not> is_fragment_selector kvs then Inr acc
      else case MediaFragmentPixelXYWH (stringValue (obj_get kvs ''value'')) of
             Inl e \<Rightarrow> Inl e
           | Inr None \<Rightarrow> Inr acc
           | Inr (Some xywh) \<Rightarrow> Inr (fst acc + 1, xywh))"
| "selector_visit (JArr xs) acc = selector_visits xs acc"
| "selector_visit _ acc = Inr acc"
| "selector_visits [] acc = Inr acc"
| "selector_visits (x # xs) acc =
     (case selector_visit x acc of Inl e \<Rightarrow> Inl e | Inr acc' \<Rightarrow> selector_visits xs acc')"

definition selectorPixelXYWH :: "json \<Rightarrow> err + string option" where
  "selectorPixelXYWH raw =
     (case selector_visit raw (0, []) of
        Inl e \<Rightarrow> Inl e
      | Inr (n, found) \<Rightarrow>
          if n > 1 then Inl (ErrInvalid ''target contains multiple xywh FragmentSelectors'')
          else Inr (if n = 1 then Some found else None))"

fun TargetPixelXYWH :: "json \<Rightarrow> err + string option" where
  "TargetPixelXYWH (JStr s) =
     (case cut_at (CHR ''#'') (trim_space s) of
        None \<Rightarrow> Inr None | Some (a, fragment) \<Rightarrow> MediaFragmentPixelXYWH fragment)"
| "TargetPixelXYWH (JObj kvs) = selectorPixelXYWH (obj_get kvs ''selector'')"
| "TargetPixelXYWH (JArr []) = Inr None"
| "TargetPixelXYWH (JArr [t]) = TargetPixelXYWH t"
| "TargetPixelXYWH (JArr (t # u # ts)) = Inl (ErrInvalid ''canonical annotation must have exactly one target'')"
| "TargetPixelXYWH _ = Inr None"

subsection \<open>Geometry of a page\<close>

definition item_geometry :: "nat \<Rightarrow> nat \<Rightarrow> json \<Rightarrow> err option" where
  "item_geometry width height rawItem =
     (case rawItem of
        JObj item \<Rightarrow>
          (case TargetPixelXYWH (obj_get item ''target'') of
             Inl e \<Rightarrow> Some e
           | Inr None \<Rightarrow> None
           | Inr (Some fragment) \<Rightarrow>
               (case parsePixelXYWH fragment of
                  Inl e \<Rightarrow> Some e
                | Inr (x, y, w, h) \<Rightarrow>
                    if width = 0 \<or> height = 0 then Some (ErrInvalid ''geometry requires known image dimensions'')
                    else if x \<ge> width \<or> y \<ge> height \<or> w > width - x \<or> h > height - y
                    then Some (ErrInvalid ''geometry exceeds image dimensions'')
                    else None))
      | _ \<Rightarrow> Some (ErrInvalid ''annotation item must be an object''))"

fun first_error :: "('a \<Rightarrow> err option) \<Rightarrow> 'a list \<Rightarrow> err option" where
  "first_error f [] = None"
| "first_error f (x # xs) = (case f x of None \<Rightarrow> first_error f xs | Some e \<Rightarrow> Some e)"

text \<open>The decoded document; decoding fails unless it is an object.\<close>

definition ValidateAnnotationPageGeometry :: "json \<Rightarrow> nat \<Rightarrow> nat \<Rightarrow> err option" where
  "ValidateAnnotationPageGeometry document width height =
     (case document of
        JObj page \<Rightarrow>
          (case obj_get page ''items'' of
             JArr xs \<Rightarrow> first_error (item_geometry width height) xs
           | _ \<Rightarrow> Some (ErrInvalid ''annotation page items must be an array''))
      | _ \<Rightarrow> Some (ErrInvalid ''decode annotation page geometry''))"

end
