(* ===== verification/Page_Identity.thy ===== *)
theory Page_Identity
  imports Go_URL Media_Fragment
begin

section \<open>Identities of annotation pages\<close>

text \<open>
  The resource identities of \<^verbatim>\<open>internal/iiif/presentation.go\<close>: the IDs of the page and the canvas of an
  image under the public base URL, the IDs of the annotations of a page, and the way back from an ID
  to the image. \<^verbatim>\<open>sha256.Sum256\<close> with the hexadecimal text of its first 16 bytes is the parameter
  \<open>digest\<close>.
\<close>

subsection \<open>Bounds\<close>

definition maxAnnotationIDBytes :: nat where "maxAnnotationIDBytes = 512"
definition maxCanonicalPageIDBytes :: nat where "maxCanonicalPageIDBytes = 512"
definition maxResourceIDBytes :: nat where "maxResourceIDBytes = 2 * 1024"

definition longestChildSuffix :: string where
  "longestChildSuffix =
     ''/item-image-18446744073709551615/canvas/page-1/annotations/items/0123456789abcdef0123456789abcdef''"

subsection \<open>Building identities\<close>

definition trim_right :: "char \<Rightarrow> string \<Rightarrow> string" where
  "trim_right c s = rev (dropWhile (\<lambda>x. x = c) (rev s))"

definition requireResourceURL :: "string \<Rightarrow> string \<Rightarrow> bool \<Rightarrow> err option" where
  "requireResourceURL raw label allowQuery =
     (let bad = Some (ErrInvalid (label @ '' must be an absolute HTTP(S) URL'')) in
      case Parse (trim_space raw) of
        None \<Rightarrow> bad
      | Some parsed \<Rightarrow>
          if (u_Scheme parsed \<noteq> ''http'' \<and> u_Scheme parsed \<noteq> ''https'') \<or> u_Host parsed = [] \<or> u_User parsed \<or>
             u_Fragment parsed \<noteq> [] \<or> (\<not> allowQuery \<and> u_RawQuery parsed \<noteq> [])
          then bad else None)"

definition requireHTTPURL :: "string \<Rightarrow> string \<Rightarrow> err option" where
  "requireHTTPURL raw label = requireResourceURL raw label True"

definition ValidateCanvasURI :: "string \<Rightarrow> err option" where
  "ValidateCanvasURI canvasURI = requireHTTPURL (trim_space canvasURI) ''canvas uri''"

definition validHTTPBase :: "string \<Rightarrow> err + string" where
  "validHTTPBase raw0 =
     (let raw = trim_right (CHR ''/'') (trim_space raw0) in
      case requireResourceURL raw ''public base url'' False of
        Some e \<Rightarrow> Inl e
      | None \<Rightarrow>
          if length raw + length longestChildSuffix > maxAnnotationIDBytes
          then Inl (ErrInvalid ''public base url is too long'') else Inr raw)"

definition ValidatePublicBaseURL :: "string \<Rightarrow> err option" where
  "ValidatePublicBaseURL raw = (case validHTTPBase raw of Inl e \<Rightarrow> Some e | Inr _ \<Rightarrow> None)"

definition item_image_marker :: string where
  "item_image_marker = ''/item-image-''"

definition itemImageResourceBase :: "string \<Rightarrow> nat \<Rightarrow> err + string" where
  "itemImageResourceBase publicBaseURL itemImageID =
     (case validHTTPBase publicBaseURL of
        Inl e \<Rightarrow> Inl e
      | Inr base \<Rightarrow>
          if itemImageID = 0 then Inl (ErrInvalid ''item image id is required'')
          else Inr (base @ item_image_marker @ itoa itemImageID))"

definition AnnotationPageID :: "string \<Rightarrow> nat \<Rightarrow> err + string" where
  "AnnotationPageID publicBaseURL itemImageID =
     (case itemImageResourceBase publicBaseURL itemImageID of
        Inl e \<Rightarrow> Inl e | Inr base \<Rightarrow> Inr (base @ ''/canvas/page-1/annotations''))"

definition ItemImageCanvasID :: "string \<Rightarrow> nat \<Rightarrow> err + string" where
  "ItemImageCanvasID publicBaseURL itemImageID =
     (case itemImageResourceBase publicBaseURL itemImageID of
        Inl e \<Rightarrow> Inl e | Inr base \<Rightarrow> Inr (base @ ''/canvas/page-1''))"

definition AnnotationID :: "(string \<Rightarrow> string) \<Rightarrow> string \<Rightarrow> string \<Rightarrow> err + string" where
  "AnnotationID digest pageID seed0 =
     (case requireResourceURL pageID ''annotation page id'' False of
        Some e \<Rightarrow> Inl e
      | None \<Rightarrow>
          (let seed = trim_space seed0 in
           if seed = [] then Inl (ErrInvalid ''annotation id seed is required'')
           else Inr (trim_right (CHR ''/'') pageID @ ''/items/'' @ digest seed)))"

definition lower_hex :: "string \<Rightarrow> bool" where
  "lower_hex s \<longleftrightarrow>
     length s = 32 \<and> s = to_lower s \<and> \<not> List.member s (CHR ''/'') \<and>
     list_all (\<lambda>c. hex_value c \<noteq> None) s"

definition isCanonicalAnnotationID :: "string \<Rightarrow> string \<Rightarrow> bool" where
  "isCanonicalAnnotationID raw0 pageID =
     (let raw = trim_space raw0 in
      case Parse raw of
        None \<Rightarrow> False
      | Some parsed \<Rightarrow>
          if u_User parsed \<or> u_RawQuery parsed \<noteq> [] \<or> u_Fragment parsed \<noteq> [] then False
          else case strip_prefix (trim_right (CHR ''/'') pageID @ ''/items/'') raw of
                 None \<Rightarrow> False | Some rest \<Rightarrow> lower_hex rest)"

subsection \<open>Reading identities\<close>

text \<open>The split of a string at the last occurrence of a word.\<close>

fun cut_last_str :: "string \<Rightarrow> string \<Rightarrow> (string \<times> string) option" where
  "cut_last_str w [] = (if w = [] then Some ([], []) else None)"
| "cut_last_str w (c # cs) =
     (case cut_last_str w cs of
        Some (a, b) \<Rightarrow> Some (c # a, b)
      | None \<Rightarrow> map_option (Pair []) (strip_prefix w (c # cs)))"

definition not_absolute :: "URL \<Rightarrow> bool" where
  "not_absolute parsed \<longleftrightarrow>
     u_Scheme parsed = [] \<or> u_Host parsed = [] \<or> (u_Scheme parsed \<noteq> ''http'' \<and> u_Scheme parsed \<noteq> ''https'')"

definition base_of :: "URL \<Rightarrow> string \<Rightarrow> string" where
  "base_of parsed path = trim_right (CHR ''/'') (url_String (parsed\<lparr>u_Path := path, u_RawQuery := [], u_Fragment := []\<rparr>))"

definition parseAnnotationPageID :: "string \<Rightarrow> err + string \<times> nat" where
  "parseAnnotationPageID pageID0 =
     (let pageID = trim_space pageID0; bad = Inl (ErrInvalid ''annotation page id must be a canonical Scribe resource'') in
      case Parse pageID of
        None \<Rightarrow> Inl (ErrInvalid ''annotation page id must be an absolute HTTP(S) URL'')
      | Some parsed \<Rightarrow>
          if not_absolute parsed then Inl (ErrInvalid ''annotation page id must be an absolute HTTP(S) URL'')
          else if u_User parsed \<or> u_RawQuery parsed \<noteq> [] \<or> u_Fragment parsed \<noteq> [] then bad
          else (case cut_last_str item_image_marker (u_Path parsed) of
             None \<Rightarrow> bad
           | Some (front, after) \<Rightarrow>
               (let parts = split_on (CHR ''/'') after in
                if length parts \<noteq> 4 \<or> parts ! 0 = [] \<or> parts ! 1 \<noteq> ''canvas'' \<or> parts ! 2 \<noteq> ''page-1'' \<or>
                   parts ! 3 \<noteq> ''annotations'' then bad
                else case parse_uint64 (parts ! 0) of
                  None \<Rightarrow> Inl (ErrInvalid ''annotation page id has an invalid item image id'')
                | Some itemImageID \<Rightarrow>
                    if itemImageID = 0 then Inl (ErrInvalid ''annotation page id has an invalid item image id'')
                    else let publicBaseURL = base_of parsed front in
                      (case AnnotationPageID publicBaseURL itemImageID of
                         Inl e \<Rightarrow> bad
                       | Inr expected \<Rightarrow> if expected \<noteq> pageID then bad else Inr (publicBaseURL, itemImageID)))))"

record PageIdentity =
  pi_PublicBaseURL :: string
  pi_ItemImageID :: nat
  pi_CanvasURI :: string

definition PageIdentityFromPageID :: "string \<Rightarrow> string \<Rightarrow> err + PageIdentity" where
  "PageIdentityFromPageID pageID canvasURI =
     (case parseAnnotationPageID pageID of
        Inl e \<Rightarrow> Inl e
      | Inr (base, itemImageID) \<Rightarrow>
          (case requireHTTPURL (trim_space canvasURI) ''canvas uri'' of
             Some e \<Rightarrow> Inl e
           | None \<Rightarrow> Inr \<lparr>pi_PublicBaseURL = base, pi_ItemImageID = itemImageID, pi_CanvasURI = trim_space canvasURI\<rparr>))"

definition ItemImageIDFromAnnotationPageID :: "string \<Rightarrow> err + nat" where
  "ItemImageIDFromAnnotationPageID pageID =
     (case parseAnnotationPageID pageID of Inl e \<Rightarrow> Inl e | Inr (_, itemImageID) \<Rightarrow> Inr itemImageID)"

definition PageIdentityFromAnnotationID :: "string \<Rightarrow> string \<Rightarrow> err + PageIdentity" where
  "PageIdentityFromAnnotationID annotationID0 canvasURI =
     (let annotationID = trim_space annotationID0;
          bad = Inl (ErrInvalid ''annotation id must be a canonical Scribe child resource'') in
      case Parse annotationID of
        None \<Rightarrow> Inl (ErrInvalid ''annotation id must be an absolute HTTP(S) URL'')
      | Some parsed \<Rightarrow>
          if not_absolute parsed then Inl (ErrInvalid ''annotation id must be an absolute HTTP(S) URL'')
          else if u_User parsed \<or> u_RawQuery parsed \<noteq> [] \<or> u_Fragment parsed \<noteq> [] then bad
          else (case cut_last_str item_image_marker (u_Path parsed) of
             None \<Rightarrow> bad
           | Some (front, after) \<Rightarrow>
               (let parts = split_on (CHR ''/'') after in
                if length parts \<noteq> 6 \<or> parts ! 0 = [] \<or> parts ! 1 \<noteq> ''canvas'' \<or> parts ! 2 \<noteq> ''page-1'' \<or>
                   parts ! 3 \<noteq> ''annotations'' \<or> parts ! 4 \<noteq> ''items'' \<or> parts ! 5 = [] then bad
                else case parse_uint64 (parts ! 0) of
                  None \<Rightarrow> Inl (ErrInvalid ''annotation id has an invalid item image id'')
                | Some itemImageID \<Rightarrow>
                    if itemImageID = 0 then Inl (ErrInvalid ''annotation id has an invalid item image id'')
                    else let base = base_of parsed front; canvas = trim_space canvasURI in
                      (case AnnotationPageID base itemImageID of
                         Inl e \<Rightarrow> Inl e
                       | Inr pageID \<Rightarrow>
                           if \<not> isCanonicalAnnotationID annotationID pageID then bad
                           else case requireHTTPURL canvas ''canvas uri'' of
                             Some e \<Rightarrow> Inl e
                           | None \<Rightarrow> Inr \<lparr>pi_PublicBaseURL = base, pi_ItemImageID = itemImageID, pi_CanvasURI = canvas\<rparr>))))"

end
