(* ===== verification/Fragment_Roundtrip.thy ===== *)
theory Fragment_Roundtrip
  imports Media_Fragment
begin

section \<open>Reading back what was written into a fragment\<close>

text \<open>
  Replacing the region of a fragment and reading it again gives the coordinates that were written,
  and leaves the other parameters as they were; the coordinates that are accepted lie within the
  image.
\<close>

subsection \<open>Splitting and joining are inverse\<close>

lemma split_on_ne: "split_on c s \<noteq> []"
  by (cases s) (auto split: list.split)

lemma join_split [simp]: "join_with c (split_on c s) = s"
proof (induction s)
  case (Cons x xs)
  obtain y ys where y: "split_on c xs = y # ys" using split_on_ne [of c xs] by (cases "split_on c xs") auto
  with Cons show ?case by (cases ys) auto
qed simp

lemma split_parts: "p \<in> set (split_on c s) \<Longrightarrow> c \<notin> set p"
proof (induction s arbitrary: p)
  case (Cons x xs)
  obtain y ys where "split_on c xs = y # ys" using split_on_ne [of c xs] by (cases "split_on c xs") auto
  with Cons show ?case by (auto split: if_splits)
qed simp

lemma split_single: "c \<notin> set p \<Longrightarrow> split_on c p = [p]"
  by (induction p) auto

lemma split_append: "c \<notin> set p \<Longrightarrow> split_on c (p @ c # s) = p # split_on c s"
  by (induction p) auto

lemma split_join: "ps \<noteq> [] \<Longrightarrow> \<forall>p \<in> set ps. c \<notin> set p \<Longrightarrow> split_on c (join_with c ps) = ps"
  by (induction c ps rule: join_with.induct) (auto simp: split_single split_append)

subsection \<open>What trimming leaves\<close>

definition left_stuck :: "string \<Rightarrow> bool" where
  "left_stuck s \<longleftrightarrow> (\<forall>w \<in> set go_spaces. \<forall>t. s \<noteq> w @ t)"

definition right_stuck :: "string \<Rightarrow> bool" where
  "right_stuck s \<longleftrightarrow> (\<forall>w \<in> set go_spaces. \<forall>t. s \<noteq> t @ w)"

lemma go_spaces_words: "list_all (\<lambda>w. w \<noteq> [] \<and> length w \<le> 3 \<and> list_all (\<lambda>c. \<not> is_graph c) w) go_spaces"
  by code_simp

lemma go_spaces_word:
  assumes "w \<in> set go_spaces"
  shows "w \<noteq> []" "length w \<le> 3" "c \<in> set w \<Longrightarrow> \<not> is_graph c"
  using go_spaces_words assms by (auto simp: list_all_iff)

lemma filter_go_spaces [simp]:
  "filter (\<lambda>w. w \<noteq> []) go_spaces = go_spaces" "filter (\<lambda>w. w \<noteq> []) (map rev go_spaces) = map rev go_spaces"
  using go_spaces_word(1) by (auto intro!: filter_True)

lemma stuck_strip:
  "left_stuck s \<longleftrightarrow> strip_any go_spaces s = None" "right_stuck s \<longleftrightarrow> strip_any (map rev go_spaces) (rev s) = None"
proof -
  have "rev s = rev w @ t \<longleftrightarrow> s = rev t @ w" for w t by (metis rev_append rev_rev_ident)
  then show "right_stuck s \<longleftrightarrow> strip_any (map rev go_spaces) (rev s) = None"
    unfolding right_stuck_def strip_any_None_iff by simp (metis rev_rev_ident)
qed (simp add: left_stuck_def strip_any_None_iff)

lemma trimmed_iff: "trim_space s = s \<longleftrightarrow> left_stuck s \<and> right_stuck s"
proof
  assume "trim_space s = s"
  let ?l = "strip_all go_spaces s"
  let ?r = "strip_all (map rev go_spaces) (rev ?l)"
  obtain p q where pq: "s = p @ ?l" "rev ?l = q @ ?r" using strip_all_suffix by metis
  from arg_cong [OF pq(1), of length] arg_cong [OF pq(2), of length] arg_cong [OF \<open>trim_space s = s\<close>, of length]
  have "p = []" "q = []" by (simp_all add: trim_space_def)
  with pq have eq: "?l = s" "?r = rev s" by simp_all
  with strip_all_stuck [of go_spaces s] strip_all_stuck [of "map rev go_spaces" "rev ?l"]
  show "left_stuck s \<and> right_stuck s" by (simp add: stuck_strip)
next
  assume "left_stuck s \<and> right_stuck s"
  then show "trim_space s = s" by (simp add: trim_space_def stuck_strip strip_all_stuckD)
qed

lemma trim_stuck [simp]: "left_stuck (trim_space s)" "right_stuck (trim_space s)"
  using trimmed_iff [of "trim_space s"] by simp_all

text \<open>White space is a word of at most three bytes, none of them printable ASCII.\<close>

lemma append_prefixD: "s @ t = w @ v \<Longrightarrow> length w \<le> length s \<Longrightarrow> \<exists>z. s = w @ z"
  by (auto simp: append_eq_append_conv2)

lemma append_suffixD: "t @ s = v @ w \<Longrightarrow> length w \<le> length s \<Longrightarrow> \<exists>z. s = z @ w"
  by (auto simp: append_eq_append_conv2)

lemma left_stuck_append: "left_stuck s \<Longrightarrow> 3 \<le> length s \<Longrightarrow> left_stuck (s @ t)"
  unfolding left_stuck_def by (meson append_prefixD go_spaces_word(2) le_trans)

lemma right_stuck_append: "right_stuck s \<Longrightarrow> 3 \<le> length s \<Longrightarrow> right_stuck (t @ s)"
  unfolding right_stuck_def by (meson append_suffixD go_spaces_word(2) le_trans)

lemma left_stuck_sep:
  assumes "left_stuck (p @ t)" and "is_graph c"
  shows "left_stuck (p @ c # u)"
  unfolding left_stuck_def
proof (intro ballI allI notI)
  fix w v assume w: "w \<in> set go_spaces" and eq: "p @ c # u = w @ v"
  show False
  proof (cases "length w \<le> length p")
    case True
    with eq have "\<exists>z. p = w @ z" by (rule append_prefixD)
    with assms(1) w show False by (auto simp: left_stuck_def)
  next
    case False
    with eq have "c \<in> set w" by (auto simp: append_eq_append_conv2 Cons_eq_append_conv)
    with go_spaces_word(3) [OF w] assms(2) show False by blast
  qed
qed

lemma right_stuck_sep:
  assumes "right_stuck (t @ p)" and "is_graph c"
  shows "right_stuck (u @ c # p)"
  unfolding right_stuck_def
proof (intro ballI allI notI)
  fix w v assume w: "w \<in> set go_spaces" and eq: "u @ c # p = v @ w"
  show False
  proof (cases "length w \<le> length p")
    case True
    with append_suffixD [of "u @ [c]" p v w] eq have "\<exists>z. p = z @ w" by simp
    with assms(1) w show False by (auto simp: right_stuck_def)
  next
    case False
    with eq have "c \<in> set w" by (auto simp: append_eq_append_conv2 append_eq_Cons_conv Cons_eq_append_conv)
    with go_spaces_word(3) [OF w] assms(2) show False by blast
  qed
qed

lemma strip_all_graph:
  "\<forall>w \<in> set ws. \<forall>b \<in> set w. \<not> is_graph b \<Longrightarrow> c \<in> set s \<Longrightarrow> is_graph c \<Longrightarrow> c \<in> set (strip_all ws s)"
proof (induction ws s rule: strip_all.induct)
  case (1 ws s)
  show ?case
  proof (cases "strip_any (filter (\<lambda>w. w \<noteq> []) ws) s")
    case None
    with "1.prems" show ?thesis by (simp add: strip_all_stuckD)
  next
    case (Some t)
    then obtain w where "w \<in> set ws" "s = w @ t" by (auto dest!: strip_any_SomeD)
    with "1.prems" have "c \<in> set t" by auto
    with "1.IH" [OF Some] "1.prems" Some show ?thesis by (subst strip_all.simps) simp
  qed
qed

lemma trim_keeps_graph:
  assumes "c \<in> set s" and "is_graph c"
  shows "c \<in> set (trim_space s)"
proof -
  have "c \<in> set (strip_all go_spaces s)" by (rule strip_all_graph) (use assms go_spaces_word(3) in auto)
  then have "c \<in> set (strip_all (map rev go_spaces) (rev (strip_all go_spaces s)))"
    by (intro strip_all_graph) (use assms(2) go_spaces_word(3) in auto)
  then show ?thesis by (simp add: trim_space_def)
qed

lemma length_trim: "length (trim_space s) \<le> length s"
proof -
  have "length (strip_all ws t) \<le> length t" for ws t
    using strip_all_suffix [of t ws] by (metis le_add2 length_append)
  from this [of go_spaces s] this [of "map rev go_spaces" "rev (strip_all go_spaces s)"] show ?thesis by (simp add: trim_space_def)
qed

subsection \<open>Accepted coordinates\<close>

lemma length_split: "length (split_on c s) \<le> length s + 1"
  by (induction s) (auto split: list.split)

lemma set_join: "set (join_with c ps) \<subseteq> (\<Union>p \<in> set ps. set p) \<union> {c}"
  by (induction c ps rule: join_with.induct) auto

lemma parse_parts_graph:
  assumes "parse_parts ps = Inr vs" and "p \<in> set ps" and "c \<in> set p" and "is_graph c"
  shows "is_digit c"
  using assms
proof (induction ps arbitrary: vs)
  case (Cons q qs)
  have "is_digit b" if "b \<in> set t" "parse_uint64 t = Some v" for b t v
    using that by (auto simp: parse_uint64_def list_all_iff split: if_splits)
  with Cons trim_keeps_graph [of c p] show ?case by (fastforce split: option.splits sum.splits)
qed simp

definition pixel_text :: "string \<Rightarrow> string" where
  "pixel_text x = (if has_prefix x ''pixel:'' then trim_space (trim_prefix x ''pixel:'') else x)"

lemma parse_pixel_text: "pixel_text (trim_space a) = pixel_text (trim_space b) \<Longrightarrow> parsePixelXYWH a = parsePixelXYWH b"
  unfolding parsePixelXYWH_def Let_def pixel_text_def by simp

lemma valid_text:
  assumes "parsePixelXYWH xywh = Inr r"
  shows "3 \<le> length (trim_space xywh)" and "CHR ''&'' \<notin> set (trim_space xywh)"
proof -
  let ?x = "trim_space xywh"
  let ?t = "pixel_text ?x"
  from assms obtain vs where parts: "length (split_on (CHR '','') ?t) = 4" "parse_parts (split_on (CHR '','') ?t) = Inr vs"
    by (auto simp: parsePixelXYWH_def pixel_text_def Let_def split: if_splits sum.splits)
  have "length ?t \<le> length ?x"
    using length_trim [of "trim_prefix ?x ''pixel:''"]
    by (auto simp: pixel_text_def trim_prefix_def strip_prefix_eq split: option.splits)
  with parts(1) length_split [of "CHR '',''" ?t] show "3 \<le> length ?x" by simp
  have amp: "is_graph (CHR ''&'')" "\<not> is_digit (CHR ''&'')" by (simp_all add: is_graph_def is_digit_def)
  have no: "CHR ''&'' \<notin> set ?t"
  proof
    assume "CHR ''&'' \<in> set ?t"
    then have "CHR ''&'' \<in> set (join_with (CHR '','') (split_on (CHR '','') ?t))" by simp
    then obtain p where "p \<in> set (split_on (CHR '','') ?t)" "CHR ''&'' \<in> set p" using set_join by fastforce
    with parse_parts_graph [OF parts(2)] amp show False by blast
  qed
  show "CHR ''&'' \<notin> set ?x"
  proof
    assume a: "CHR ''&'' \<in> set ?x"
    show False
    proof (cases "has_prefix ?x ''pixel:''")
      case True
      then obtain t where t: "?x = ''pixel:'' @ t" by (auto simp: has_prefix_iff)
      with a have "CHR ''&'' \<in> set t" by auto
      then have "CHR ''&'' \<in> set (trim_space t)" using amp(1) by (rule trim_keeps_graph)
      moreover have "?t = trim_space t" using True t by (simp add: pixel_text_def trim_prefix_def)
      ultimately show False using no by simp
    qed (use a no in \<open>simp add: pixel_text_def\<close>)
  qed
qed

lemma replacement_text:
  assumes "parsePixelXYWH xywh = Inr r"
  shows "\<exists>u. replacement_value v xywh = u @ trim_space xywh" and "CHR ''&'' \<notin> set (replacement_value v xywh)"
    and "trim_space (replacement_value v xywh) = replacement_value v xywh"
    and "parsePixelXYWH (replacement_value v xywh) = parsePixelXYWH xywh"
proof -
  let ?x = "trim_space xywh"
  note len = valid_text(1) [OF assms] and amp = valid_text(2) [OF assms]
  have "replacement_value v xywh = ?x \<or> replacement_value v xywh = ''pixel:'' @ ?x \<and> \<not> has_prefix ?x ''pixel:''"
    by (simp add: replacement_value_def Let_def)
  then consider "replacement_value v xywh = ?x" | "replacement_value v xywh = ''pixel:'' @ ?x" "\<not> has_prefix ?x ''pixel:''"
    by blast
  note cases = this
  show "\<exists>u. replacement_value v xywh = u @ ?x" using cases by (metis append_Nil)
  show "CHR ''&'' \<notin> set (replacement_value v xywh)" using cases amp by cases auto
  have "left_stuck ''pixel:''" using trimmed_iff [of "''pixel:''"] trim_space_graph [of "''pixel:''"] by (simp add: is_graph_def)
  then have pix: "trim_space (''pixel:'' @ ?x) = ''pixel:'' @ ?x"
    unfolding trimmed_iff using len by (intro conjI left_stuck_append right_stuck_append) simp_all
  show "trim_space (replacement_value v xywh) = replacement_value v xywh"
    by (rule cases) (simp_all only: pix trim_space_idem)
  have "pixel_text (''pixel:'' @ ?x) = ?x" by (simp add: pixel_text_def has_prefix_def trim_prefix_def)
  then have "pixel_text (trim_space (replacement_value v xywh)) = pixel_text ?x"
    by - (rule cases, simp_all only: pix trim_space_idem pixel_text_def [of ?x] if_False)
  then show "parsePixelXYWH (replacement_value v xywh) = parsePixelXYWH xywh" by (rule parse_pixel_text)
qed

subsection \<open>The parameters of a fragment\<close>

abbreviation xywh_values :: "string list \<Rightarrow> string list" where
  "xywh_values ps \<equiv> List.map_filter xywh_value ps"

lemma read_fold:
  "foldl (\<lambda>(n, found) parameter. case xywh_value parameter of None \<Rightarrow> (n, found) | Some v \<Rightarrow> (n + 1, trim_space v)) (n, f) ps =
     (n + length (xywh_values ps), if xywh_values ps = [] then f else trim_space (last (xywh_values ps)))"
  by (induction ps arbitrary: n f) (auto simp: map_filter_simps split: option.splits)

lemma read_one:
  assumes "xywh_values (mediaFragmentParameters s) = [v]" and "trim_space v \<noteq> []"
  shows "MediaFragmentPixelXYWH s = Inr (Some (trim_space v))"
  using assms by (simp add: MediaFragmentPixelXYWH_def read_fold)

definition replace_in :: "string \<Rightarrow> string \<Rightarrow> string" where
  "replace_in xywh p = (if xywh_value p = None then p else replaced_parameter p xywh)"

lemma replace_loop_run:
  "replace_loop xywh b ps = Inr (qs, r) \<Longrightarrow>
     qs = map (replace_in xywh) ps \<and> (r \<longleftrightarrow> b \<or> xywh_values ps \<noteq> []) \<and> length (xywh_values ps) + of_bool b \<le> 1"
proof (induction ps arbitrary: b qs r)
  case (Cons p ps)
  show ?case
  proof (cases "xywh_value p")
    case None
    with Cons.prems obtain qs' where "replace_loop xywh b ps = Inr (qs', r)" "qs = p # qs'"
      by (auto split: sum.splits prod.splits)
    with Cons.IH [of b qs' r] None show ?thesis by (simp add: replace_in_def map_filter_simps)
  next
    case (Some v)
    with Cons.prems obtain qs' where "\<not> b" "replace_loop xywh True ps = Inr (qs', r)" "qs = replaced_parameter p xywh # qs'"
      by (auto split: sum.splits prod.splits if_splits)
    with Cons.IH [of True qs' r] Some show ?thesis by (simp add: replace_in_def map_filter_simps)
  qed
qed (simp add: map_filter_simps)

lemma xywh_valueD:
  assumes "xywh_value p = Some v"
  obtains k where "p = k @ CHR ''='' # v" and "CHR ''='' \<notin> set k" and "trim_space k = ''xywh''"
  using assms by (auto simp: xywh_value_def cut_at_Some split: option.splits if_splits)

lemma replaced_parameter_run:
  assumes "p = k @ CHR ''='' # v" and "CHR ''='' \<notin> set k"
  shows "replaced_parameter p xywh = k @ CHR ''='' # replacement_value v xywh"
proof -
  from assms have "cut_at (CHR ''='') p = Some (k, v)" by (simp only: cut_at_Some) simp
  then show ?thesis by (simp add: replaced_parameter_def)
qed

lemma replaced_value:
  assumes "xywh_value p = Some v"
  shows "xywh_value (replaced_parameter p xywh) = Some (replacement_value v xywh)"
proof (rule xywh_valueD [OF assms])
  fix k assume k: "p = k @ CHR ''='' # v" "CHR ''='' \<notin> set k" "trim_space k = ''xywh''"
  from k(2) have "cut_at (CHR ''='') (replaced_parameter p xywh) = Some (k, replacement_value v xywh)"
    unfolding replaced_parameter_run [OF k(1,2)] by (simp only: cut_at_Some) simp
  with k(3) show ?thesis by (simp add: xywh_value_def)
qed

lemma map_filter_snoc: "List.map_filter f (xs @ ys) = List.map_filter f xs @ List.map_filter f ys"
  by (induction xs) (auto simp: map_filter_simps split: option.splits)

lemma replaced_values: "xywh_values (map (replace_in xywh) ps) = map (\<lambda>v. replacement_value v xywh) (xywh_values ps)"
  by (induction ps) (auto simp: map_filter_simps replace_in_def replaced_value split: option.splits)

lemma remove_loop_run:
  "length (xywh_values ps) + of_bool b \<le> 1 \<Longrightarrow> remove_loop b ps = Inr (filter (\<lambda>p. xywh_value p = None) ps)"
  by (induction ps arbitrary: b) (auto simp: map_filter_simps split: option.splits if_splits)

lemma filter_replaced:
  "filter (\<lambda>p. xywh_value p = None) (map (replace_in xywh) ps) = filter (\<lambda>p. xywh_value p = None) ps"
  by (induction ps) (auto simp: replace_in_def replaced_value)

lemma join_Cons: "join_with c (p # ps) = (if ps = [] then p else p @ c # join_with c ps)"
  by (cases ps) simp_all

lemma join_snoc: "join_with c (ps @ [p]) = (if ps = [] then p else join_with c ps @ c # p)"
  by (induction ps) (auto simp: join_Cons)

text \<open>The fragment after a replacement begins like the one before, up to a separator.\<close>

lemma replaced_head:
  assumes "split_on (CHR ''&'') text = ps" and "xs \<noteq> [] \<or> xywh_values ps \<noteq> []"
  shows "\<exists>h c t u. text = h @ t \<and> join_with (CHR ''&'') (map (replace_in xywh) ps @ xs) = h @ c # u \<and> c \<in> {CHR ''&'', CHR ''=''}"
proof -
  obtain p ps' where ps: "ps = p # ps'" using assms(1) split_on_ne by (cases ps) auto
  have "text = join_with (CHR ''&'') ps" using assms(1) join_split by metis
  then obtain t where t: "text = p @ t" by (auto simp: ps join_Cons split: if_splits)
  show ?thesis
  proof (cases "xywh_value p")
    case None
    with assms(2) have "map (replace_in xywh) ps' @ xs \<noteq> []" by (auto simp: ps map_filter_simps)
    with None t show ?thesis by (auto simp: ps join_Cons replace_in_def)
  next
    case (Some v)
    then obtain k where k: "p = k @ CHR ''='' # v" "CHR ''='' \<notin> set k" by (rule xywh_valueD)
    then have "replace_in xywh p = k @ CHR ''='' # replacement_value v xywh"
      using Some replaced_parameter_run [OF k] by (simp add: replace_in_def)
    with k(1) t show ?thesis by (auto simp: ps join_Cons)
  qed
qed

text \<open>It ends with the new coordinates, or like the one before, from a separator on.\<close>

lemma replaced_tail:
  assumes "split_on (CHR ''&'') text = ps" and "xywh_values ps \<noteq> []" and "parsePixelXYWH xywh = Inr r"
  shows "(\<exists>u. join_with (CHR ''&'') (map (replace_in xywh) ps) = u @ trim_space xywh) \<or>
     (\<exists>h t u. text = t @ h \<and> join_with (CHR ''&'') (map (replace_in xywh) ps) = u @ CHR ''&'' # h)"
proof -
  obtain p ps' where ps: "ps = ps' @ [p]" using assms(1) split_on_ne by (cases ps rule: rev_cases) auto
  have "text = join_with (CHR ''&'') ps" using assms(1) join_split by metis
  then obtain t where t: "text = t @ p" by (auto simp: ps join_snoc split: if_splits)
  show ?thesis
  proof (cases "xywh_value p")
    case None
    with assms(2) have "ps' \<noteq> []" by (auto simp: ps map_filter_simps)
    with None t show ?thesis by (auto simp: ps join_snoc replace_in_def)
  next
    case (Some v)
    then obtain k where k: "p = k @ CHR ''='' # v" "CHR ''='' \<notin> set k" by (rule xywh_valueD)
    then have "replace_in xywh p = k @ CHR ''='' # replacement_value v xywh"
      using Some replaced_parameter_run [OF k] by (simp add: replace_in_def)
    moreover obtain u where "replacement_value v xywh = u @ trim_space xywh" using replacement_text(1) [OF assms(3)] by blast
    ultimately have "\<exists>z. replace_in xywh p = z @ trim_space xywh" by (metis append.assoc append_Cons)
    then show ?thesis by (auto simp: ps join_snoc)
  qed
qed

subsection \<open>The round trip\<close>

lemma separators_graph: "c \<in> {CHR ''&'', CHR ''=''} \<Longrightarrow> is_graph c"
  by (auto simp: is_graph_def)

lemma replaced_trimmed:
  assumes trm: "trim_space text = text" and ps: "ps = (if text = [] then [] else split_on (CHR ''&'') text)"
    and ok: "parsePixelXYWH xywh = Inr r"
    and s: "s = join_with (CHR ''&'') (map (replace_in xywh) ps @ (if xywh_values ps = [] then [''xywh='' @ trim_space xywh] else []))"
  shows "trim_space s = s" and "\<not> has_prefix text ''#'' \<Longrightarrow> \<not> has_prefix s ''#''"
proof -
  let ?x = "trim_space xywh"
  let ?xs = "if xywh_values ps = [] then [''xywh='' @ ?x] else []"
  note len = valid_text(1) [OF ok]
  have "left_stuck s \<and> (has_prefix s ''#'' \<longrightarrow> has_prefix text ''#'')"
  proof (cases "text = []")
    case True
    have "left_stuck ''xywh=''" using trimmed_iff [of "''xywh=''"] trim_space_graph [of "''xywh=''"] by (simp add: is_graph_def)
    from left_stuck_append [OF this] True show ?thesis by (simp add: s ps map_filter_simps has_prefix_def)
  next
    case False
    then have "split_on (CHR ''&'') text = ps" by (simp add: ps)
    then have "\<exists>h c t u. text = h @ t \<and> s = h @ c # u \<and> c \<in> {CHR ''&'', CHR ''=''}"
      unfolding s by (rule replaced_head) simp
    then obtain h c t u where h: "text = h @ t" "s = h @ c # u" "c \<in> {CHR ''&'', CHR ''=''}" by blast
    have "left_stuck s" unfolding h(2) by (rule left_stuck_sep [where t = t]) (use trm h(1) trimmed_iff separators_graph [OF h(3)] in auto)
    moreover have "has_prefix text ''#''" if "has_prefix s ''#''" using that h by (cases h) (auto simp: has_prefix_iff)
    ultimately show ?thesis by blast
  qed
  moreover have "right_stuck s"
  proof (cases "xywh_values ps = []")
    case True
    have "\<exists>u. s = u @ ?x" by (simp add: s True join_snoc)
    with right_stuck_append len show ?thesis by auto
  next
    case False
    then have "text \<noteq> []" by (auto simp: ps map_filter_simps)
    then have "split_on (CHR ''&'') text = ps" by (simp add: ps)
    from replaced_tail [OF this False ok] False consider u where "s = u @ ?x" | h t u where "text = t @ h" "s = u @ CHR ''&'' # h"
      by (auto simp: s)
    then show ?thesis
    proof cases
      case 1
      with right_stuck_append len show ?thesis by auto
    next
      case 2
      with trm trimmed_iff right_stuck_sep separators_graph [of "CHR ''&''"] show ?thesis by auto
    qed
  qed
  ultimately show "trim_space s = s" and "\<not> has_prefix text ''#'' \<Longrightarrow> \<not> has_prefix s ''#''" by (auto simp: trimmed_iff)
qed

lemma replaced_parameters:
  assumes rep: "ReplaceMediaFragmentPixelXYWH raw xywh = Inr s" and hash: "\<not> has_prefix (fragment_text raw) ''#''"
  defines "ps \<equiv> mediaFragmentParameters raw"
  shows "mediaFragmentParameters s = map (replace_in xywh) ps @ (if xywh_values ps = [] then [''xywh='' @ trim_space xywh] else [])"
    and "length (xywh_values ps) \<le> 1" and "\<exists>r. parsePixelXYWH xywh = Inr r"
proof -
  let ?P = "map (replace_in xywh) ps @ (if xywh_values ps = [] then [''xywh='' @ trim_space xywh] else [])"
  from rep obtain r qs b where ok: "parsePixelXYWH xywh = Inr r" and loop: "replace_loop xywh False ps = Inr (qs, b)"
    and s: "s = join_with (CHR ''&'') (if b then qs else qs @ [''xywh='' @ trim_space xywh])"
    by (auto simp: ReplaceMediaFragmentPixelXYWH_def validatePixelXYWH_def ps_def split: option.splits sum.splits)
  then show "\<exists>r. parsePixelXYWH xywh = Inr r" by blast
  from replace_loop_run [OF loop] have run: "qs = map (replace_in xywh) ps" "b \<longleftrightarrow> xywh_values ps \<noteq> []" "length (xywh_values ps) \<le> 1" by auto
  then show "length (xywh_values ps) \<le> 1" by simp
  have s': "s = join_with (CHR ''&'') ?P" unfolding s run(1,2) by simp
  have psd: "ps = (if fragment_text raw = [] then [] else split_on (CHR ''&'') (fragment_text raw))"
    by (simp add: ps_def mediaFragmentParameters_def Let_def)
  have "trim_space (fragment_text raw) = fragment_text raw" by (simp add: fragment_text_def)
  note tr = replaced_trimmed [OF this psd ok s']
  have "?P \<noteq> []" by (auto simp: map_filter_simps)
  moreover have "CHR ''&'' \<notin> set p" if "p \<in> set ?P" for p
  proof -
    have "CHR ''&'' \<notin> set (replace_in xywh q)" if "q \<in> set ps" for q
    proof -
      from that have q: "CHR ''&'' \<notin> set q" by (auto simp: psd split: if_splits dest: split_parts)
      show ?thesis
      proof (cases "xywh_value q")
        case (Some v)
        then obtain k where k: "q = k @ CHR ''='' # v" "CHR ''='' \<notin> set k" by (rule xywh_valueD)
        have "replace_in xywh q = k @ CHR ''='' # replacement_value v xywh"
          using Some replaced_parameter_run [OF k] by (simp add: replace_in_def)
        with q k(1) replacement_text(2) [OF ok] show ?thesis by simp
      qed (simp add: replace_in_def q)
    qed
    with that valid_text(2) [OF ok] show ?thesis by (auto split: if_splits)
  qed
  ultimately have split: "split_on (CHR ''&'') s = ?P" unfolding s' by (intro split_join) auto
  have "fragment_text s = s"
    using tr(2) [OF hash] by (simp add: fragment_text_def tr(1) trim_prefix_def has_prefix_def)
  moreover have "s \<noteq> []"
  proof
    assume "s = []"
    with split have "?P = [[]]" by simp
    moreover have "replaced_parameter p xywh \<noteq> []" if "xywh_value p = Some v" for p v
      using replaced_value [OF that, of xywh] by (auto simp: xywh_value_def)
    ultimately show False by (cases ps) (auto simp: map_filter_simps replace_in_def split: if_splits option.splits)
  qed
  ultimately show "mediaFragmentParameters s = ?P" by (simp add: mediaFragmentParameters_def Let_def split)
qed


subsection \<open>Pages inside their image\<close>

lemma parsePixelXYWH_bounds:
  assumes "parsePixelXYWH raw = Inr (x, y, w, h)"
  shows "0 < w" "0 < h" "x + w \<le> MaxPixelCoordinate" "y + h \<le> MaxPixelCoordinate"
proof -
  from assms obtain vs where vs: "(x, y, w, h) = (vs ! 0, vs ! 1, vs ! 2, vs ! 3)" "vs ! 2 \<noteq> 0" "vs ! 3 \<noteq> 0"
      "\<not> list_ex (\<lambda>v. v > MaxPixelCoordinate) vs"
      "vs ! 2 \<le> MaxPixelCoordinate - vs ! 0" "vs ! 3 \<le> MaxPixelCoordinate - vs ! 1"
    by (auto simp: parsePixelXYWH_def Let_def split: if_splits sum.splits)
  then show "0 < w" "0 < h" by simp_all
  from vs show "x + w \<le> MaxPixelCoordinate" "y + h \<le> MaxPixelCoordinate" by auto
qed

lemma first_error_None: "first_error f xs = None \<longleftrightarrow> (\<forall>x \<in> set xs. f x = None)"
  by (induction xs) (auto split: option.splits)

lemma item_geometry_None:
  "item_geometry width height v = None \<longleftrightarrow>
     (\<exists>item. v = JObj item \<and> (TargetPixelXYWH (obj_get item ''target'') = Inr None \<or>
        (\<exists>fragment x y w h. TargetPixelXYWH (obj_get item ''target'') = Inr (Some fragment) \<and>
           parsePixelXYWH fragment = Inr (x, y, w, h) \<and> x < width \<and> y < height \<and> w \<le> width - x \<and> h \<le> height - y)))"
  by (auto simp: item_geometry_def not_le split: json.splits sum.splits option.splits if_splits)


end
