(* ===== verification/Identity_Roundtrip.thy ===== *)
theory Identity_Roundtrip
  imports Page_Identity Fragment_Roundtrip
begin

section \<open>Reading back a page identity\<close>

text \<open>
  An annotation page ID built from a public base URL is read back as that base and that image, when
  the base is in the form in which \<^verbatim>\<open>net/url\<close> prints it. The last lemma shows bases that
  \<^verbatim>\<open>ValidatePublicBaseURL\<close> accepts although no page ID built from them is read back.
\<close>

subsection \<open>Extending a path\<close>

lemma path_unescape_append:
  assumes "path_unescape p = Some q" and "CHR ''%'' \<notin> set s"
  shows "path_unescape (p @ s) = Some (q @ s)"
  using assms(1)
proof (induction p arbitrary: q rule: path_unescape.induct)
  case 1
  have "path_unescape s = Some s" using assms(2) by (induction s) auto
  with 1 show ?case by simp
next
  case (2 c cs)
  show ?case
  proof (cases "c = CHR ''%''")
    case False
    with 2 show ?thesis by auto
  next
    case True
    with "2.prems" obtain a b r x y where cs: "cs = a # b # r" and "hex_value a = Some x" "hex_value b = Some y"
      by (auto split: list.splits option.splits)
    with True "2.prems" "2.IH"(2) [OF _ cs _ _ refl] show ?thesis by auto
  qed
qed

lemma cut_at_append: "c \<notin> set a \<Longrightarrow> cut_at c (a @ s) = map_option (\<lambda>(x, y). (a @ x, y)) (cut_at c s)"
  by (induction a) (auto simp: option.map_comp comp_def split_def option.map_ident)

lemma cut_authority_append:
  assumes "s = CHR ''/'' # t"
  shows "cut_authority (a @ s) = (fst (cut_authority a), snd (cut_authority a) @ s)"
proof (cases "cut_at (CHR ''/'') a")
  case None
  then have "CHR ''/'' \<notin> set a" by simp
  then show ?thesis using assms by (simp add: cut_authority_def cut_at_append cut_at_None [THEN iffD2])
next
  case (Some xy)
  then obtain x y where xy: "a = x @ CHR ''/'' # y" "CHR ''/'' \<notin> set x" by (metis cut_at_Some old.prod.exhaust)
  then have "cut_at (CHR ''/'') (a @ s) = Some (x, y @ s)" by (simp add: cut_at_Some)
  moreover have "cut_at (CHR ''/'') a = Some (x, y)" using xy by (simp add: cut_at_Some)
  ultimately show ?thesis by (simp add: cut_authority_def)
qed

lemma not_scheme_colon: "\<not> scheme_char (CHR '':'')"
  by code_simp

lemma getScheme_found:
  assumes "sc \<noteq> []" and "is_alpha (hd sc)" and "\<forall>x \<in> set sc. scheme_char x"
  shows "getScheme (sc @ CHR '':'' # rest) = Some (sc, rest)"
proof -
  obtain c cs where sc: "sc = c # cs" using assms(1) by (cases sc) auto
  then have "c \<noteq> CHR '':''" using assms(3) not_scheme_colon by auto
  moreover have "dropWhile scheme_char (sc @ CHR '':'' # rest) = CHR '':'' # rest"
    "takeWhile scheme_char (sc @ CHR '':'' # rest) = sc"
    using assms(3) by (simp_all add: takeWhile_append2 dropWhile_append2 not_scheme_colon)
  ultimately show ?thesis using assms(2) sc by (simp add: getScheme_def)
qed

lemma getScheme_SomeD:
  assumes "getScheme b = Some (sc, rest)" and "sc \<noteq> []"
  shows "b = sc @ CHR '':'' # rest \<and> is_alpha (hd sc) \<and> (\<forall>x \<in> set sc. scheme_char x)"
proof -
  from assms obtain c b' where bc: "b = c # b'" "is_alpha c" and dw: "dropWhile scheme_char b = CHR '':'' # rest" "takeWhile scheme_char b = sc"
    by (auto simp: getScheme_def split: list.splits if_splits)
  have "b = sc @ CHR '':'' # rest" using dw takeWhile_dropWhile_id [of scheme_char b] by simp
  moreover have "\<forall>x \<in> set sc. scheme_char x" using dw(2) by (metis set_takeWhileD)
  ultimately show ?thesis using bc assms(2) by (cases sc) auto
qed

definition path_tail :: "string \<Rightarrow> bool" where
  "path_tail s \<longleftrightarrow> (\<exists>t. s = CHR ''/'' # t) \<and> list_all (\<lambda>c. is_graph c \<and> \<not> is_ctl c \<and> \<not> List.member ''%#?'' c) s"

text \<open>A path added to an absolute URL without query and fragment is added to its path.\<close>

lemma parse_append:
  assumes "Parse b = Some u" and "CHR ''#'' \<notin> set b" and "CHR ''?'' \<notin> set b" and "u_Scheme u \<noteq> []" and "u_Host u \<noteq> []"
    and s: "path_tail s"
  shows "Parse (b @ s) = Some (u\<lparr>u_Path := u_Path u @ s\<rparr>)"
proof -
  from s obtain t where t: "s = CHR ''/'' # t" by (auto simp: path_tail_def)
  from s have no: "CHR ''#'' \<notin> set s" "CHR ''?'' \<notin> set s" "CHR ''%'' \<notin> set s" "\<not> list_ex is_ctl s"
    by (auto simp: path_tail_def list_all_iff list_ex_iff)
  from assms(1,2) have b: "parse_url b = Some u" by (simp add: Parse_def cut_at_None [THEN iffD2])
  then have ctl: "\<not> list_ex is_ctl b" "b \<noteq> ''*''" using assms(4) by (auto simp: parse_url_def no_url_def split: if_splits)
  from b ctl obtain sc rest where g: "getScheme b = Some (sc, rest)" by (auto simp: parse_url_def split: option.splits)
  from b ctl g assms(4,5) have sc: "sc \<noteq> []"
    by (auto simp: parse_url_def Let_def no_url_def parse_hierarchy_def split: if_splits option.splits prod.splits)
  note gs = getScheme_SomeD [OF g sc]
  then have bsplit: "b = sc @ CHR '':'' # rest" by simp
  have g': "getScheme (b @ s) = Some (sc, rest @ s)" using getScheme_found [of sc "rest @ s"] sc gs by simp
  have q: "cut_query rest = (rest, False, [])" "cut_query (rest @ s) = (rest @ s, False, [])"
    using assms(3) no(2) unfolding bsplit by (simp_all add: cut_query_def cut_at_None [THEN iffD2])
  have rest: "has_prefix rest ''//''" "parse_hierarchy (map lower_byte sc) False [] rest = Some u"
    using b ctl g q sc assms(5) by (auto simp: parse_url_def no_url_def parse_hierarchy_def Let_def split: if_splits)
  then obtain r where r: "rest = ''//'' @ r" by (auto simp: has_prefix_iff)
  obtain au p where cut: "cut_authority r = (au, p)" by fastforce
  from rest(2) sc r cut obtain user host q' where pa: "parseAuthority au = Some (user, host)" "path_unescape p = Some q'"
    and u: "u = no_url\<lparr>u_Scheme := map lower_byte sc, u_User := user, u_Host := host, u_Path := q'\<rparr>"
    by (auto simp: parse_hierarchy_def has_prefix_def no_url_def split: option.splits)
  have cut': "cut_authority (r @ s) = (au, p @ s)" using cut_authority_append [OF t, of r] cut by simp
  have pu: "path_unescape (p @ s) = Some (q' @ s)" by (rule path_unescape_append [OF pa(2) no(3)])
  have h: "parse_hierarchy (map lower_byte sc) False [] (rest @ s) = Some (u\<lparr>u_Path := u_Path u @ s\<rparr>)"
    using sc by (simp add: r parse_hierarchy_def has_prefix_def cut' pa pu u no_url_def)
  have "b @ s \<noteq> ''*''" using t by (cases b) auto
  moreover have "has_prefix (rest @ s) ''/''" by (simp add: r has_prefix_def)
  ultimately have "parse_url (b @ s) = Some (u\<lparr>u_Path := u_Path u @ s\<rparr>)"
    using ctl(1) no(4) by (simp add: parse_url_def g' q(2) h)
  then show ?thesis using assms(2) no(1) by (simp add: Parse_def cut_at_None [THEN iffD2])
qed

text \<open>The last occurrence of the marker is the one in the suffix that the page ID adds.\<close>

lemma cut_last_str_append:
  assumes "cut_last_str w s = Some (a, b)"
  shows "cut_last_str w (p @ s) = Some (p @ a, b)"
  using assms by (induction p) auto

lemma cut_last_str_digits:
  assumes "list_all is_digit n" 
  shows "cut_last_str item_image_marker (item_image_marker @ n @ ''/canvas/page-1/annotations'') = Some ([], n @ ''/canvas/page-1/annotations'')"
proof -
  have tail: "cut_last_str item_image_marker ''/canvas/page-1/annotations'' = None" by code_simp
  have n: "cut_last_str item_image_marker (n @ ''/canvas/page-1/annotations'') = None"
    using assms
  proof (induction n)
    case (Cons c cs)
    then have "c \<noteq> CHR ''/''" by (auto simp: is_digit_def)
    with Cons show ?case by (simp add: item_image_marker_def)
  qed (use tail in simp)
  then show ?thesis by (simp add: item_image_marker_def)
qed

subsection \<open>Bases in printed form\<close>

definition canonical_base :: "string \<Rightarrow> bool" where
  "canonical_base base \<longleftrightarrow>
     (case Parse base of None \<Rightarrow> False | Some u \<Rightarrow> \<not> u_ForceQuery u \<and> u_RawQuery u = [] \<and> url_String u = base)"

definition url_byte :: "char \<Rightarrow> bool" where
  "url_byte c \<longleftrightarrow> is_graph c \<and> c \<noteq> CHR ''#'' \<and> c \<noteq> CHR ''?''"

lemma alnum_url_byte: "is_alnum c \<Longrightarrow> url_byte c"
  by (auto simp: is_alnum_def is_alpha_def is_digit_def url_byte_def is_graph_def Let_def)

lemma plain_url_byte: "path_plain c \<or> host_plain c \<or> scheme_char c \<Longrightarrow> url_byte c"
  by (auto simp: path_plain_def host_plain_def scheme_char_def alnum_url_byte) (auto simp: url_byte_def is_graph_def)

lemma hex_digit_url_byte: "n < 16 \<Longrightarrow> url_byte (hex_digit n)"
proof -
  assume "n < 16"
  then have "hex_digit n \<in> set ''0123456789ABCDEF''" unfolding hex_digit_def by (intro nth_mem) simp
  then show ?thesis by (auto simp: url_byte_def is_graph_def)
qed

lemma escape_byte_bytes: "list_all url_byte (escape_byte c)"
proof -
  have "of_char c < (256 :: nat)" by simp
  then have "of_char c div 16 < (16 :: nat)" "of_char c mod 16 < (16 :: nat)"
    by (simp_all add: less_mult_imp_div_less)
  then have "url_byte (hex_digit (of_char c div 16))" "url_byte (hex_digit (of_char c mod 16))" by (simp_all add: hex_digit_url_byte)
  moreover have "url_byte (CHR ''%'')" by code_simp
  ultimately show ?thesis by (simp add: escape_byte_def Let_def)
qed

lemma escaped_bytes: "list_all url_byte (escape_path p)" "list_all url_byte (escape_host h)"
  using escape_byte_bytes plain_url_byte by (auto simp: escape_path_def escape_host_def list_all_iff)

lemma lower_scheme_char: "scheme_char c \<Longrightarrow> scheme_char (lower_byte c)"
  by (auto simp: scheme_char_def is_alnum_def is_alpha_def is_digit_def lower_byte_def Let_def)

lemma parse_hierarchy_scheme: "parse_hierarchy sc f q r = Some u \<Longrightarrow> u_Scheme u = sc"
  by (auto simp: parse_hierarchy_def no_url_def Let_def split: if_splits option.splits prod.splits)

lemma parse_url_scheme:
  assumes "parse_url b = Some u"
  shows "u_Scheme u = [] \<or> (\<exists>sc rest. getScheme b = Some (sc, rest) \<and> u_Scheme u = map lower_byte sc)"
proof (cases "list_ex is_ctl b \<or> b = ''*'' \<or> getScheme b = None")
  case True
  with assms show ?thesis by (auto simp: parse_url_def no_url_def split: if_splits)
next
  case False
  then obtain sc rest where g: "getScheme b = Some (sc, rest)" by (cases "getScheme b") auto
  obtain r f q where c: "cut_query rest = (r, f, q)" by (cases "cut_query rest") auto
  from assms False g c have "u_Scheme u = map lower_byte sc"
    unfolding parse_url_def by (auto simp: no_url_def Let_def parse_hierarchy_scheme split: if_splits)
  with g show ?thesis by blast
qed

lemma parse_scheme_bytes:
  assumes "Parse b = Some u"
  shows "list_all url_byte (u_Scheme u)"
proof -
  obtain b' u' where b': "parse_url b' = Some u'" "u_Scheme u = u_Scheme u'"
    using assms by (auto simp: Parse_def split: option.splits)
  from parse_url_scheme [OF b'(1)] show ?thesis
  proof
    assume "\<exists>sc rest. getScheme b' = Some (sc, rest) \<and> u_Scheme u' = map lower_byte sc"
    then obtain sc rest where g: "getScheme b' = Some (sc, rest)" and u: "u_Scheme u' = map lower_byte sc" by blast
    show ?thesis
    proof (cases "sc = []")
      case False
      with getScheme_SomeD [OF g] show ?thesis using b' u by (auto simp: list_all_iff intro!: plain_url_byte lower_scheme_char)
    qed (use b' u in simp)
  qed (use b' in simp)
qed

lemma canonical_bytes:
  assumes "canonical_base b"
  shows "list_all url_byte b" "b \<noteq> []"
proof -
  from assms obtain u where u: "Parse b = Some u" "\<not> u_ForceQuery u" "u_RawQuery u = []" "b = url_String u"
    by (auto simp: canonical_base_def split: option.splits)
  have "list_all url_byte ''://''" "url_byte (CHR ''/'')" by code_simp+
  then show "list_all url_byte b" unfolding u(4) url_String_def
    using u(2,3) escaped_bytes parse_scheme_bytes [OF u(1)] by (simp add: Let_def)
  show "b \<noteq> []" unfolding u(4) url_String_def by simp
qed

subsection \<open>The round trip\<close>

lemma trim_right_idem [simp]: "trim_right c (trim_right c s) = trim_right c s"
  by (simp add: trim_right_def)

lemma canonical_trim:
  assumes "canonical_base b" shows "trim_space b = b"
  using canonical_bytes [OF assms] by (intro trim_space_graph) (auto simp: list_all_iff url_byte_def)

lemma page_tail:
  "path_tail (item_image_marker @ itoa i @ ''/canvas/page-1/annotations'')"
proof -
  have d: "url_byte c \<and> \<not> is_ctl c \<and> c \<noteq> CHR ''%''" if "is_digit c" for c
    using that by (auto simp: is_digit_def url_byte_def is_graph_def is_ctl_def)
  have "list_all (\<lambda>c. is_graph c \<and> \<not> is_ctl c \<and> \<not> List.member ''%#?'' c) (itoa i)"
    using itoa_digits(1) [of i] d by (auto simp: list_all_iff url_byte_def)
  moreover have "list_all (\<lambda>c. is_graph c \<and> \<not> is_ctl c \<and> \<not> List.member ''%#?'' c) ''/item-image-''"
    "list_all (\<lambda>c. is_graph c \<and> \<not> is_ctl c \<and> \<not> List.member ''%#?'' c) ''/canvas/page-1/annotations''" by code_simp+
  ultimately show ?thesis by (simp add: path_tail_def item_image_marker_def)
qed

lemma page_parts:
  "split_on (CHR ''/'') (itoa i @ ''/canvas/page-1/annotations'') = [itoa i, ''canvas'', ''page-1'', ''annotations'']"
proof -
  have "CHR ''/'' \<notin> set (itoa i)" using itoa_digits(1) [of i] by (auto simp: list_all_iff is_digit_def)
  moreover have "split_on (CHR ''/'') ''canvas/page-1/annotations'' = [''canvas'', ''page-1'', ''annotations'']" by code_simp
  ultimately show ?thesis using split_append [of "CHR ''/''" "itoa i" "''canvas/page-1/annotations''"] by simp
qed

lemma base_valid:
  assumes "validHTTPBase raw = Inr base" and "canonical_base base"
  obtains u where "Parse base = Some u" "\<not> not_absolute u" "\<not> u_User u" "u_RawQuery u = []" "u_Fragment u = []"
    "\<not> u_ForceQuery u" "url_String u = base" "trim_right (CHR ''/'') base = base" "validHTTPBase base = Inr base"
proof -
  have t: "trim_space base = base" by (rule canonical_trim [OF assms(2)])
  from assms(1) have r: "trim_right (CHR ''/'') base = base" and q: "requireResourceURL base ''public base url'' False = None"
    and v: "validHTTPBase base = Inr base" using t
    by (auto simp: validHTTPBase_def Let_def split: option.splits if_splits)
  from assms(2) obtain u where "Parse base = Some u" "\<not> u_ForceQuery u" "u_RawQuery u = []" "url_String u = base"
    by (auto simp: canonical_base_def split: option.splits)
  moreover from q t this(1) have "\<not> not_absolute u" "\<not> u_User u" "u_Fragment u = []"
    by (auto simp: requireResourceURL_def not_absolute_def Let_def split: if_splits)
  ultimately show thesis using that r v by blast
qed



lemma accepted_bases_not_read_back:
  "ValidatePublicBaseURL ''https://scribe.example.org/a!b'' = None"
  "ValidatePublicBaseURL ''https://scribe.example.org?'' = None"
  "parseAnnotationPageID ''https://scribe.example.org/a!b/item-image-42/canvas/page-1/annotations'' =
     Inl (ErrInvalid ''annotation page id must be a canonical Scribe resource'')"
  "parseAnnotationPageID ''https://scribe.example.org?/item-image-42/canvas/page-1/annotations'' =
     Inl (ErrInvalid ''annotation page id must be a canonical Scribe resource'')"
  by code_simp+

end
