(* ===== verification/Json_Text.thy ===== *)
theory Json_Text
  imports Media_Fragment Upload_Reference
begin

section \<open>The text of JSON documents\<close>

text \<open>
  What the code uses of Go's \<^verbatim>\<open>encoding/json\<close>, on bytes: \<open>decode_json\<close> reads a document with its
  numbers kept as literals, as \<^verbatim>\<open>UseNumber\<close> asks for, and \<open>encode_json\<close> writes one as
  \<^verbatim>\<open>json.Marshal\<close> does. \<open>struct_members\<close> are the members that reach a field of a struct, and
  \<open>DecodeJSON\<close> is the bounded decoder of \<^verbatim>\<open>internal/iiif/json.go\<close>.
\<close>

subsection \<open>UTF-8\<close>

definition in_range :: "nat \<Rightarrow> nat \<Rightarrow> char \<Rightarrow> bool" where
  "in_range lo hi c \<longleftrightarrow> lo \<le> of_char c \<and> of_char c \<le> hi"

text \<open>
  The number of bytes of the encoded code point at the front; zero when there is none. The first byte
  gives the length and narrows the range of the second one.
\<close>

definition lead_size :: "char \<Rightarrow> nat" where
  "lead_size a =
     (if in_range 0 0x7F a then 1 else if in_range 0xC2 0xDF a then 2
      else if in_range 0xE0 0xEF a then 3 else if in_range 0xF0 0xF4 a then 4 else 0)"

definition second_ok :: "char \<Rightarrow> char \<Rightarrow> bool" where
  "second_ok a b =
     in_range (if a = CHR 0xE0 then 0xA0 else if a = CHR 0xF0 then 0x90 else 0x80)
       (if a = CHR 0xED then 0x9F else if a = CHR 0xF4 then 0x8F else 0xBF) b"

definition rune_ok :: "string \<Rightarrow> bool" where
  "rune_ok w =
     (case w of [] \<Rightarrow> False | a # t \<Rightarrow>
        (case t of [] \<Rightarrow> True | b # r \<Rightarrow> second_ok a b \<and> list_all (in_range 0x80 0xBF) r))"

definition rune_size :: "string \<Rightarrow> nat" where
  "rune_size s =
     (case s of
        [] \<Rightarrow> 0
      | a # _ \<Rightarrow> let n = lead_size a in if n \<le> length s \<and> rune_ok (take n s) then n else 0)"

definition encode_rune :: "nat \<Rightarrow> string" where
  "encode_rune n =
     (if n < 0x80 then [char_of n]
      else if n < 0x800 then [char_of (0xC0 + n div 64), char_of (0x80 + n mod 64)]
      else if n < 0x10000 then [char_of (0xE0 + n div 4096), char_of (0x80 + n div 64 mod 64), char_of (0x80 + n mod 64)]
      else [char_of (0xF0 + n div 262144), char_of (0x80 + n div 4096 mod 64), char_of (0x80 + n div 64 mod 64),
            char_of (0x80 + n mod 64)])"

definition replacement_char :: string where
  "replacement_char = [CHR 0xEF, CHR 0xBF, CHR 0xBD]"

subsection \<open>Reading\<close>

definition json_space :: "char \<Rightarrow> bool" where
  "json_space c \<longleftrightarrow> c = CHR 0x20 \<or> c = CHR 0x09 \<or> c = CHR 0x0A \<or> c = CHR 0x0D"

definition skip_ws :: "string \<Rightarrow> string" where
  "skip_ws s = dropWhile json_space s"

definition hex4 :: "string \<Rightarrow> (nat \<times> string) option" where
  "hex4 s =
     (case s of
        a # b # c # d # r \<Rightarrow>
          (case (hex_value a, hex_value b, hex_value c, hex_value d) of
             (Some w, Some x, Some y, Some z) \<Rightarrow> Some (4096 * w + 256 * x + 16 * y + z, r)
           | _ \<Rightarrow> None)
      | _ \<Rightarrow> None)"

text \<open>An escaped code unit; a high surrogate takes the escaped low one that follows it, a lone one is replaced.\<close>

definition escaped_rune :: "string \<Rightarrow> (nat \<times> string) option" where
  "escaped_rune s =
     (case hex4 s of
        None \<Rightarrow> None
      | Some (n, r) \<Rightarrow>
          if n < 0xD800 \<or> n > 0xDFFF then Some (n, r)
          else case strip_prefix [CHR 0x5C, CHR ''u''] r of
            None \<Rightarrow> Some (0xFFFD, r)
          | Some t \<Rightarrow>
              (case hex4 t of
                 None \<Rightarrow> Some (0xFFFD, r)
               | Some (m, r') \<Rightarrow>
                   if n \<le> 0xDBFF \<and> 0xDC00 \<le> m \<and> m \<le> 0xDFFF
                   then Some (0x10000 + (n - 0xD800) * 1024 + (m - 0xDC00), r') else Some (0xFFFD, r)))"

definition simple_escape :: "char \<Rightarrow> char option" where
  "simple_escape e =
     (if e = CHR 0x22 \<or> e = CHR 0x5C \<or> e = CHR ''/'' then Some e
      else if e = CHR ''b'' then Some (CHR 0x08)
      else if e = CHR ''f'' then Some (CHR 0x0C)
      else if e = CHR ''n'' then Some (CHR 0x0A)
      else if e = CHR ''r'' then Some (CHR 0x0D)
      else if e = CHR ''t'' then Some (CHR 0x09) else None)"

definition prepend :: "string \<Rightarrow> (string \<times> string) option \<Rightarrow> (string \<times> string) option" where
  "prepend p m = (case m of None \<Rightarrow> None | Some (a, b) \<Rightarrow> Some (p @ a, b))"

lemma strip_prefix_length: "strip_prefix p s = Some t \<Longrightarrow> length t \<le> length s"
  by (auto simp: strip_prefix_eq)

lemma hex4_length: "hex4 s = Some (n, r) \<Longrightarrow> length r < length s"
  by (auto simp: hex4_def split: list.splits option.splits)

lemma escaped_rune_length: "escaped_rune s = Some (n, r) \<Longrightarrow> length r < length s"
  by (force simp: escaped_rune_def split: option.splits if_splits dest: hex4_length strip_prefix_length)

lemma prepend_cong [fundef_cong]: "m = m' \<Longrightarrow> prepend p m = prepend p m'"
  by simp

function unquote :: "string \<Rightarrow> (string \<times> string) option" where
  "unquote s =
     (case s of
        [] \<Rightarrow> None
      | c # cs \<Rightarrow>
          if c = CHR 0x22 then Some ([], cs)
          else if in_range 0 0x1F c then None
          else if c = CHR 0x5C then
            (case cs of
               [] \<Rightarrow> None
             | e # r \<Rightarrow>
                 if e = CHR ''u''
                 then (case escaped_rune r of None \<Rightarrow> None | Some (n, t) \<Rightarrow> prepend (encode_rune n) (unquote t))
                 else (case simple_escape e of None \<Rightarrow> None | Some x \<Rightarrow> prepend [x] (unquote r)))
          else if rune_size s = 0 then prepend replacement_char (unquote cs)
          else prepend (take (rune_size s) s) (unquote (drop (rune_size s) s)))"
  by pat_completeness auto
termination
  by (relation "measure length") (auto dest!: escaped_rune_length)

declare unquote.simps [simp del]

definition int_part :: "string \<Rightarrow> (string \<times> string) option" where
  "int_part s =
     (case s of
        [] \<Rightarrow> None
      | c # r \<Rightarrow> if c = CHR ''0'' then Some ([c], r)
                 else if is_digit c then Some (takeWhile is_digit s, dropWhile is_digit s) else None)"

definition digits_part :: "string \<Rightarrow> string \<Rightarrow> (string \<times> string) option" where
  "digits_part p s = (if takeWhile is_digit s = [] then None else Some (p @ takeWhile is_digit s, dropWhile is_digit s))"

definition frac_part :: "string \<Rightarrow> (string \<times> string) option" where
  "frac_part s = (case s of [] \<Rightarrow> Some ([], []) | c # r \<Rightarrow> if c = CHR ''.'' then digits_part [c] r else Some ([], s))"

definition exp_part :: "string \<Rightarrow> (string \<times> string) option" where
  "exp_part s =
     (case s of
        [] \<Rightarrow> Some ([], [])
      | c # r \<Rightarrow>
          if c = CHR ''e'' \<or> c = CHR ''E''
          then (case r of
                  [] \<Rightarrow> None
                | g # t \<Rightarrow> if g = CHR ''+'' \<or> g = CHR ''-'' then digits_part [c, g] t else digits_part [c] r)
          else Some ([], s))"

definition sign_part :: "string \<Rightarrow> string \<times> string" where
  "sign_part s = (case s of [] \<Rightarrow> ([], []) | c # r \<Rightarrow> if c = CHR ''-'' then ([c], r) else ([], s))"

definition number_token :: "string \<Rightarrow> (string \<times> string) option" where
  "number_token s =
     (let (sg, s1) = sign_part s in
      case int_part s1 of
        None \<Rightarrow> None
      | Some (i, s2) \<Rightarrow>
          (case frac_part s2 of
             None \<Rightarrow> None
           | Some (f, s3) \<Rightarrow>
               (case exp_part s3 of None \<Rightarrow> None | Some (x, s4) \<Rightarrow> Some (sg @ i @ f @ x, s4))))"

text \<open>
  The parser; its first argument bounds the number of calls, the second the levels of nesting that
  are left. A value takes at most two calls per byte, so the bound of \<open>decode_json\<close> is never reached.
\<close>

fun parse_value :: "nat \<Rightarrow> nat \<Rightarrow> string \<Rightarrow> (json \<times> string) option"
  and parse_elems :: "nat \<Rightarrow> nat \<Rightarrow> string \<Rightarrow> (json list \<times> string) option"
  and parse_members :: "nat \<Rightarrow> nat \<Rightarrow> string \<Rightarrow> ((string \<times> json) list \<times> string) option" where
  "parse_value 0 d s = None"
| "parse_value (Suc n) d s =
     (case skip_ws s of
        [] \<Rightarrow> None
      | c # cs \<Rightarrow>
          if c = CHR 0x22 then map_option (\<lambda>(v, r). (JStr v, r)) (unquote cs)
          else if c = CHR ''['' then
            (if d = 0 then None
             else case skip_ws cs of
               [] \<Rightarrow> None
             | x # r \<Rightarrow> if x = CHR '']'' then Some (JArr [], r) else map_option (\<lambda>(v, r). (JArr v, r)) (parse_elems n (d - 1) cs))
          else if c = CHR ''{'' then
            (if d = 0 then None
             else case skip_ws cs of
               [] \<Rightarrow> None
             | x # r \<Rightarrow> if x = CHR ''}'' then Some (JObj [], r) else map_option (\<lambda>(v, r). (JObj v, r)) (parse_members n (d - 1) cs))
          else if c = CHR ''t'' then map_option (Pair (JBool True)) (strip_prefix ''true'' (c # cs))
          else if c = CHR ''f'' then map_option (Pair (JBool False)) (strip_prefix ''false'' (c # cs))
          else if c = CHR ''n'' then map_option (Pair JNull) (strip_prefix ''null'' (c # cs))
          else map_option (\<lambda>(v, r). (JNum v, r)) (number_token (c # cs)))"
| "parse_elems 0 d s = None"
| "parse_elems (Suc n) d s =
     (case parse_value n d s of
        None \<Rightarrow> None
      | Some (v, r) \<Rightarrow>
          (case skip_ws r of
             [] \<Rightarrow> None
           | x # t \<Rightarrow> if x = CHR '']'' then Some ([v], t)
                      else if x = CHR '','' then map_option (\<lambda>(vs, r). (v # vs, r)) (parse_elems n d t) else None))"
| "parse_members 0 d s = None"
| "parse_members (Suc n) d s =
     (case skip_ws s of
        [] \<Rightarrow> None
      | q # s1 \<Rightarrow>
          if q \<noteq> CHR 0x22 then None
          else case unquote s1 of
            None \<Rightarrow> None
          | Some (k, s2) \<Rightarrow>
              (case skip_ws s2 of
                 [] \<Rightarrow> None
               | col # s3 \<Rightarrow>
                   if col \<noteq> CHR '':'' then None
                   else case parse_value n d s3 of
                     None \<Rightarrow> None
                   | Some (v, r) \<Rightarrow>
                       (case skip_ws r of
                          [] \<Rightarrow> None
                        | x # t \<Rightarrow> if x = CHR ''}'' then Some ([(k, v)], t)
                                   else if x = CHR '','' then map_option (\<lambda>(vs, r). ((k, v) # vs, r)) (parse_members n d t)
                                   else None)))"

definition max_nesting :: nat where
  "max_nesting = 10000"

definition decode_json :: "string \<Rightarrow> json option" where
  "decode_json s =
     (case parse_value (2 * length s + 2) max_nesting s of
        None \<Rightarrow> None | Some (v, r) \<Rightarrow> if skip_ws r = [] then Some v else None)"

subsection \<open>Writing\<close>

definition low_hex :: "nat \<Rightarrow> char" where
  "low_hex n = ''0123456789abcdef'' ! n"

definition unicode_escape :: "nat \<Rightarrow> string" where
  "unicode_escape n =
     [CHR 0x5C, CHR ''u'', low_hex (n div 4096 mod 16), low_hex (n div 256 mod 16), low_hex (n div 16 mod 16), low_hex (n mod 16)]"

definition escape_ascii :: "char \<Rightarrow> string" where
  "escape_ascii c =
     (if c = CHR 0x22 \<or> c = CHR 0x5C then [CHR 0x5C, c]
      else if c = CHR 0x08 then [CHR 0x5C, CHR ''b'']
      else if c = CHR 0x0C then [CHR 0x5C, CHR ''f'']
      else if c = CHR 0x0A then [CHR 0x5C, CHR ''n'']
      else if c = CHR 0x0D then [CHR 0x5C, CHR ''r'']
      else if c = CHR 0x09 then [CHR 0x5C, CHR ''t'']
      else if in_range 0 0x1F c \<or> c = CHR ''<'' \<or> c = CHR ''>'' \<or> c = CHR ''&'' then unicode_escape (of_char c)
      else [c])"

text \<open>An invalid byte is written as the escape of U+FFFD, the line separators are escaped.\<close>

function escape_string :: "string \<Rightarrow> string" where
  "escape_string s =
     (case s of
        [] \<Rightarrow> []
      | c # cs \<Rightarrow>
          if in_range 0 0x7F c then escape_ascii c @ escape_string cs
          else if rune_size s = 0 then unicode_escape 0xFFFD @ escape_string cs
          else if has_prefix s [CHR 0xE2, CHR 0x80, CHR 0xA8] then unicode_escape 0x2028 @ escape_string (drop 2 cs)
          else if has_prefix s [CHR 0xE2, CHR 0x80, CHR 0xA9] then unicode_escape 0x2029 @ escape_string (drop 2 cs)
          else take (rune_size s) s @ escape_string (drop (rune_size s) s))"
  by pat_completeness auto
termination
  by (relation "measure length") auto

declare escape_string.simps [simp del]

definition quote_string :: "string \<Rightarrow> string" where
  "quote_string s = CHR 0x22 # escape_string s @ [CHR 0x22]"

fun encode_json :: "json \<Rightarrow> string"
  and encode_elems :: "json list \<Rightarrow> string"
  and encode_members :: "(string \<times> json) list \<Rightarrow> string" where
  "encode_json JNull = ''null''"
| "encode_json (JBool b) = (if b then ''true'' else ''false'')"
| "encode_json (JNum n) = n"
| "encode_json (JStr s) = quote_string s"
| "encode_json (JArr vs) = ''['' @ encode_elems vs @ '']''"
| "encode_json (JObj kvs) = ''{'' @ encode_members kvs @ ''}''"
| "encode_elems [] = []"
| "encode_elems (v # vs) = encode_json v @ (if vs = [] then [] else CHR '','' # encode_elems vs)"
| "encode_members [] = []"
| "encode_members ((k, v) # kvs) =
     quote_string k @ CHR '':'' # encode_json v @ (if kvs = [] then [] else CHR '','' # encode_members kvs)"

text \<open>\<^verbatim>\<open>json.Marshal\<close> of a decoded value: a map has one member per name, written in byte order.\<close>

definition Marshal :: "json \<Rightarrow> string" where
  "Marshal v = encode_json (json_normalize v)"

subsection \<open>The bounded decoder\<close>

definition MaxJSONNestingDepth :: nat where
  "MaxJSONNestingDepth = 128"

text \<open>The loop of \<^verbatim>\<open>validateJSONNesting\<close>: depth, inside a string, after a backslash.\<close>

fun nesting_ok :: "int \<Rightarrow> bool \<Rightarrow> bool \<Rightarrow> string \<Rightarrow> bool" where
  "nesting_ok depth inString escaped [] = True"
| "nesting_ok depth inString escaped (c # cs) =
     (if inString
      then if escaped then nesting_ok depth True False cs
           else if c = CHR 0x5C then nesting_ok depth True True cs
           else nesting_ok depth (c \<noteq> CHR 0x22) False cs
      else if c = CHR 0x22 then nesting_ok depth True escaped cs
      else if c = CHR ''{'' \<or> c = CHR ''['' then
        (if depth + 1 > int MaxJSONNestingDepth then False else nesting_ok (depth + 1) False escaped cs)
      else if c = CHR ''}'' \<or> c = CHR '']'' then nesting_ok (depth - 1) False escaped cs
      else nesting_ok depth False escaped cs)"

definition DecodeJSON :: "string \<Rightarrow> err + json" where
  "DecodeJSON raw =
     (if \<not> nesting_ok 0 False False raw then Inl (ErrInvalid ''json nesting exceeds 128 levels'')
      else case decode_json raw of None \<Rightarrow> Inl (ErrInvalid ''invalid JSON'') | Some v \<Rightarrow> Inr v)"

text \<open>
  Decoding into \<^verbatim>\<open>map[string]any\<close>: an object gives its members and null the nil map; any other value
  is an error.
\<close>

definition as_map :: "json \<Rightarrow> (string \<times> json) list option" where
  "as_map v = (case v of JObj kvs \<Rightarrow> Some kvs | JNull \<Rightarrow> Some [] | _ \<Rightarrow> None)"

definition DecodeMap :: "string \<Rightarrow> err + (string \<times> json) list" where
  "DecodeMap raw =
     (case DecodeJSON raw of
        Inl e \<Rightarrow> Inl e
      | Inr v \<Rightarrow> (case as_map v of None \<Rightarrow> Inl (ErrInvalid ''cannot unmarshal into a map'') | Some kvs \<Rightarrow> Inr kvs))"

subsection \<open>Decoding into structs\<close>

text \<open>
  A struct field takes every member whose name is equal to its own up to case folding. The text of a
  value, which \<^verbatim>\<open>json.RawMessage\<close> keeps, runs from its first to its last byte.
\<close>

definition value_span :: "nat \<Rightarrow> nat \<Rightarrow> string \<Rightarrow> (string \<times> string) option" where
  "value_span n d s =
     (case parse_value n d s of
        None \<Rightarrow> None | Some (_, r) \<Rightarrow> Some (take (length (skip_ws s) - length r) (skip_ws s), r))"

fun elem_spans :: "nat \<Rightarrow> nat \<Rightarrow> string \<Rightarrow> string list option" where
  "elem_spans 0 d s = None"
| "elem_spans (Suc n) d s =
     (case value_span n d s of
        None \<Rightarrow> None
      | Some (v, r) \<Rightarrow>
          (case skip_ws r of
             [] \<Rightarrow> None
           | x # t \<Rightarrow> if x = CHR '','' then map_option (Cons v) (elem_spans n d t) else Some [v]))"

fun member_spans :: "nat \<Rightarrow> nat \<Rightarrow> string \<Rightarrow> (string \<times> string) list option" where
  "member_spans 0 d s = None"
| "member_spans (Suc n) d s =
     (case unquote (drop 1 (skip_ws s)) of
        None \<Rightarrow> None
      | Some (k, s2) \<Rightarrow>
          (case value_span n d (drop 1 (skip_ws s2)) of
             None \<Rightarrow> None
           | Some (v, r) \<Rightarrow>
               (case skip_ws r of
                  [] \<Rightarrow> None
                | x # t \<Rightarrow> if x = CHR '','' then map_option (Cons (k, v)) (member_spans n d t) else Some [(k, v)])))"

text \<open>The texts of the elements of an array and of the members of an object, given the text of a valid document.\<close>

definition array_spans :: "string \<Rightarrow> string list option" where
  "array_spans s =
     (case skip_ws s of
        [] \<Rightarrow> None
      | c # cs \<Rightarrow>
          if c \<noteq> CHR ''['' then None
          else if take 1 (skip_ws cs) = '']'' then Some [] else elem_spans (2 * length s + 2) (max_nesting - 1) cs)"

definition object_spans :: "string \<Rightarrow> (string \<times> string) list option" where
  "object_spans s =
     (case skip_ws s of
        [] \<Rightarrow> None
      | c # cs \<Rightarrow>
          if c \<noteq> CHR ''{'' then None
          else if take 1 (skip_ws cs) = ''}'' then Some [] else member_spans (2 * length s + 2) (max_nesting - 1) cs)"

definition struct_members :: "string \<Rightarrow> (string \<times> 'v) list \<Rightarrow> 'v list" where
  "struct_members name kvs = map snd (filter (\<lambda>kv. equal_fold (fst kv) name) kvs)"

text \<open>A string field: null leaves it as it is, another kind of value is an error.\<close>

definition struct_string :: "string \<Rightarrow> (string \<times> json) list \<Rightarrow> string option" where
  "struct_string name kvs =
     foldl (\<lambda>acc v. case acc of None \<Rightarrow> None
              | Some x \<Rightarrow> (case v of JStr s \<Rightarrow> Some s | JNull \<Rightarrow> Some x | _ \<Rightarrow> None))
       (Some []) (struct_members name kvs)"

text \<open>A field of raw messages: of several arrays the last one counts.\<close>

definition struct_raws :: "string \<Rightarrow> (string \<times> string) list \<Rightarrow> string list option" where
  "struct_raws name spans =
     foldl (\<lambda>acc t. if acc = None then None else if t = ''null'' then Some [] else array_spans t)
       (Some []) (struct_members name spans)"

text \<open>
  A field of maps: the elements of a further array are decoded into the maps that are there already,
  so their members are added to them.
\<close>

fun merge_maps :: "(string \<times> json) list list \<Rightarrow> json list \<Rightarrow> (string \<times> json) list list option" where
  "merge_maps old [] = Some []"
| "merge_maps old (v # vs) =
     (case (v, merge_maps (drop 1 old) vs) of
        (JObj kvs, Some ms) \<Rightarrow> Some ((if old = [] then kvs else hd old @ kvs) # ms)
      | (JNull, Some ms) \<Rightarrow> Some ([] # ms)
      | _ \<Rightarrow> None)"

definition struct_maps :: "string \<Rightarrow> (string \<times> json) list \<Rightarrow> (string \<times> json) list list option" where
  "struct_maps name kvs =
     foldl (\<lambda>acc v. case acc of None \<Rightarrow> None
              | Some old \<Rightarrow> (case v of JArr vs \<Rightarrow> merge_maps old vs | JNull \<Rightarrow> Some [] | _ \<Rightarrow> None))
       (Some []) (struct_members name kvs)"

end
