(* ===== verification/Page_Documents.thy ===== *)
theory Page_Documents
  imports Page_Identity Json_Text
begin

section \<open>Annotation page documents\<close>

text \<open>
  The document layer of \<^verbatim>\<open>internal/iiif/presentation.go\<close>, on the text of a page: the cost limits, the
  contexts, the semantic checks of the Text Granularity extension, the check that a page and its items
  carry the identifiers Scribe gives them, and the normalisation that gives them. A
  \<^verbatim>\<open>map[string]any\<close> is a normalised list of members, so ranging over it is one of the orders Go may take.
\<close>

subsection \<open>Limits\<close>

definition MaxAnnotationPageBytes :: nat where "MaxAnnotationPageBytes = 8 * 1024 * 1024"
definition MaxAnnotationsPerPage :: nat where "MaxAnnotationsPerPage = 10000"
definition maxAnnotationBodyBytes :: nat where "maxAnnotationBodyBytes = 1024 * 1024"
definition maxSelectorBytes :: nat where "maxSelectorBytes = 64 * 1024"
definition maxSelectorValueBytes :: nat where "maxSelectorValueBytes = 4 * 1024"

text \<open>The members of a decoded map: one per name.\<close>

definition map_members :: "(string \<times> json) list \<Rightarrow> (string \<times> json) list" where
  "map_members kvs = sort_key fst (keep_last (map (\<lambda>kv. (fst kv, json_normalize (snd kv))) kvs))"

definition obj_has :: "(string \<times> json) list \<Rightarrow> string \<Rightarrow> bool" where
  "obj_has kvs k = List.member (map fst kvs) k"

definition obj_delete :: "string \<Rightarrow> (string \<times> json) list \<Rightarrow> (string \<times> json) list" where
  "obj_delete k kvs = filter (\<lambda>kv. fst kv \<noteq> k) kvs"

definition decode_object :: "string \<Rightarrow> err + (string \<times> json) list" where
  "decode_object raw = (case DecodeMap raw of Inl e \<Rightarrow> Inl e | Inr kvs \<Rightarrow> Inr (map_members kvs))"

definition validateEncodedValueLimit :: "json \<Rightarrow> nat \<Rightarrow> err option" where
  "validateEncodedValueLimit v limit =
     (if length (Marshal v) > limit then Some (ErrInvalid ''value exceeds its byte limit'') else None)"

fun validateResourceIDLengths :: "json \<Rightarrow> err option"
  and resource_elems :: "json list \<Rightarrow> err option"
  and resource_members :: "(string \<times> json) list \<Rightarrow> err option" where
  "validateResourceIDLengths (JObj kvs) = resource_members kvs"
| "validateResourceIDLengths (JArr vs) = resource_elems vs"
| "validateResourceIDLengths _ = None"
| "resource_elems [] = None"
| "resource_elems (v # vs) = (case validateResourceIDLengths v of Some e \<Rightarrow> Some e | None \<Rightarrow> resource_elems vs)"
| "resource_members [] = None"
| "resource_members ((k, child) # kvs) =
     (if (k = ''id'' \<or> k = ''@id'') \<and> length (stringValue child) > maxResourceIDBytes
      then Some (ErrInvalid ''resource id exceeds its byte limit'')
      else case validateResourceIDLengths child of Some e \<Rightarrow> Some e | None \<Rightarrow> resource_members kvs)"

fun validateSelectorValueLengths :: "json \<Rightarrow> err option"
  and selector_elems :: "json list \<Rightarrow> err option"
  and selector_members :: "(string \<times> json) list \<Rightarrow> err option" where
  "validateSelectorValueLengths (JObj kvs) =
     (if length (stringValue (obj_get kvs ''value'')) > maxSelectorValueBytes
      then Some (ErrInvalid ''selector value exceeds its byte limit'') else selector_members kvs)"
| "validateSelectorValueLengths (JArr vs) = selector_elems vs"
| "validateSelectorValueLengths _ = None"
| "selector_elems [] = None"
| "selector_elems (v # vs) = (case validateSelectorValueLengths v of Some e \<Rightarrow> Some e | None \<Rightarrow> selector_elems vs)"
| "selector_members [] = None"
| "selector_members ((k, child) # kvs) =
     (case validateSelectorValueLengths child of Some e \<Rightarrow> Some e | None \<Rightarrow> selector_members kvs)"

definition and_then :: "err option \<Rightarrow> err option \<Rightarrow> err option" where
  "and_then a b = (case a of Some e \<Rightarrow> Some e | None \<Rightarrow> b)"

definition target_cost :: "json \<Rightarrow> err option" where
  "target_cost target =
     and_then (validateResourceIDLengths target)
       (case target of
          JObj targetObject \<Rightarrow>
            if obj_has targetObject ''selector''
            then and_then (validateEncodedValueLimit (obj_get targetObject ''selector'') maxSelectorBytes)
                   (validateSelectorValueLengths (obj_get targetObject ''selector''))
            else None
        | _ \<Rightarrow> None)"

definition item_cost :: "bool \<Rightarrow> string \<Rightarrow> err option" where
  "item_cost enforceCanonicalIDs encoded =
     (case decode_object encoded of
        Inl e \<Rightarrow> Some e
      | Inr annotation \<Rightarrow>
          if enforceCanonicalIDs \<and> length (stringValue (obj_get annotation ''id'')) > maxAnnotationIDBytes
          then Some (ErrInvalid ''annotation id exceeds its byte limit'')
          else and_then
            (if obj_has annotation ''body''
             then and_then (validateEncodedValueLimit (obj_get annotation ''body'') maxAnnotationBodyBytes)
                    (validateResourceIDLengths (obj_get annotation ''body''))
             else None)
            (if obj_has annotation ''target'' then target_cost (obj_get annotation ''target'') else None))"

text \<open>Decoding into a struct with the two fields \<^verbatim>\<open>id\<close> and \<^verbatim>\<open>items\<close> of raw messages.\<close>

definition admission_fields :: "string \<Rightarrow> err + string \<times> string list" where
  "admission_fields raw =
     (case DecodeMap raw of
        Inl e \<Rightarrow> Inl e
      | Inr kvs \<Rightarrow>
          (case (struct_string ''id'' kvs, struct_raws ''items'' (case object_spans raw of None \<Rightarrow> [] | Some spans \<Rightarrow> spans)) of
             (Some i, Some rs) \<Rightarrow> Inr (i, rs)
           | _ \<Rightarrow> Inl (ErrInvalid ''decode annotation page admission fields'')))"

definition validateAnnotationPageCost :: "string \<Rightarrow> bool \<Rightarrow> err option" where
  "validateAnnotationPageCost raw enforceCanonicalIDs =
     (if length raw > MaxAnnotationPageBytes then Some (ErrInvalid ''annotation page exceeds its byte limit'')
      else case admission_fields raw of
        Inl e \<Rightarrow> Some e
      | Inr (ID, rawItems) \<Rightarrow>
          if length rawItems > MaxAnnotationsPerPage then Some (ErrInvalid ''annotation page contains too many items'')
          else if enforceCanonicalIDs \<and> length ID > maxCanonicalPageIDBytes
          then Some (ErrInvalid ''annotation page id exceeds its byte limit'')
          else first_error (item_cost enforceCanonicalIDs) rawItems)"

subsection \<open>Contexts\<close>

text \<open>What the code takes from the package with the published schemas.\<close>

record page_schema =
  PresentationContext :: string
  TextGranularityContext :: string
  ValidateAnnotationPageBytes :: "string \<Rightarrow> bool"
  ValidateExtensibleManifestBytes :: "string \<Rightarrow> bool"
  IsKnownLevel :: "string \<Rightarrow> bool"

fun append_contexts :: "page_schema \<Rightarrow> string list \<Rightarrow> json list \<Rightarrow> json list" where
  "append_contexts sc seen [] = []"
| "append_contexts sc seen (v # vs) =
     (case v of
        JStr t \<Rightarrow> if t = PresentationContext sc \<or> List.member seen t then append_contexts sc seen vs
                  else v # append_contexts sc (t # seen) vs
      | _ \<Rightarrow> v # append_contexts sc seen vs)"

definition annotationPageContexts :: "page_schema \<Rightarrow> json \<Rightarrow> json list" where
  "annotationPageContexts sc existing =
     JStr (TextGranularityContext sc) #
     append_contexts sc [TextGranularityContext sc] (case existing of JArr vs \<Rightarrow> vs | JNull \<Rightarrow> [] | v \<Rightarrow> [v]) @
     [JStr (PresentationContext sc)]"

definition validatePresentationContext :: "page_schema \<Rightarrow> json \<Rightarrow> err option" where
  "validatePresentationContext sc raw =
     (case raw of
        JStr s \<Rightarrow> if s \<noteq> PresentationContext sc then Some (ErrInvalid ''iiif Presentation 3 context is required'') else None
      | JArr entries \<Rightarrow>
          if entries = [] then Some (ErrInvalid ''iiif Presentation 3 context is required'')
          else if last entries \<noteq> JStr (PresentationContext sc) \<or>
                  length (filter (\<lambda>v. v = JStr (PresentationContext sc)) entries) \<noteq> 1
          then Some (ErrInvalid ''iiif Presentation 3 context must occur once as the final @context entry'')
          else None
      | _ \<Rightarrow> Some (ErrInvalid ''iiif Presentation 3 context is required''))"

definition containsString :: "json \<Rightarrow> string \<Rightarrow> bool" where
  "containsString v want =
     (case v of JStr s \<Rightarrow> s = want | JArr vs \<Rightarrow> list_ex (\<lambda>x. x = JStr want) vs | _ \<Rightarrow> False)"

definition standardAnnotationPageProperties :: "string list" where
  "standardAnnotationPageProperties =
     [''@context'', ''id'', ''type'', ''rendering'', ''label'', ''service'', ''thumbnail'', ''items'', ''partOf'', ''next'',
      ''prev'', ''first'', ''last'']"

definition extension_context :: "page_schema \<Rightarrow> json \<Rightarrow> bool" where
  "extension_context sc v =
     (case v of
        JStr s \<Rightarrow> s \<noteq> PresentationContext sc \<and> s \<noteq> TextGranularityContext sc
      | JObj _ \<Rightarrow> True
      | _ \<Rightarrow> False)"

definition validateAnnotationPageExtensionContext :: "page_schema \<Rightarrow> (string \<times> json) list \<Rightarrow> json \<Rightarrow> err option" where
  "validateAnnotationPageExtensionContext sc page ctx =
     (let extra = filter (\<lambda>k. \<not> List.member standardAnnotationPageProperties k) (map fst page) in
      if list_ex (\<lambda>k. has_prefix k ''@'') extra
      then Some (ErrInvalid ''annotation page contains unsupported JSON-LD keyword'')
      else if extra = [] then None
      else case ctx of
        JArr cs \<Rightarrow> if list_ex (extension_context sc) cs then None
                   else Some (ErrInvalid ''annotation page extension properties require an extension context'')
      | _ \<Rightarrow> Some (ErrInvalid ''annotation page extension properties require an extension context''))"

fun validateAnnotationPageExtensionTree :: "page_schema \<Rightarrow> json \<Rightarrow> json \<Rightarrow> err option"
  and extension_elems :: "page_schema \<Rightarrow> json list \<Rightarrow> json \<Rightarrow> err option"
  and extension_members :: "page_schema \<Rightarrow> (string \<times> json) list \<Rightarrow> json \<Rightarrow> err option" where
  "validateAnnotationPageExtensionTree sc (JArr vs) inherited = extension_elems sc vs inherited"
| "validateAnnotationPageExtensionTree sc (JObj kvs) inherited =
     (let ctx = (if obj_has kvs ''@context'' then obj_get kvs ''@context'' else inherited) in
      and_then
        (if stringValue (obj_get kvs ''type'') = ''AnnotationPage''
         then validateAnnotationPageExtensionContext sc kvs ctx else None)
        (extension_members sc kvs ctx))"
| "validateAnnotationPageExtensionTree sc _ inherited = None"
| "extension_elems sc [] inherited = None"
| "extension_elems sc (v # vs) inherited =
     (case validateAnnotationPageExtensionTree sc v inherited of Some e \<Rightarrow> Some e | None \<Rightarrow> extension_elems sc vs inherited)"
| "extension_members sc [] inherited = None"
| "extension_members sc ((k, v) # kvs) inherited =
     (case validateAnnotationPageExtensionTree sc v inherited of Some e \<Rightarrow> Some e | None \<Rightarrow> extension_members sc kvs inherited)"

subsection \<open>Semantics\<close>

fun hasTextualBody :: "json \<Rightarrow> bool" where
  "hasTextualBody (JObj body) = equal_fold (trim_space (stringValue (obj_get body ''type''))) ''TextualBody''"
| "hasTextualBody (JArr vs) = list_ex hasTextualBody vs"
| "hasTextualBody _ = False"

definition item_semantics :: "page_schema \<Rightarrow> json \<Rightarrow> json \<Rightarrow> err option" where
  "item_semantics sc pageContext v =
     (let annotation = (case v of JObj kvs \<Rightarrow> kvs | _ \<Rightarrow> []);
          granularity = trim_space (stringValue (obj_get annotation ''textGranularity''));
          target = obj_get annotation ''target'' in
      if granularity = [] then None
      else if \<not> IsKnownLevel sc granularity then Some (ErrInvalid ''unsupported textGranularity'')
      else if \<not> containsString (obj_get annotation ''motivation'') ''supplementing''
      then Some (ErrInvalid ''textGranularity must have supplementing motivation'')
      else if \<not> containsString pageContext (TextGranularityContext sc)
      then Some (ErrInvalid ''textGranularity without the Text Granularity context'')
      else if \<not> hasTextualBody (obj_get annotation ''body'') then Some (ErrInvalid ''textGranularity must use a TextualBody'')
      else case requireResourceURL (TargetCanvas target) ''target canvas'' True of
        Some e \<Rightarrow> Some e
      | None \<Rightarrow>
          (case TargetPixelXYWH target of
             Inl e \<Rightarrow> Some e
           | Inr None \<Rightarrow> if granularity \<noteq> ''page'' then Some (ErrInvalid ''textGranularity requires an xywh FragmentSelector'') else None
           | Inr (Some fragment) \<Rightarrow> validatePixelXYWH fragment))"

definition array_items :: "json \<Rightarrow> json list" where
  "array_items v = (case v of JArr vs \<Rightarrow> vs | _ \<Rightarrow> [])"

definition ValidateAnnotationPage :: "page_schema \<Rightarrow> string \<Rightarrow> err option" where
  "ValidateAnnotationPage sc raw =
     (case validateAnnotationPageCost raw True of
        Some e \<Rightarrow> Some e
      | None \<Rightarrow>
          (case decode_object raw of
             Inl e \<Rightarrow> Some e
           | Inr page \<Rightarrow>
               if \<not> ValidateAnnotationPageBytes sc raw then Some (ErrInvalid ''invalid IIIF Presentation 3 AnnotationPage'')
               else case validatePresentationContext sc (obj_get page ''@context'') of
                 Some e \<Rightarrow> Some e
               | None \<Rightarrow>
                   (case validateAnnotationPageExtensionTree sc (JObj page) JNull of
                      Some e \<Rightarrow> Some e
                    | None \<Rightarrow> first_error (item_semantics sc (obj_get page ''@context'')) (array_items (obj_get page ''items'')))))"

definition ValidateManifest :: "page_schema \<Rightarrow> string \<Rightarrow> err option" where
  "ValidateManifest sc raw =
     (case DecodeMap raw of
        Inl e \<Rightarrow> Some e
      | Inr _ \<Rightarrow> if \<not> ValidateExtensibleManifestBytes sc raw then Some (ErrInvalid ''invalid IIIF Presentation 3 Manifest'') else None)"

subsection \<open>Canonical pages\<close>

text \<open>Decoding into a struct with the fields \<^verbatim>\<open>id\<close> and \<^verbatim>\<open>items\<close> of maps.\<close>

definition canonical_fields :: "string \<Rightarrow> err + string \<times> (string \<times> json) list list" where
  "canonical_fields raw =
     (case DecodeMap raw of
        Inl e \<Rightarrow> Inl e
      | Inr kvs \<Rightarrow>
          (case (struct_string ''id'' kvs, struct_maps ''items'' kvs) of
             (Some i, Some ms) \<Rightarrow> Inr (i, ms)
           | _ \<Rightarrow> Inl (ErrInvalid ''decode canonical annotation page'')))"

fun canonical_items :: "string \<Rightarrow> string \<Rightarrow> string list \<Rightarrow> (string \<times> json) list list \<Rightarrow> err option" where
  "canonical_items pageID canvasURI seen [] = None"
| "canonical_items pageID canvasURI seen (annotation # rest) =
     (let i = stringValue (obj_get annotation ''id'') in
      if \<not> isCanonicalAnnotationID i pageID then Some (ErrInvalid ''annotation id is not a canonical child'')
      else if List.member seen i then Some (ErrInvalid ''annotation duplicates id'')
      else if TargetCanvas (obj_get annotation ''target'') \<noteq> canvasURI then Some (ErrInvalid ''annotation targets another canvas'')
      else canonical_items pageID canvasURI (i # seen) rest)"

definition ValidateCanonicalAnnotationPage :: "page_schema \<Rightarrow> string \<Rightarrow> PageIdentity \<Rightarrow> err option" where
  "ValidateCanonicalAnnotationPage sc raw identity =
     (case ValidateAnnotationPage sc raw of
        Some e \<Rightarrow> Some e
      | None \<Rightarrow>
          (case AnnotationPageID (pi_PublicBaseURL identity) (pi_ItemImageID identity) of
             Inl e \<Rightarrow> Some e
           | Inr pageID \<Rightarrow>
               (let canvasURI = trim_space (pi_CanvasURI identity) in
                case requireHTTPURL canvasURI ''canvas uri'' of
                  Some e \<Rightarrow> Some e
                | None \<Rightarrow>
                    (case canonical_fields raw of
                       Inl e \<Rightarrow> Some e
                     | Inr (ID, ms) \<Rightarrow>
                         if ID \<noteq> pageID then Some (ErrInvalid ''annotation page id does not match canonical resource'')
                         else canonical_items pageID canvasURI [] ms))))"

subsection \<open>Normalisation\<close>

text \<open>
  The identifier of an item: its own when it is canonical and not taken by an earlier item, otherwise
  one derived from its position and its encoding. \<open>digest\<close> is the hexadecimal form of the first half of
  the SHA-256 sum.
\<close>

definition identified_item ::
  "(string \<Rightarrow> string) \<Rightarrow> string \<Rightarrow> nat \<Rightarrow> string list \<Rightarrow> (string \<times> json) list \<Rightarrow> err + string \<times> (string \<times> json) list" where
  "identified_item digest pageID position seen annotation =
     (let i = stringValue (obj_get annotation ''id'') in
      if \<not> isCanonicalAnnotationID i pageID \<or> List.member seen i
      then (case AnnotationID digest pageID (itoa position @ CHR 0x00 # Marshal (JObj annotation)) of
              Inl e \<Rightarrow> Inl e
            | Inr i' \<Rightarrow> Inr (i', obj_set ''id'' (JStr i') annotation))
      else Inr (i, annotation))"

definition typed_item :: "(string \<times> json) list \<Rightarrow> (string \<times> json) list" where
  "typed_item kvs = obj_delete ''@type'' (obj_delete ''@id'' (obj_set ''type'' (JStr ''Annotation'') kvs))"

fun normalize_items :: "(string \<Rightarrow> string) \<Rightarrow> string \<Rightarrow> string \<Rightarrow> nat \<Rightarrow> string list \<Rightarrow> json list \<Rightarrow> err + json list" where
  "normalize_items digest pageID canvasURI position seen [] = Inr []"
| "normalize_items digest pageID canvasURI position seen (v # vs) =
     (case v of
        JObj kvs \<Rightarrow>
          (case identified_item digest pageID position seen (typed_item kvs) of
             Inl e \<Rightarrow> Inl e
           | Inr (i, annotation) \<Rightarrow>
               if TargetCanvas (obj_get annotation ''target'') \<noteq> trim_space canvasURI
               then Inl (ErrInvalid ''annotation targets another canvas'')
               else (case normalize_items digest pageID canvasURI (position + 1) (i # seen) vs of
                       Inl e \<Rightarrow> Inl e | Inr rest \<Rightarrow> Inr (JObj annotation # rest)))
      | _ \<Rightarrow> Inl (ErrInvalid ''annotation page item must be an object''))"

definition identified_page :: "page_schema \<Rightarrow> string \<Rightarrow> (string \<times> json) list \<Rightarrow> (string \<times> json) list" where
  "identified_page sc pageID page =
     obj_delete ''@type'' (obj_delete ''@id''
       (obj_set ''type'' (JStr ''AnnotationPage'') (obj_set ''id'' (JStr pageID)
         (obj_set ''@context'' (JArr (annotationPageContexts sc (obj_get page ''@context''))) page))))"

definition normalized_page ::
  "(string \<Rightarrow> string) \<Rightarrow> page_schema \<Rightarrow> string \<Rightarrow> string \<Rightarrow> (string \<times> json) list \<Rightarrow> err + (string \<times> json) list" where
  "normalized_page digest sc pageID canvasURI page0 =
     (let page = identified_page sc pageID page0 in
      case obj_get page ''items'' of
        JNull \<Rightarrow> Inr (obj_set ''items'' (JArr []) page)
      | JArr vs \<Rightarrow>
          (case normalize_items digest pageID canvasURI 0 [] vs of
             Inl e \<Rightarrow> Inl e | Inr ws \<Rightarrow> Inr (obj_set ''items'' (JArr ws) page))
      | _ \<Rightarrow> Inl (ErrInvalid ''annotation page items must be an array''))"

text \<open>A page that is the JSON null decodes to the nil map, and the first assignment to it panics.\<close>

definition NormalizeAnnotationPage :: "(string \<Rightarrow> string) \<Rightarrow> page_schema \<Rightarrow> string \<Rightarrow> PageIdentity \<Rightarrow> err + string" where
  "NormalizeAnnotationPage digest sc raw identity =
     (case validateAnnotationPageCost raw False of
        Some e \<Rightarrow> Inl e
      | None \<Rightarrow>
          (case AnnotationPageID (pi_PublicBaseURL identity) (pi_ItemImageID identity) of
             Inl e \<Rightarrow> Inl e
           | Inr pageID \<Rightarrow>
               (case requireHTTPURL (pi_CanvasURI identity) ''canvas uri'' of
                  Some e \<Rightarrow> Inl e
                | None \<Rightarrow>
                    (case decode_object raw of
                       Inl e \<Rightarrow> Inl e
                     | Inr page0 \<Rightarrow>
                         if DecodeJSON raw = Inr JNull then Inl ErrPanic
                         else (case normalized_page digest sc pageID (pi_CanvasURI identity) page0 of
                           Inl e \<Rightarrow> Inl e
                         | Inr page \<Rightarrow>
                             (let normalized = Marshal (JObj page) in
                              case ValidateCanonicalAnnotationPage sc normalized identity of
                                Some e \<Rightarrow> Inl e | None \<Rightarrow> Inr normalized))))))"

definition NewAnnotationPage ::
  "(string \<Rightarrow> string) \<Rightarrow> page_schema \<Rightarrow> PageIdentity \<Rightarrow> json list option \<Rightarrow> err + string" where
  "NewAnnotationPage digest sc identity its =
     NormalizeAnnotationPage digest sc
       (Marshal (JObj [(''@context'', JArr [JStr (TextGranularityContext sc), JStr (PresentationContext sc)]),
                       (''type'', JStr ''AnnotationPage''),
                       (''items'', case its of None \<Rightarrow> JNull | Some vs \<Rightarrow> JArr vs)])) identity"

end
