(* ===== verification/Json_Roundtrip.thy ===== *)
theory Json_Roundtrip
  imports Json_Text
begin

section \<open>Writing and reading JSON back\<close>

text \<open>
  A document that the parser accepts yields a well-formed value (strings in UTF-8, numbers in the
  grammar's spelling, bounded nesting), and the text of a well-formed value is parsed back to it.
\<close>

subsection \<open>Strings\<close>

function valid_utf8 :: "string \<Rightarrow> bool" where
  "valid_utf8 s = (if s = [] then True else if rune_size s = 0 then False else valid_utf8 (drop (rune_size s) s))"
  by pat_completeness auto
termination
  by (relation "measure length") auto

declare valid_utf8.simps [simp del]

lemma valid_utf8_Nil [simp]: "valid_utf8 []"
  by (subst valid_utf8.simps) simp

lemma hex_value_low: "k < 16 \<Longrightarrow> hex_value (low_hex k) = Some k"
proof -
  have "list_all (\<lambda>k. hex_value (low_hex k) = Some k) [0,1,2,3,4,5,6,7,8,9,10,11,12,13,14,15]" by code_simp
  moreover assume "k < 16"
  then have "k \<in> set [0,1,2,3,4,5,6,7,8,9,10,11,12,13,14,15]" by simp presburger
  ultimately show "hex_value (low_hex k) = Some k" unfolding list_all_iff by blast
qed

lemma hex_digits_value:
  assumes "n < 65536"
  shows "4096 * (n div 4096 mod 16) + 256 * (n div 256 mod 16) + 16 * (n div 16 mod 16) + n mod 16 = (n :: nat)"
proof -
  define a b c where "a = n div 16" and "b = a div 16" and "c = b div 16"
  have d: "n div 256 = b" "n div 4096 = c" by (simp_all add: a_def b_def c_def div_mult2_eq [symmetric])
  have "c < 16" unfolding d(2) [symmetric] using assms by (simp add: less_mult_imp_div_less)
  then have m: "c mod 16 = c" by simp
  have "16 * a + n mod 16 = n" "16 * b + a mod 16 = a" "16 * c + b mod 16 = b"
    unfolding a_def b_def c_def by (simp_all only: mult_div_mod_eq)
  then show ?thesis unfolding d m a_def [symmetric] by linarith
qed

lemma escaped_unicode:
  assumes "n < 0xD800"
  shows "escaped_rune (drop 2 (unicode_escape n) @ r) = Some (n, r)"
proof -
  have "hex4 (drop 2 (unicode_escape n) @ r) = Some (n, r)"
    using hex_digits_value [of n] assms by (simp add: hex4_def unicode_escape_def hex_value_low)
  then show ?thesis using assms by (simp add: escaped_rune_def)
qed

lemma unquote_unicode:
  assumes "n < 0xD800"
  shows "unquote (unicode_escape n @ t) = prepend (encode_rune n) (unquote t)"
proof -
  obtain a b c d where u: "unicode_escape n = CHR 0x5C # CHR ''u'' # [a, b, c, d]" by (simp add: unicode_escape_def)
  have "escaped_rune ([a, b, c, d] @ t) = Some (n, t)" using escaped_unicode [OF assms, of t] u by simp
  then show ?thesis unfolding u by (subst unquote.simps) (simp add: in_range_def)
qed

lemma rune_size_ascii [simp]: "in_range 0 0x7F c \<Longrightarrow> rune_size (c # t) = 1"
  by (simp add: rune_size_def lead_size_def rune_ok_def)

lemma short_escape:
  assumes "c \<in> set [CHR 0x22, CHR 0x5C, CHR 0x08, CHR 0x0C, CHR 0x0A, CHR 0x0D, CHR 0x09]"
  shows "\<exists>e. escape_ascii c = [CHR 0x5C, e] \<and> simple_escape e = Some c \<and> e \<noteq> CHR ''u''"
  using assms by (elim set_ConsD [THEN disjE]; simp add: escape_ascii_def simple_escape_def)

lemma unquote_ascii:
  assumes "in_range 0 0x7F c"
  shows "unquote (escape_ascii c @ t) = prepend [c] (unquote t)"
proof -
  have c: "of_char c < (128 :: nat)" using assms by (simp add: in_range_def)
  consider (esc) e where "escape_ascii c = [CHR 0x5C, e]" "simple_escape e = Some c" "e \<noteq> CHR ''u''"
    | (uni) "escape_ascii c = unicode_escape (of_char c)"
    | (plain) "escape_ascii c = [c]" "c \<noteq> CHR 0x22" "c \<noteq> CHR 0x5C" "\<not> in_range 0 0x1F c"
  proof (cases "c \<in> set [CHR 0x22, CHR 0x5C, CHR 0x08, CHR 0x0C, CHR 0x0A, CHR 0x0D, CHR 0x09]")
    case True
    then show ?thesis using short_escape that(1) by blast
  next
    case False
    then show ?thesis using that(2,3)
      by (cases "in_range 0 0x1F c \<or> c = CHR ''<'' \<or> c = CHR ''>'' \<or> c = CHR ''&''") (auto simp: escape_ascii_def)
  qed
  then show ?thesis
  proof cases
    case (esc e)
    then show ?thesis by (subst unquote.simps) (simp add: in_range_def)
  next
    case uni
    moreover have "encode_rune (of_char c) = [c]" using c by (simp add: encode_rune_def)
    ultimately show ?thesis using unquote_unicode [of "of_char c" t] c by simp
  next
    case plain
    then show ?thesis using assms by (subst unquote.simps) simp
  qed
qed

lemma rune_size_take:
  assumes "rune_size s = k" and "k \<noteq> 0"
  shows "rune_size (take k s @ t) = k" "k \<le> length s"
proof -
  obtain a r where s: "s = a # r" using assms by (cases s) (auto simp: rune_size_def)
  with assms have k: "k = lead_size a" "k \<le> length s" "rune_ok (take k s)"
    by (auto simp: rune_size_def Let_def split: if_splits)
  obtain j where j: "k = Suc j" using assms(2) by (cases k) auto
  have "take k s @ t = a # take j r @ t" using s j by simp
  moreover have "take k (take k s @ t) = take k s" using k(2) by simp
  moreover have "k \<le> length (take k s @ t)" using k(2) by simp
  ultimately show "rune_size (take k s @ t) = k" "k \<le> length s" using k by (simp_all add: rune_size_def Let_def)
qed

lemma unquote_rune:
  assumes "rune_size s = k" and "k \<noteq> 0" and "\<not> in_range 0 0x7F (hd s)"
  shows "unquote (take k s @ t) = prepend (take k s) (unquote t)"
proof -
  obtain a r where s: "s = a # r" using assms by (cases s) (auto simp: rune_size_def)
  obtain j where j: "k = Suc j" using assms(2) by (cases k) auto
  have a: "a \<noteq> CHR 0x22" "a \<noteq> CHR 0x5C" "\<not> in_range 0 0x1F a" using assms(3) s by (auto simp: in_range_def)
  have eq: "take k s @ t = a # take j r @ t" using s j by simp
  note size = rune_size_take(1) [OF assms(1,2), of t] rune_size_take(2) [OF assms(1,2)]
  have "take k (take k s @ t) = take k s" "drop k (take k s @ t) = t" using size(2) by simp_all
  then show ?thesis using a size(1) assms(2) unfolding eq by (subst unquote.simps) simp
qed

text \<open>The two line separators have three bytes.\<close>

lemma separator_size:
  assumes "has_prefix s [CHR 0xE2, CHR 0x80, x]" and "x = CHR 0xA8 \<or> x = CHR 0xA9"
  shows "rune_size s = 3" "s = [CHR 0xE2, CHR 0x80, x] @ drop 3 s"
proof -
  obtain t where t: "s = [CHR 0xE2, CHR 0x80, x] @ t" using assms(1) by (auto simp: has_prefix_iff)
  then show "s = [CHR 0xE2, CHR 0x80, x] @ drop 3 s" by simp
  show "rune_size s = 3" using assms(2) unfolding t
    by (auto simp: rune_size_def lead_size_def rune_ok_def second_ok_def in_range_def)
qed

lemma separator_runes:
  "encode_rune 0x2028 = [CHR 0xE2, CHR 0x80, CHR 0xA8]" "encode_rune 0x2029 = [CHR 0xE2, CHR 0x80, CHR 0xA9]"
  by code_simp+

definition escaped_front :: "string \<Rightarrow> string" where
  "escaped_front s =
     (if in_range 0 0x7F (hd s) then escape_ascii (hd s)
      else if has_prefix s [CHR 0xE2, CHR 0x80, CHR 0xA8] then unicode_escape 0x2028
      else if has_prefix s [CHR 0xE2, CHR 0x80, CHR 0xA9] then unicode_escape 0x2029
      else take (rune_size s) s)"

lemma escape_string_front:
  assumes "s \<noteq> []" and "rune_size s \<noteq> 0"
  shows "escape_string s = escaped_front s @ escape_string (drop (rune_size s) s)"
proof -
  obtain c cs where s: "s = c # cs" using assms(1) by (cases s) auto
  have sep: "drop 2 cs = drop (rune_size s) s"
    if "has_prefix s [CHR 0xE2, CHR 0x80, CHR 0xA8] \<or> has_prefix s [CHR 0xE2, CHR 0x80, CHR 0xA9]"
    using that separator_size(1) [of s] s by auto
  show ?thesis
    using assms(2) s sep by (subst escape_string.simps) (auto simp: escaped_front_def)
qed

lemma unquote_front:
  assumes "s \<noteq> []" and "rune_size s \<noteq> 0"
  shows "unquote (escaped_front s @ t) = prepend (take (rune_size s) s) (unquote t)"
proof -
  obtain c cs where s: "s = c # cs" using assms(1) by (cases s) auto
  consider (a) "in_range 0 0x7F c" | (b) x where "\<not> in_range 0 0x7F c" "has_prefix s [CHR 0xE2, CHR 0x80, x]" "x = CHR 0xA8 \<or> x = CHR 0xA9"
    | (c) "\<not> in_range 0 0x7F c" "\<not> has_prefix s [CHR 0xE2, CHR 0x80, CHR 0xA8]" "\<not> has_prefix s [CHR 0xE2, CHR 0x80, CHR 0xA9]" by blast
  then show ?thesis
  proof cases
    case a
    then show ?thesis using s by (simp add: escaped_front_def unquote_ascii)
  next
    case (b x)
    note z = separator_size [OF b(2,3)]
    have "take (rune_size s) s = [CHR 0xE2, CHR 0x80, x]" using z by (metis append_eq_conv_conj length_Cons list.size(3) numeral_3_eq_3)
    moreover have "escaped_front s = unicode_escape (if x = CHR 0xA8 then 0x2028 else 0x2029)"
      using b s z(2) by (auto simp: escaped_front_def has_prefix_iff)
    ultimately show ?thesis using b(3) by (auto simp: unquote_unicode separator_runes)
  next
    case c
    then show ?thesis using unquote_rune [OF refl assms(2)] s by (simp add: escaped_front_def)
  qed
qed

lemma unquote_escape:
  assumes "valid_utf8 s"
  shows "unquote (escape_string s @ CHR 0x22 # r) = Some (s, r)"
  using assms
proof (induction s rule: valid_utf8.induct)
  case (1 s)
  show ?case
  proof (cases "s = []")
    case True
    then show ?thesis by (subst escape_string.simps, subst unquote.simps) simp
  next
    case False
    with "1.prems" have v: "rune_size s \<noteq> 0" "valid_utf8 (drop (rune_size s) s)"
      by (auto simp: valid_utf8.simps [of s] split: if_splits)
    from "1.IH" [OF False v] show ?thesis
      by (simp add: escape_string_front [OF False v(1)] unquote_front [OF False v(1)] prepend_def)
  qed
qed

subsection \<open>Numbers\<close>

definition ends_value :: "string \<Rightarrow> bool" where
  "ends_value r \<longleftrightarrow> r = [] \<or> hd r = CHR '','' \<or> hd r = CHR '']'' \<or> hd r = CHR ''}''"

lemma ends_value_not:
  "ends_value (c # r) \<Longrightarrow> \<not> is_digit c \<and> c \<noteq> CHR ''.'' \<and> c \<noteq> CHR ''e'' \<and> c \<noteq> CHR ''E'' \<and> \<not> json_space c"
  by (auto simp: ends_value_def is_digit_def json_space_def)

lemma digits_append:
  assumes "dropWhile is_digit s \<noteq> [] \<or> ends_value r"
  shows "takeWhile is_digit (s @ r) = takeWhile is_digit s" "dropWhile is_digit (s @ r) = dropWhile is_digit s @ r"
proof -
  have "takeWhile is_digit (s @ r) = takeWhile is_digit s \<and> dropWhile is_digit (s @ r) = dropWhile is_digit s @ r"
    using assms
  proof (induction s)
    case Nil
    then show ?case by (cases r) (auto dest: ends_value_not)
  qed auto
  then show "takeWhile is_digit (s @ r) = takeWhile is_digit s" "dropWhile is_digit (s @ r) = dropWhile is_digit s @ r" by auto
qed

lemma parts_append:
  assumes "b \<noteq> [] \<or> ends_value r"
  shows "digits_part p s = Some (a, b) \<Longrightarrow> digits_part p (s @ r) = Some (a, b @ r)"
    and "int_part s = Some (a, b) \<Longrightarrow> int_part (s @ r) = Some (a, b @ r)"
    and "frac_part s = Some (a, b) \<Longrightarrow> frac_part (s @ r) = Some (a, b @ r)"
    and "exp_part s = Some (a, b) \<Longrightarrow> exp_part (s @ r) = Some (a, b @ r)"
proof -
  have digits: "digits_part p (s @ r) = Some (a, b @ r)" if "digits_part p s = Some (a, b)" for p s
    using that assms digits_append [of s r] by (auto simp: digits_part_def split: if_splits)
  then show "digits_part p s = Some (a, b) \<Longrightarrow> digits_part p (s @ r) = Some (a, b @ r)" .
  have digits2: "digits_part p (x # s @ r) = Some (a, b @ r)" if "digits_part p (x # s) = Some (a, b)" for p x s
    using digits [OF that] by simp
  show "int_part s = Some (a, b) \<Longrightarrow> int_part (s @ r) = Some (a, b @ r)"
    using assms digits_append [of s r] by (cases s) (auto simp: int_part_def split: if_splits)
  have stop: "c \<noteq> CHR ''.'' \<and> c \<noteq> CHR ''e'' \<and> c \<noteq> CHR ''E''" if "r = c # t" "b = []" for c t
    using assms that ends_value_not by auto
  show "frac_part s = Some (a, b) \<Longrightarrow> frac_part (s @ r) = Some (a, b @ r)"
    using digits stop by (cases s; cases r) (auto simp: frac_part_def split: if_splits)
  show "exp_part s = Some (a, b) \<Longrightarrow> exp_part (s @ r) = Some (a, b @ r)"
    using digits digits2 stop by (cases s; cases r) (auto simp: exp_part_def split: if_splits list.splits)
qed

definition json_number :: "string \<Rightarrow> bool" where
  "json_number s \<longleftrightarrow> number_token s = Some (s, [])"

lemma number_append:
  assumes "json_number s" and "ends_value r"
  shows "number_token (s @ r) = Some (s, r)"
proof -
  obtain sg s1 where sg: "sign_part s = (sg, s1)" by (cases "sign_part s") auto
  from assms(1) sg obtain i s2 f s3 x where p: "int_part s1 = Some (i, s2)" "frac_part s2 = Some (f, s3)" "exp_part s3 = Some (x, [])"
    and s: "s = sg @ i @ f @ x"
    by (auto simp: json_number_def number_token_def split: option.splits)
  have "s1 \<noteq> []" using p(1) by (auto simp: int_part_def)
  then have "sign_part (s @ r) = (sg, s1 @ r)" using sg by (cases s) (auto simp: sign_part_def split: if_splits)
  moreover have "int_part (s1 @ r) = Some (i, s2 @ r)" "frac_part (s2 @ r) = Some (f, s3 @ r)" "exp_part (s3 @ r) = Some (x, r)"
    using parts_append(2) [OF _ p(1), of r] parts_append(3) [OF _ p(2), of r] parts_append(4) [OF _ p(3), of r] assms(2) by auto
  ultimately show ?thesis by (simp add: number_token_def s)
qed

lemma number_front:
  assumes "json_number s"
  obtains c t where "s = c # t" "c = CHR ''-'' \<or> is_digit c"
proof -
  obtain sg s1 where sg: "sign_part s = (sg, s1)" by (cases "sign_part s") auto
  with assms have "int_part s1 \<noteq> None" by (auto simp: json_number_def number_token_def split: option.splits)
  then obtain c t where "s1 = c # t" "is_digit c" by (cases s1) (auto simp: int_part_def is_digit_def split: if_splits)
  with sg show thesis using that by (cases s) (auto simp: sign_part_def split: if_splits)
qed

subsection \<open>Documents\<close>

fun json_wf :: "nat \<Rightarrow> json \<Rightarrow> bool" where
  "json_wf d (JNum n) = json_number n"
| "json_wf d (JStr s) = valid_utf8 s"
| "json_wf d (JArr vs) = (d \<noteq> 0 \<and> (\<forall>v \<in> set vs. json_wf (d - 1) v))"
| "json_wf d (JObj kvs) = (d \<noteq> 0 \<and> (\<forall>kv \<in> set kvs. valid_utf8 (fst kv) \<and> json_wf (d - 1) (snd kv)))"
| "json_wf d JNull = True"
| "json_wf d (JBool b) = True"

lemma skip_ws_plain: "\<not> json_space c \<Longrightarrow> skip_ws (c # s) = c # s"
  by (simp add: skip_ws_def)

lemma encode_ne: "json_wf d v \<Longrightarrow> encode_json v \<noteq> []"
  by (cases v) (auto simp: quote_string_def elim: number_front)

lemma parse_literals:
  "ends_value r \<Longrightarrow> parse_value (Suc n) d (''null'' @ r) = Some (JNull, r)"
  "ends_value r \<Longrightarrow> parse_value (Suc n) d (''true'' @ r) = Some (JBool True, r)"
  "ends_value r \<Longrightarrow> parse_value (Suc n) d (''false'' @ r) = Some (JBool False, r)"
  by (simp_all add: skip_ws_plain json_space_def)

lemma parse_string_value:
  assumes "valid_utf8 s"
  shows "parse_value (Suc n) d (quote_string s @ r) = Some (JStr s, r)"
  using unquote_escape [OF assms] by (simp add: quote_string_def skip_ws_plain json_space_def)

lemma parse_number_value:
  assumes "json_number s" and "ends_value r"
  shows "parse_value (Suc n) d (s @ r) = Some (JNum s, r)"
proof -
  obtain c t where c: "s = c # t" "c = CHR ''-'' \<or> is_digit c" by (rule number_front [OF assms(1)])
  then have "c \<noteq> CHR 0x22" "c \<noteq> CHR ''[''" "c \<noteq> CHR ''{''" "c \<noteq> CHR ''t''" "c \<noteq> CHR ''f''" "c \<noteq> CHR ''n''" "\<not> json_space c"
    by (auto simp: is_digit_def json_space_def)
  then show ?thesis using number_append [OF assms] c by (simp add: skip_ws_plain)
qed

text \<open>The first byte of a value closes nothing.\<close>

lemma encode_front:
  assumes "json_wf d v"
  obtains c t where "encode_json v = c # t" "\<not> json_space c" "c \<noteq> CHR '']''" "c \<noteq> CHR ''}''"
proof (cases v)
  case (JNum n)
  with assms obtain c t where "n = c # t" "c = CHR ''-'' \<or> is_digit c" by (auto elim: number_front)
  moreover from this have "\<not> json_space c" "c \<noteq> CHR '']''" "c \<noteq> CHR ''}''" by (auto simp: is_digit_def json_space_def)
  ultimately show ?thesis using JNum that by simp
next
  case (JBool b)
  then show ?thesis using that by (cases b) (auto simp: json_space_def)
qed (use that in \<open>auto simp: quote_string_def json_space_def split: if_splits\<close>)

lemma parse_encode:
  "json_wf d v \<Longrightarrow> ends_value r \<Longrightarrow> 2 * length (encode_json v) + 1 \<le> n \<Longrightarrow>
     parse_value n d (encode_json v @ r) = Some (v, r)"
  "vs \<noteq> [] \<Longrightarrow> \<forall>v \<in> set vs. json_wf d v \<Longrightarrow> 2 * length (encode_elems vs) + 2 \<le> n \<Longrightarrow>
     parse_elems n d (encode_elems vs @ CHR '']'' # r) = Some (vs, r)"
  "kvs \<noteq> [] \<Longrightarrow> \<forall>kv \<in> set kvs. valid_utf8 (fst kv) \<and> json_wf d (snd kv) \<Longrightarrow> 2 * length (encode_members kvs) + 2 \<le> n \<Longrightarrow>
     parse_members n d (encode_members kvs @ CHR ''}'' # r) = Some (kvs, r)"
proof (induction v and vs and kvs arbitrary: n d r and n d r and n d r rule: encode_json_encode_elems_encode_members.induct)
  case 1
  then obtain m where "n = Suc m" by (cases n) auto
  with 1 show ?case using parse_literals(1) by (metis encode_json.simps(1))
next
  case (2 b)
  then obtain m where "n = Suc m" by (cases n) auto
  with 2 show ?case using parse_literals(2,3) by (cases b) (metis encode_json.simps(2))+
next
  case (3 s)
  then obtain m where "n = Suc m" by (cases n) auto
  with 3 show ?case by (simp only: encode_json.simps json_wf.simps parse_number_value)
next
  case (4 s)
  then obtain m where "n = Suc m" by (cases n) auto
  with 4 show ?case by (simp only: encode_json.simps json_wf.simps parse_string_value)
next
  case (5 vs)
  then obtain m where n: "n = Suc m" by (cases n) auto
  from 5 have wf: "d \<noteq> 0" "\<forall>v \<in> set vs. json_wf (d - 1) v" by auto
  show ?case
  proof (cases vs)
    case Nil
    then show ?thesis using n wf(1) by (simp add: skip_ws_plain json_space_def)
  next
    case (Cons w ws)
    then have "json_wf (d - 1) w" using wf(2) by simp
    then obtain c t where "encode_json w = c # t" and ct: "\<not> json_space c" "c \<noteq> CHR '']''" by (rule encode_front)
    then obtain t where c: "encode_elems vs = c # t" using Cons by simp
    have "parse_elems m (d - 1) (encode_elems vs @ CHR '']'' # r) = Some (vs, r)"
      using 5 wf Cons n by (intro "5.IH") auto
    then show ?thesis using n wf(1) c ct by (simp add: skip_ws_plain json_space_def)
  qed
next
  case (6 kvs)
  then obtain m where n: "n = Suc m" by (cases n) auto
  from 6 have wf: "d \<noteq> 0" "\<forall>kv \<in> set kvs. valid_utf8 (fst kv) \<and> json_wf (d - 1) (snd kv)" by auto
  show ?case
  proof (cases kvs)
    case Nil
    then show ?thesis using n wf(1) by (simp add: skip_ws_plain json_space_def)
  next
    case (Cons w ws)
    then obtain t where c: "encode_members kvs = CHR 0x22 # t" by (cases w) (auto simp: quote_string_def)
    have "parse_members m (d - 1) (encode_members kvs @ CHR ''}'' # r) = Some (kvs, r)"
      using 6 wf Cons n by (intro "6.IH") auto
    then show ?thesis using n wf(1) c by (simp add: skip_ws_plain json_space_def)
  qed
next
  case 7
  then show ?case by simp
next
  case (8 v vs)
  then obtain m where n: "n = Suc m" by (cases n) auto
  show ?case
  proof (cases "vs = []")
    case True
    have "parse_value m d (encode_json v @ CHR '']'' # r) = Some (v, CHR '']'' # r)"
      using 8 n True by (intro "8.IH"(1)) (auto simp: ends_value_def)
    then show ?thesis using n True by (simp add: skip_ws_plain json_space_def)
  next
    case False
    have "encode_json v \<noteq> []" using 8 encode_ne by auto
    then have "parse_elems m d (encode_elems vs @ CHR '']'' # r) = Some (vs, r)"
      using 8 n False by (intro "8.IH"(2)) (auto simp: Suc_le_eq)
    moreover have "parse_value m d (encode_json v @ CHR '','' # encode_elems vs @ CHR '']'' # r) =
        Some (v, CHR '','' # encode_elems vs @ CHR '']'' # r)"
      using 8 n False by (intro "8.IH"(1)) (auto simp: ends_value_def)
    ultimately show ?thesis using n False by (simp add: skip_ws_plain json_space_def)
  qed
next
  case 9
  then show ?case by simp
next
  case (10 k v kvs)
  then obtain m where n: "n = Suc m" by (cases n) auto
  have key: "parse_members (Suc m) d (quote_string k @ CHR '':'' # x) =
      (case parse_value m d x of None \<Rightarrow> None | Some (v, r) \<Rightarrow>
         (case skip_ws r of [] \<Rightarrow> None
          | x # t \<Rightarrow> if x = CHR ''}'' then Some ([(k, v)], t)
                     else if x = CHR '','' then map_option (\<lambda>(vs, r). ((k, v) # vs, r)) (parse_members m d t) else None))" for x
    using unquote_escape [of k "CHR '':'' # x"] 10 by (simp add: quote_string_def skip_ws_plain json_space_def)
  show ?case
  proof (cases "kvs = []")
    case True
    have "parse_value m d (encode_json v @ CHR ''}'' # r) = Some (v, CHR ''}'' # r)"
      using 10 n True by (intro "10.IH"(1)) (auto simp: ends_value_def)
    then show ?thesis using n True key [of "encode_json v @ CHR ''}'' # r"] by (simp add: skip_ws_plain json_space_def)
  next
    case False
    have "parse_members m d (encode_members kvs @ CHR ''}'' # r) = Some (kvs, r)"
      using 10 n False by (intro "10.IH"(2)) auto
    moreover have "parse_value m d (encode_json v @ CHR '','' # encode_members kvs @ CHR ''}'' # r) =
        Some (v, CHR '','' # encode_members kvs @ CHR ''}'' # r)"
      using 10 n False by (intro "10.IH"(1)) (auto simp: ends_value_def)
    ultimately show ?thesis using n False key [of "encode_json v @ CHR '','' # encode_members kvs @ CHR ''}'' # r"]
      by (simp add: skip_ws_plain json_space_def)
  qed
qed

subsection \<open>What the parser returns\<close>

lemma valid_utf8_rune:
  assumes "rune_size s = k" and "k \<noteq> 0"
  shows "valid_utf8 (take k s @ t) = valid_utf8 t"
proof -
  have "take k s \<noteq> []" using rune_size_take(2) [OF assms] assms(2) by auto
  then show ?thesis using rune_size_take [OF assms] assms(2) by (subst valid_utf8.simps) simp
qed

lemma char_code: "(c = CHR 0xE0) = (of_char c = (0xE0 :: nat))" "(c = CHR 0xF0) = (of_char c = (0xF0 :: nat))"
  "(c = CHR 0xED) = (of_char c = (0xED :: nat))" "(c = CHR 0xF4) = (of_char c = (0xF4 :: nat))"
proof -
  have code: "(c = d) = (of_char c = (of_char d :: nat))" for d by simp
  show "(c = CHR 0xE0) = (of_char c = (0xE0 :: nat))" "(c = CHR 0xF0) = (of_char c = (0xF0 :: nat))"
    "(c = CHR 0xED) = (of_char c = (0xED :: nat))" "(c = CHR 0xF4) = (of_char c = (0xF4 :: nat))"
    unfolding code by simp_all
qed

lemma rune_size_codes:
  fixes x y z w :: nat
  assumes "x < 256" "y < 64" "z < 64" "w < 64"
  shows "x < 128 \<Longrightarrow> rune_size [char_of x] = 1"
    and "0xC2 \<le> x \<Longrightarrow> x \<le> 0xDF \<Longrightarrow> rune_size [char_of x, char_of (0x80 + y)] = 2"
    and "0xE0 \<le> x \<Longrightarrow> x \<le> 0xEF \<Longrightarrow> (x = 0xE0 \<longrightarrow> 0x20 \<le> y) \<Longrightarrow> (x = 0xED \<longrightarrow> y < 0x20) \<Longrightarrow>
      rune_size [char_of x, char_of (0x80 + y), char_of (0x80 + z)] = 3"
    and "0xF0 \<le> x \<Longrightarrow> x \<le> 0xF4 \<Longrightarrow> (x = 0xF0 \<longrightarrow> 0x10 \<le> y) \<Longrightarrow> (x = 0xF4 \<longrightarrow> y < 0x10) \<Longrightarrow>
      rune_size [char_of x, char_of (0x80 + y), char_of (0x80 + z), char_of (0x80 + w)] = 4"
  using assms by (auto simp: rune_size_def lead_size_def in_range_def rune_ok_def second_ok_def char_code)

lemma rune_size_encode:
  assumes "n < 0x110000" and "n < 0xD800 \<or> n > 0xDFFF"
  shows "rune_size (encode_rune n) = length (encode_rune n)"
proof -
  define y z x where "y = n div 64" and "z = y div 64" and "x = z div 64"
  have d: "n div 4096 = z" "n div 262144 = x" by (simp_all add: x_def y_def z_def div_mult2_eq [symmetric])
  have e: "n = 64 * y + n mod 64" "y = 64 * z + y mod 64" "z = 64 * x + z mod 64" by (simp_all add: x_def y_def z_def)
  have m: "y mod 64 < 64" "n mod 64 < 64" "z mod 64 < 64" by simp_all
  consider "n < 0x80" | "0x80 \<le> n" "n < 0x800" | "0x800 \<le> n" "n < 0x10000" | "0x10000 \<le> n" by linarith
  then show ?thesis
  proof cases
    case 1
    then show ?thesis using rune_size_codes(1) [of n 0 0 0] by (simp add: encode_rune_def)
  next
    case 2
    have "2 \<le> y" "y < 32" using 2 e m by linarith+
    then show ?thesis using 2 m rune_size_codes(2) [of "0xC0 + y" "n mod 64" 0 0] by (simp add: encode_rune_def y_def [symmetric])
  next
    case 3
    have "z < 16" "z = 0 \<Longrightarrow> 32 \<le> y mod 64" "z = 13 \<Longrightarrow> y mod 64 < 32" using 3 e m assms by linarith+
    then show ?thesis using 3 m rune_size_codes(3) [of "0xE0 + z" "y mod 64" "n mod 64" 0]
      by (simp add: encode_rune_def y_def [symmetric] d)
  next
    case 4
    have "x \<le> 4" "x = 0 \<Longrightarrow> 16 \<le> z mod 64" "x = 4 \<Longrightarrow> z mod 64 < 16" using 4 e m assms by linarith+
    then show ?thesis using 4 m rune_size_codes(4) [of "0xF0 + x" "z mod 64" "y mod 64" "n mod 64"]
      by (simp add: encode_rune_def y_def [symmetric] d)
  qed
qed

lemma encode_rune_utf8:
  assumes "n < 0x110000" and "n < 0xD800 \<or> n > 0xDFFF"
  shows "valid_utf8 (encode_rune n @ t) = valid_utf8 t"
proof -
  have "length (encode_rune n) \<noteq> 0" by (simp add: encode_rune_def)
  from valid_utf8_rune [OF rune_size_encode [OF assms] this] show ?thesis by simp
qed

lemma hex_value_bound: "hex_value c = Some n \<Longrightarrow> n < 16"
  by (auto simp: hex_value_def Let_def split: if_splits)

lemma hex4_bound: "hex4 s = Some (n, r) \<Longrightarrow> n < 65536"
  by (force simp: hex4_def split: list.splits option.splits dest!: hex_value_bound)

lemma escaped_rune_scalar:
  assumes "escaped_rune s = Some (n, r)"
  shows "n < 0x110000 \<and> (n < 0xD800 \<or> n > 0xDFFF)"
  using assms
  by (force simp: escaped_rune_def split: option.splits if_splits dest: hex4_bound)

lemma prepend_Some: "prepend p m = Some (v, r) \<longleftrightarrow> (\<exists>w. m = Some (w, r) \<and> v = p @ w)"
  by (auto simp: prepend_def split: option.splits)

lemma simple_escape_ascii: "simple_escape e = Some x \<Longrightarrow> in_range 0 0x7F x"
  by (auto simp: simple_escape_def in_range_def split: if_splits)

lemma valid_utf8_ascii: "in_range 0 0x7F c \<Longrightarrow> valid_utf8 (c # t) = valid_utf8 t"
  by (subst valid_utf8.simps) simp

lemma valid_utf8_replacement: "valid_utf8 (replacement_char @ t) = valid_utf8 t"
proof -
  have "rune_size (replacement_char @ t) = 3"
    by (simp add: replacement_char_def rune_size_def lead_size_def rune_ok_def second_ok_def in_range_def)
  then show ?thesis by (subst valid_utf8.simps) (simp add: replacement_char_def)
qed

lemma unquote_utf8: "unquote s = Some (v, r) \<Longrightarrow> valid_utf8 v"
proof (induction s arbitrary: v r rule: unquote.induct)
  case (1 s)
  from "1.prems" obtain c cs where s: "s = c # cs" by (subst (asm) unquote.simps) (cases s; simp)
  consider "c = CHR 0x22" | "c \<noteq> CHR 0x22" "\<not> in_range 0 0x1F c" "c = CHR 0x5C"
    | "c \<noteq> CHR 0x22" "\<not> in_range 0 0x1F c" "c \<noteq> CHR 0x5C" "rune_size s = 0"
    | "c \<noteq> CHR 0x22" "\<not> in_range 0 0x1F c" "c \<noteq> CHR 0x5C" "rune_size s \<noteq> 0"
    using "1.prems" s by (subst (asm) unquote.simps) (auto split: if_splits)
  then show ?case
  proof cases
    case 1
    then show ?thesis using "1.prems" s by (subst (asm) unquote.simps) auto
  next
    case 2
    then show ?thesis using "1.prems" "1.IH"(1,2) s
      by (subst (asm) unquote.simps)
        (fastforce simp: prepend_Some valid_utf8_ascii simple_escape_ascii encode_rune_utf8
          split: list.splits if_splits option.splits dest: escaped_rune_scalar)
  next
    case 3
    then show ?thesis using "1.prems" "1.IH"(3) s
      by (subst (asm) unquote.simps) (auto simp: prepend_Some valid_utf8_replacement)
  next
    case 4
    then show ?thesis using "1.prems" "1.IH"(4) s
      by (subst (asm) unquote.simps) (auto simp: prepend_Some valid_utf8_rune)
  qed
qed

lemma digits_part_again:
  assumes "digits_part p s = Some (a, b)" and "r = [] \<or> \<not> is_digit (hd r)"
  shows "\<exists>w. a = p @ w \<and> w \<noteq> [] \<and> digits_part p (w @ r) = Some (a, r) \<and> is_digit (hd w)"
proof -
  let ?w = "takeWhile is_digit s"
  have w: "?w \<noteq> []" "a = p @ ?w" using assms(1) by (auto simp: digits_part_def split: if_splits)
  have all: "\<forall>c \<in> set ?w. is_digit c" by (auto dest: set_takeWhileD)
  have "takeWhile is_digit (?w @ r) = ?w" "dropWhile is_digit (?w @ r) = r"
    using all assms(2) by (cases r; simp add: takeWhile_append2 dropWhile_append2)+
  then show ?thesis using w all by (intro exI [of _ ?w]) (auto simp: digits_part_def)
qed

lemma exp_part_again: "exp_part s = Some (x, b) \<Longrightarrow> exp_part x = Some (x, []) \<and> (x = [] \<or> hd x = CHR ''e'' \<or> hd x = CHR ''E'')"
proof -
  assume run: "exp_part s = Some (x, b)"
  show ?thesis
  proof (cases "x = []")
    case True
    then show ?thesis by (simp add: exp_part_def)
  next
    case False
    with run obtain c r where s: "s = c # r" "c = CHR ''e'' \<or> c = CHR ''E''" by (auto simp: exp_part_def split: list.splits if_splits)
    with run obtain g t where r: "r = g # t" by (auto simp: exp_part_def split: list.splits)
    show ?thesis
    proof (cases "g = CHR ''+'' \<or> g = CHR ''-''")
      case True
      with run s r have "digits_part [c, g] t = Some (x, b)" by (simp add: exp_part_def)
      from digits_part_again [OF this, of "[]"] obtain w where "x = [c, g] @ w" "digits_part [c, g] w = Some (x, [])" by auto
      then show ?thesis using s True by (auto simp: exp_part_def)
    next
      case False
      with run s r have "digits_part [c] (g # t) = Some (x, b)" by (simp add: exp_part_def)
      from digits_part_again [OF this, of "[]"] obtain w where w: "x = [c] @ w" "w \<noteq> []" "digits_part [c] w = Some (x, [])" "is_digit (hd w)" by auto
      then have "hd w \<noteq> CHR ''+''" "hd w \<noteq> CHR ''-''" by (auto simp: is_digit_def)
      then show ?thesis using w s by (cases w) (auto simp: exp_part_def)
    qed
  qed
qed

lemma frac_part_again:
  assumes "frac_part s = Some (f, b)" and "x = [] \<or> hd x = CHR ''e'' \<or> hd x = CHR ''E''"
  shows "frac_part (f @ x) = Some (f, x) \<and> (f @ x = [] \<or> \<not> is_digit (hd (f @ x)))"
proof (cases "f = []")
  case True
  then show ?thesis using assms(2) by (cases x) (auto simp: frac_part_def is_digit_def)
next
  case False
  with assms(1) obtain r where "digits_part ''.'' r = Some (f, b)" by (auto simp: frac_part_def split: list.splits if_splits)
  from digits_part_again [OF this, of x] assms(2) obtain w where "f = ''.'' @ w" "digits_part ''.'' (w @ x) = Some (f, x)"
    by (auto simp: is_digit_def)
  then show ?thesis by (auto simp: frac_part_def is_digit_def)
qed

lemma int_part_again:
  assumes "int_part s = Some (i, b)" and "r = [] \<or> \<not> is_digit (hd r)"
  shows "int_part (i @ r) = Some (i, r) \<and> i \<noteq> [] \<and> is_digit (hd i)"
proof -
  from assms(1) obtain c t where s: "s = c # t" by (auto simp: int_part_def split: list.splits)
  show ?thesis
  proof (cases "c = CHR ''0''")
    case True
    then show ?thesis using assms s by (auto simp: int_part_def is_digit_def)
  next
    case False
    then have c: "is_digit c" "i = c # takeWhile is_digit t" using assms(1) s by (auto simp: int_part_def split: if_splits)
    have "\<forall>c \<in> set (takeWhile is_digit t). is_digit c" by (auto dest: set_takeWhileD)
    then have "takeWhile is_digit (takeWhile is_digit t @ r) = takeWhile is_digit t" "dropWhile is_digit (takeWhile is_digit t @ r) = r"
      using assms(2) by (cases r; simp add: takeWhile_append2 dropWhile_append2)+
    then show ?thesis using c False by (simp add: int_part_def)
  qed
qed

lemma number_token_number:
  assumes "number_token s = Some (v, r)"
  shows "json_number v"
proof -
  obtain sg s1 where sg: "sign_part s = (sg, s1)" by (cases "sign_part s") auto
  with assms obtain i s2 f s3 x where p: "int_part s1 = Some (i, s2)" "frac_part s2 = Some (f, s3)" "exp_part s3 = Some (x, r)"
    and v: "v = sg @ i @ f @ x"
    by (auto simp: number_token_def split: option.splits)
  note x = exp_part_again [OF p(3)]
  note f = frac_part_again [OF p(2) conjunct2 [OF x]]
  note i = int_part_again [OF p(1) conjunct2 [OF f]]
  have "sign_part v = (sg, i @ f @ x)"
  proof (cases "sg = []")
    case True
    have "hd i \<noteq> CHR ''-''" using i by (auto simp: is_digit_def)
    then show ?thesis using True v i by (cases i) (auto simp: sign_part_def)
  next
    case False
    then have "sg = ''-''" using sg by (auto simp: sign_part_def split: list.splits if_splits)
    then show ?thesis using v by (simp add: sign_part_def)
  qed
  then show ?thesis using v x f i by (simp add: json_number_def number_token_def)
qed

lemma parse_wf:
  "parse_value n d s = Some (v, r) \<Longrightarrow> json_wf d v"
  "parse_elems n d s = Some (vs, r) \<Longrightarrow> \<forall>v \<in> set vs. json_wf d v"
  "parse_members n d s = Some (kvs, r) \<Longrightarrow> \<forall>kv \<in> set kvs. valid_utf8 (fst kv) \<and> json_wf d (snd kv)"
proof (induction n d s and n d s and n d s arbitrary: v r and vs r and kvs r rule: parse_value_parse_elems_parse_members.induct)
  case (2 n d s)
  then show ?case
    by (auto split: list.splits if_splits simp: unquote_utf8 number_token_number)
next
  case (4 n d s)
  then show ?case by (auto split: option.splits list.splits if_splits)
next
  case (6 n d s)
  from "6.prems" obtain s1 k s2 s3 v' r' x t where
      p: "skip_ws s = CHR 0x22 # s1" "unquote s1 = Some (k, s2)" "skip_ws s2 = CHR '':'' # s3" "parse_value n d s3 = Some (v', r')"
        "skip_ws r' = x # t"
      and x: "x = CHR ''}'' \<and> kvs = [(k, v')] \<or> x \<noteq> CHR ''}'' \<and> x = CHR '','' \<and> (\<exists>w. parse_members n d t = Some (w, r) \<and> kvs = (k, v') # w)"
    by (auto split: option.splits list.splits if_splits)
  have "valid_utf8 k" using p(2) by (rule unquote_utf8)
  moreover have "json_wf d v'" using p "6.IH"(1) [OF p(1) _ p(2) _ p(3) _ p(4)] by simp
  ultimately show ?case
    using x "6.IH"(2) [OF p(1) _ p(2) _ p(3) _ p(4) _ p(5)] by fastforce
qed simp_all

lemma keep_last_set: "set (keep_last kvs) \<subseteq> set kvs"
  by (induction kvs rule: keep_last.induct) auto

lemma normalize_wf: "json_wf d v \<Longrightarrow> json_wf d (json_normalize v)"
proof (induction v arbitrary: d)
  case (JObj kvs)
  then show ?case using keep_last_set [of "map (\<lambda>kv. (fst kv, json_normalize (snd kv))) kvs"] by fastforce
qed auto

lemma decode_encode:
  assumes "json_wf max_nesting v"
  shows "decode_json (encode_json v) = Some v"
  using parse_encode(1) [OF assms, of "[]" "2 * length (encode_json v) + 2"]
  by (simp add: decode_json_def ends_value_def skip_ws_def)

lemma decode_wf: "decode_json s = Some v \<Longrightarrow> json_wf max_nesting v"
  by (auto simp: decode_json_def simp del: parse_value.simps split: option.splits if_splits intro: parse_wf)

subsection \<open>The nesting scan\<close>

text \<open>
  The scan that bounds the nesting reads bytes, not values. On the text the parser accepts for a value
  it fails exactly when an array or object of the value lies too deep, and goes on at the old level.
\<close>

fun json_fits :: "int \<Rightarrow> json \<Rightarrow> bool" where
  "json_fits k (JArr vs) = (k + 1 \<le> int MaxJSONNestingDepth \<and> (\<forall>v \<in> set vs. json_fits (k + 1) v))"
| "json_fits k (JObj kvs) = (k + 1 \<le> int MaxJSONNestingDepth \<and> (\<forall>kv \<in> set kvs. json_fits (k + 1) (snd kv)))"
| "json_fits k v = True"

definition quiet :: "char \<Rightarrow> bool" where
  "quiet c \<longleftrightarrow> c \<noteq> CHR 0x22 \<and> c \<noteq> CHR 0x5C"

definition flat :: "char \<Rightarrow> bool" where
  "flat c \<longleftrightarrow> c \<noteq> CHR 0x22 \<and> c \<noteq> CHR ''{'' \<and> c \<noteq> CHR ''['' \<and> c \<noteq> CHR ''}'' \<and> c \<noteq> CHR '']''"

lemma scan_quiet: "list_all quiet w \<Longrightarrow> nesting_ok k True False (w @ t) = nesting_ok k True False t"
  by (induction w) (auto simp: quiet_def)

lemma scan_flat: "list_all flat w \<Longrightarrow> nesting_ok k False False (w @ t) = nesting_ok k False False t"
  by (induction w) (auto simp: flat_def)

lemma scan_ws: "nesting_ok k False False (skip_ws s) = nesting_ok k False False s"
proof -
  have "list_all flat (takeWhile json_space s)" by (auto simp: list_all_iff flat_def json_space_def dest: set_takeWhileD)
  from scan_flat [OF this, of k "skip_ws s"] show ?thesis by (simp add: skip_ws_def)
qed

lemma hex_value_quiet: "hex_value c = Some n \<Longrightarrow> quiet c"
  by (auto simp: hex_value_def quiet_def)

lemma hex4_split: "hex4 s = Some (n, r) \<Longrightarrow> \<exists>w. s = w @ r \<and> list_all quiet w"
  by (auto simp: hex4_def split: list.splits option.splits intro!: exI [of _ "[_, _, _, _]"] dest: hex_value_quiet)

lemma scan_escaped:
  assumes "escaped_rune s = Some (n, r)"
  shows "nesting_ok k True False s = nesting_ok k True False r"
proof -
  obtain m t where h: "hex4 s = Some (m, t)" using assms by (auto simp: escaped_rune_def split: option.splits)
  then have s: "nesting_ok k True False s = nesting_ok k True False t" using hex4_split scan_quiet by blast
  show ?thesis
  proof (cases "r = t")
    case False
    with assms h obtain u j where "t = [CHR 0x5C, CHR ''u''] @ u" "hex4 u = Some (j, r)"
      by (auto simp: escaped_rune_def strip_prefix_eq split: option.splits if_splits)
    then show ?thesis using s hex4_split scan_quiet by fastforce
  qed (use s in simp)
qed

lemma rune_bytes_quiet:
  assumes "rune_size s = k" and "k \<noteq> 0" and "quiet (hd s)"
  shows "list_all quiet (take k s)"
proof -
  obtain a r where s: "s = a # r" using assms by (cases s) (auto simp: rune_size_def)
  with assms have ok: "rune_ok (take k s)" by (auto simp: rune_size_def Let_def split: if_splits)
  have high: "quiet c" if "0x80 \<le> (of_char c :: nat)" for c using that by (auto simp: quiet_def)
  have "second_ok a c \<Longrightarrow> quiet c" for c by (rule high) (auto simp: second_ok_def in_range_def split: if_splits)
  moreover have "in_range 0x80 0xBF c \<Longrightarrow> quiet c" for c by (rule high) (simp add: in_range_def)
  ultimately show ?thesis using ok assms(3) s
    by (cases k) (auto simp: rune_ok_def list_all_iff split: list.splits)
qed

lemma scan_string: "unquote s = Some (v, r) \<Longrightarrow> nesting_ok k True False s = nesting_ok k False False r"
proof (induction s arbitrary: v rule: unquote.induct)
  case (1 s)
  from "1.prems" obtain c cs where s: "s = c # cs" by (subst (asm) unquote.simps) (cases s; simp)
  consider "c = CHR 0x22" | "c \<noteq> CHR 0x22" "\<not> in_range 0 0x1F c" "c = CHR 0x5C"
    | "c \<noteq> CHR 0x22" "\<not> in_range 0 0x1F c" "c \<noteq> CHR 0x5C" "rune_size s = 0"
    | "c \<noteq> CHR 0x22" "\<not> in_range 0 0x1F c" "c \<noteq> CHR 0x5C" "rune_size s \<noteq> 0"
    using "1.prems" s by (subst (asm) unquote.simps) (auto split: if_splits)
  then show ?case
  proof cases
    case 1
    then show ?thesis using "1.prems" s by (subst (asm) unquote.simps) auto
  next
    case 2
    then show ?thesis using "1.prems" "1.IH"(1,2) s
      by (subst (asm) unquote.simps)
        (fastforce simp: prepend_Some split: list.splits if_splits option.splits dest: scan_escaped [of _ _ _ k])
  next
    case 3
    then show ?thesis using "1.prems" "1.IH"(3) s
      by (subst (asm) unquote.simps) (auto simp: prepend_Some)
  next
    case 4
    then have "nesting_ok k True False s = nesting_ok k True False (drop (rune_size s) s)"
      using scan_quiet [OF rune_bytes_quiet [OF refl 4(4)], of k "drop (rune_size s) s"] s by (simp add: quiet_def)
    then show ?thesis using 4 "1.prems" "1.IH"(4) s
      by (subst (asm) unquote.simps) (auto simp: prepend_Some)
  qed
qed

lemma digit_flat: "is_digit c \<Longrightarrow> flat c"
  by (auto simp: is_digit_def flat_def)

lemma digits_flat: "list_all flat (takeWhile is_digit s)"
  by (auto simp: list_all_iff intro: digit_flat dest: set_takeWhileD)

lemma digits_split:
  "digits_part p s = Some (a, b) \<Longrightarrow> list_all flat p \<Longrightarrow> p @ s = a @ b \<and> list_all flat a"
  by (auto simp: digits_part_def digits_flat split: if_splits)

lemma exp_split:
  assumes "exp_part s = Some (x, r)"
  shows "s = x @ r \<and> list_all flat x"
proof (cases "s \<noteq> [] \<and> (hd s = CHR ''e'' \<or> hd s = CHR ''E'')")
  case True
  then obtain c t where s: "s = c # t" "c = CHR ''e'' \<or> c = CHR ''E''" by (cases s) auto
  then have c: "flat c" by (auto simp: flat_def)
  from assms s obtain g u where t: "t = g # u" by (auto simp: exp_part_def split: list.splits)
  show ?thesis
  proof (cases "g = CHR ''+'' \<or> g = CHR ''-''")
    case True
    then have "flat g" by (auto simp: flat_def)
    then show ?thesis using assms s t True c digits_split [of "[c, g]" u x r] by (simp add: exp_part_def)
  next
    case False
    then show ?thesis using assms s t c digits_split [of "[c]" t x r] by (simp add: exp_part_def)
  qed
next
  case False
  then show ?thesis using assms by (auto simp: exp_part_def split: list.splits)
qed

lemma number_split:
  assumes "number_token s = Some (v, r)"
  shows "s = v @ r \<and> list_all flat v"
proof -
  obtain sg s1 where sg: "sign_part s = (sg, s1)" by (cases "sign_part s") auto
  with assms obtain i s2 f s3 x where p: "int_part s1 = Some (i, s2)" "frac_part s2 = Some (f, s3)" "exp_part s3 = Some (x, r)"
    and v: "v = sg @ i @ f @ x"
    by (auto simp: number_token_def split: option.splits)
  have "s = sg @ s1 \<and> list_all flat sg" using sg by (auto simp: sign_part_def flat_def split: list.splits if_splits)
  moreover have "s1 = i @ s2 \<and> list_all flat i"
    using p(1) digit_flat [of "CHR ''0''"] by (auto simp: int_part_def digits_flat digit_flat is_digit_def [of "CHR ''0''"] split: list.splits if_splits)
  moreover have "s2 = f @ s3 \<and> list_all flat f"
    using p(2) digits_split [of "''.''" _ f s3] by (auto simp: frac_part_def flat_def split: list.splits if_splits)
  ultimately show ?thesis using v exp_split [OF p(3)] by simp
qed

lemma parse_ws: "parse_value n d (skip_ws s) = parse_value n d s"
  by (cases n) (simp_all add: skip_ws_def)

lemma scan_array:
  assumes "parse_value (Suc n) d (CHR ''['' # cs) = Some (v, r)"
    and elems: "\<And>s vs r k. parse_elems n (d - 1) s = Some (vs, r) \<Longrightarrow>
      nesting_ok (k + 1) False False s \<longleftrightarrow> (\<forall>v \<in> set vs. json_fits (k + 1) v) \<and> nesting_ok k False False r"
  shows "nesting_ok k False False (CHR ''['' # cs) \<longleftrightarrow> json_fits k v \<and> nesting_ok k False False r"
proof -
  from assms(1) obtain x t where d: "d \<noteq> 0" "skip_ws cs = x # t"
      and x: "x = CHR '']'' \<and> v = JArr [] \<and> t = r \<or> x \<noteq> CHR '']'' \<and> (\<exists>vs. v = JArr vs \<and> parse_elems n (d - 1) cs = Some (vs, r))"
    by (auto simp: skip_ws_plain json_space_def split: list.splits if_splits)
  from x show ?thesis
  proof
    assume e: "x = CHR '']'' \<and> v = JArr [] \<and> t = r"
    then have "nesting_ok (k + 1) False False cs = nesting_ok k False False r" using scan_ws [of "k + 1" cs] d(2) by simp
    then show ?thesis using e by simp
  next
    assume "x \<noteq> CHR '']'' \<and> (\<exists>vs. v = JArr vs \<and> parse_elems n (d - 1) cs = Some (vs, r))"
    then show ?thesis using elems by auto
  qed
qed

lemma scan_object:
  assumes "parse_value (Suc n) d (CHR ''{'' # cs) = Some (v, r)"
    and members: "\<And>s kvs r k. parse_members n (d - 1) s = Some (kvs, r) \<Longrightarrow>
      nesting_ok (k + 1) False False s \<longleftrightarrow> (\<forall>kv \<in> set kvs. json_fits (k + 1) (snd kv)) \<and> nesting_ok k False False r"
  shows "nesting_ok k False False (CHR ''{'' # cs) \<longleftrightarrow> json_fits k v \<and> nesting_ok k False False r"
proof -
  from assms(1) obtain x t where d: "d \<noteq> 0" "skip_ws cs = x # t"
      and x: "x = CHR ''}'' \<and> v = JObj [] \<and> t = r \<or> x \<noteq> CHR ''}'' \<and> (\<exists>vs. v = JObj vs \<and> parse_members n (d - 1) cs = Some (vs, r))"
    by (auto simp: skip_ws_plain json_space_def split: list.splits if_splits)
  from x show ?thesis
  proof
    assume e: "x = CHR ''}'' \<and> v = JObj [] \<and> t = r"
    then have "nesting_ok (k + 1) False False cs = nesting_ok k False False r" using scan_ws [of "k + 1" cs] d(2) by simp
    then show ?thesis using e by simp
  next
    assume "x \<noteq> CHR ''}'' \<and> (\<exists>vs. v = JObj vs \<and> parse_members n (d - 1) cs = Some (vs, r))"
    then show ?thesis using members by auto
  qed
qed

lemma scan_value:
  assumes "parse_value (Suc n) d s = Some (v, r)"
    and elems: "\<And>s vs r k. parse_elems n (d - 1) s = Some (vs, r) \<Longrightarrow>
      nesting_ok (k + 1) False False s \<longleftrightarrow> (\<forall>v \<in> set vs. json_fits (k + 1) v) \<and> nesting_ok k False False r"
    and members: "\<And>s kvs r k. parse_members n (d - 1) s = Some (kvs, r) \<Longrightarrow>
      nesting_ok (k + 1) False False s \<longleftrightarrow> (\<forall>kv \<in> set kvs. json_fits (k + 1) (snd kv)) \<and> nesting_ok k False False r"
  shows "nesting_ok k False False s \<longleftrightarrow> json_fits k v \<and> nesting_ok k False False r"
proof -
  from assms(1) obtain c cs where c: "skip_ws s = c # cs" by (auto split: list.splits)
  have eq: "nesting_ok k False False s = nesting_ok k False False (c # cs)" using scan_ws [of k s] c by simp
  consider (str) "c = CHR 0x22" | (arr) "c = CHR ''[''" | (obj) "c = CHR ''{''" | (lit) "c = CHR ''t'' \<or> c = CHR ''f'' \<or> c = CHR ''n''"
    | (num) "c \<noteq> CHR 0x22" "c \<noteq> CHR ''[''" "c \<noteq> CHR ''{''" "c \<noteq> CHR ''t''" "c \<noteq> CHR ''f''" "c \<noteq> CHR ''n''" by blast
  then show ?thesis
  proof cases
    case str
    then show ?thesis using eq assms(1) c scan_string [of cs _ r k] by auto
  next
    case arr
    then show ?thesis using eq scan_array [of n d cs v r k] assms parse_ws [of "Suc n" d s] c by simp
  next
    case obj
    then show ?thesis using eq scan_object [of n d cs v r k] assms parse_ws [of "Suc n" d s] c by simp
  next
    case lit
    then obtain w where w: "w \<in> {''true'', ''false'', ''null''}" "c # cs = w @ r" "json_fits k v"
      using assms(1) c by (elim disjE) (force simp: strip_prefix_eq)+
    then have "list_all flat w" by (auto simp: flat_def)
    then show ?thesis using eq scan_flat [of w k r] w by simp
  next
    case num
    then obtain w where v: "v = JNum w" "number_token (c # cs) = Some (w, r)" using assms(1) c by auto
    from number_split [OF v(2)] show ?thesis using eq scan_flat [of w k r] v(1) by simp
  qed
qed

lemma scan_elems:
  assumes "parse_elems (Suc n) d s = Some (vs, r)"
    and val: "\<And>s v r k. parse_value n d s = Some (v, r) \<Longrightarrow> nesting_ok k False False s \<longleftrightarrow> json_fits k v \<and> nesting_ok k False False r"
    and elems: "\<And>s vs r k. parse_elems n d s = Some (vs, r) \<Longrightarrow>
      nesting_ok (k + 1) False False s \<longleftrightarrow> (\<forall>v \<in> set vs. json_fits (k + 1) v) \<and> nesting_ok k False False r"
  shows "nesting_ok (k + 1) False False s \<longleftrightarrow> (\<forall>v \<in> set vs. json_fits (k + 1) v) \<and> nesting_ok k False False r"
proof -
  from assms(1) obtain v r' x t where p: "parse_value n d s = Some (v, r')" "skip_ws r' = x # t"
      and x: "x = CHR '']'' \<and> vs = [v] \<and> t = r \<or> x \<noteq> CHR '']'' \<and> x = CHR '','' \<and> (\<exists>w. parse_elems n d t = Some (w, r) \<and> vs = v # w)"
    by (auto split: option.splits list.splits if_splits)
  have head: "nesting_ok (k + 1) False False s \<longleftrightarrow> json_fits (k + 1) v \<and> nesting_ok (k + 1) False False (x # t)"
    using val [OF p(1), of "k + 1"] scan_ws [of "k + 1" r'] p(2) by simp
  have rest: "nesting_ok (k + 1) False False t \<longleftrightarrow> (\<forall>v \<in> set w. json_fits (k + 1) v) \<and> nesting_ok k False False r"
    if "x \<noteq> CHR '']''" "x = CHR '',''" "parse_elems n d t = Some (w, r)" for w
    by (rule elems [OF that(3)])
  from x show ?thesis
  proof
    assume "x = CHR '']'' \<and> vs = [v] \<and> t = r"
    then show ?thesis using head by simp
  next
    assume "x \<noteq> CHR '']'' \<and> x = CHR '','' \<and> (\<exists>w. parse_elems n d t = Some (w, r) \<and> vs = v # w)"
    then obtain w where "x = CHR '',''" "x \<noteq> CHR '']''" "parse_elems n d t = Some (w, r)" "vs = v # w" by blast
    then show ?thesis using head rest [of w] by simp
  qed
qed

lemma scan_members:
  assumes "parse_members (Suc n) d s = Some (kvs, r)"
    and val: "\<And>s v r k. parse_value n d s = Some (v, r) \<Longrightarrow> nesting_ok k False False s \<longleftrightarrow> json_fits k v \<and> nesting_ok k False False r"
    and members: "\<And>s kvs r k. parse_members n d s = Some (kvs, r) \<Longrightarrow>
      nesting_ok (k + 1) False False s \<longleftrightarrow> (\<forall>kv \<in> set kvs. json_fits (k + 1) (snd kv)) \<and> nesting_ok k False False r"
  shows "nesting_ok (k + 1) False False s \<longleftrightarrow> (\<forall>kv \<in> set kvs. json_fits (k + 1) (snd kv)) \<and> nesting_ok k False False r"
proof -
  from assms(1) obtain s1 a s2 s3 v r' x t where
      p: "skip_ws s = CHR 0x22 # s1" "unquote s1 = Some (a, s2)" "skip_ws s2 = CHR '':'' # s3" "parse_value n d s3 = Some (v, r')"
        "skip_ws r' = x # t"
      and x: "x = CHR ''}'' \<and> kvs = [(a, v)] \<and> t = r \<or>
              x \<noteq> CHR ''}'' \<and> x = CHR '','' \<and> (\<exists>w. parse_members n d t = Some (w, r) \<and> kvs = (a, v) # w)"
    by (auto split: option.splits list.splits if_splits)
  have "nesting_ok (k + 1) False False s = nesting_ok (k + 1) False False s2"
    using scan_ws [of "k + 1" s] p(1) scan_string [OF p(2), of "k + 1"] by simp
  also have "\<dots> = nesting_ok (k + 1) False False s3" using scan_ws [of "k + 1" s2] p(3) by simp
  also have "\<dots> \<longleftrightarrow> json_fits (k + 1) v \<and> nesting_ok (k + 1) False False (x # t)"
    using val [OF p(4), of "k + 1"] scan_ws [of "k + 1" r'] p(5) by simp
  finally have head: "nesting_ok (k + 1) False False s \<longleftrightarrow> json_fits (k + 1) v \<and> nesting_ok (k + 1) False False (x # t)" .
  have rest: "nesting_ok (k + 1) False False t \<longleftrightarrow> (\<forall>kv \<in> set w. json_fits (k + 1) (snd kv)) \<and> nesting_ok k False False r"
    if "x \<noteq> CHR ''}''" "x = CHR '',''" "parse_members n d t = Some (w, r)" for w
    by (rule members [OF that(3)])
  from x show ?thesis
  proof
    assume "x = CHR ''}'' \<and> kvs = [(a, v)] \<and> t = r"
    then show ?thesis using head by simp
  next
    assume "x \<noteq> CHR ''}'' \<and> x = CHR '','' \<and> (\<exists>w. parse_members n d t = Some (w, r) \<and> kvs = (a, v) # w)"
    then obtain w where "x = CHR '',''" "x \<noteq> CHR ''}''" "parse_members n d t = Some (w, r)" "kvs = (a, v) # w" by blast
    then show ?thesis using head rest [of w] by simp
  qed
qed

lemma scan_parse:
  "parse_value n d s = Some (v, r) \<Longrightarrow> nesting_ok k False False s \<longleftrightarrow> json_fits k v \<and> nesting_ok k False False r"
  "parse_elems n d s = Some (vs, r) \<Longrightarrow>
     nesting_ok (k + 1) False False s \<longleftrightarrow> (\<forall>v \<in> set vs. json_fits (k + 1) v) \<and> nesting_ok k False False r"
  "parse_members n d s = Some (kvs, r) \<Longrightarrow>
     nesting_ok (k + 1) False False s \<longleftrightarrow> (\<forall>kv \<in> set kvs. json_fits (k + 1) (snd kv)) \<and> nesting_ok k False False r"
proof (induction n arbitrary: d s v r vs kvs k)
  case (Suc n)
  { case 1 show ?case by (rule scan_value [OF 1 Suc(2,3)]) }
  { case 2 show ?case by (rule scan_elems [OF 2 Suc(1,2)]) }
  { case 3 show ?case by (rule scan_members [OF 3 Suc(1,3)]) }
qed simp_all

lemma normalize_fits: "json_fits k v \<Longrightarrow> json_fits k (json_normalize v)"
proof (induction v arbitrary: k)
  case (JObj kvs)
  then show ?case using keep_last_set [of "map (\<lambda>kv. (fst kv, json_normalize (snd kv))) kvs"] by fastforce
qed auto

lemma scan_document:
  assumes "decode_json s = Some v"
  shows "nesting_ok 0 False False s \<longleftrightarrow> json_fits 0 v"
proof -
  obtain r where r: "parse_value (2 * length s + 2) max_nesting s = Some (v, r)" "skip_ws r = []"
    using assms by (auto simp: decode_json_def simp del: parse_value.simps split: option.splits if_splits)
  from scan_parse(1) [OF r(1), of 0] r(2) scan_ws [of 0 r] show ?thesis by simp
qed

text \<open>
  C38: a document that is decoded and marshalled again, as every annotation page is before it is
  stored, decodes to the same value, with one member per name in byte order: escapes, numbers,
  separators and both nesting limits are read back as they were written, whatever text was accepted first.
\<close>

theorem marshal_roundtrip:
  assumes "DecodeJSON s = Inr v"
  shows "DecodeJSON (Marshal v) = Inr (json_normalize v)"
proof -
  from assms have s: "decode_json s = Some v" "nesting_ok 0 False False s"
    by (auto simp: DecodeJSON_def split: option.splits if_splits)
  have m: "decode_json (Marshal v) = Some (json_normalize v)"
    unfolding Marshal_def by (intro decode_encode normalize_wf decode_wf [OF s(1)])
  have "nesting_ok 0 False False (Marshal v)"
    using scan_document [OF s(1)] scan_document [OF m] s(2) normalize_fits by simp
  then show ?thesis using m by (simp add: DecodeJSON_def)
qed

theorem marshal_roundtrip_witness:
  "DecodeJSON (CHR ''['' # CHR 0x22 # [CHR 0x5C] @ ''u2028<'' @ [CHR 0xFF, CHR 0x22] @ '', -1.50e+3, {}, null]'') =
     Inr (JArr [JStr ([CHR 0xE2, CHR 0x80, CHR 0xA8, CHR ''<''] @ replacement_char), JNum ''-1.50e+3'', JObj [], JNull]) \<and>
   DecodeJSON (Marshal (JArr [JStr ([CHR 0xE2, CHR 0x80, CHR 0xA8, CHR ''<''] @ replacement_char), JNum ''-1.50e+3'', JObj [], JNull])) =
     Inr (JArr [JStr ([CHR 0xE2, CHR 0x80, CHR 0xA8, CHR ''<''] @ replacement_char), JNum ''-1.50e+3'', JObj [], JNull])"
proof
  show run: "DecodeJSON (CHR ''['' # CHR 0x22 # [CHR 0x5C] @ ''u2028<'' @ [CHR 0xFF, CHR 0x22] @ '', -1.50e+3, {}, null]'') =
     Inr (JArr [JStr ([CHR 0xE2, CHR 0x80, CHR 0xA8, CHR ''<''] @ replacement_char), JNum ''-1.50e+3'', JObj [], JNull])" by code_simp
  from marshal_roundtrip [OF run]
  show "DecodeJSON (Marshal (JArr [JStr ([CHR 0xE2, CHR 0x80, CHR 0xA8, CHR ''<''] @ replacement_char), JNum ''-1.50e+3'', JObj [], JNull])) =
     Inr (JArr [JStr ([CHR 0xE2, CHR 0x80, CHR 0xA8, CHR ''<''] @ replacement_char), JNum ''-1.50e+3'', JObj [], JNull])" by simp
qed

end
