(* ===== verification/Object_Maps.thy ===== *)
theory Object_Maps
  imports Page_Documents Json_Roundtrip
begin

section \<open>JSON objects as maps\<close>

text \<open>
  A list of members stands for the map that Go decodes it to, \<open>den\<close>; of equal names the last one
  counts. Two lists in normal form with the same map are equal, so normalisation is idempotent, and
  the operations on decoded maps can be followed on maps.
\<close>

subsection \<open>Objects as maps\<close>

definition den :: "(string \<times> json) list \<Rightarrow> string \<Rightarrow> json option" where
  "den kvs = map_of (rev kvs)"

lemma den_Nil [simp]: "den [] = Map.empty"
  by (simp add: den_def)

lemma den_Cons: "den ((k, v) # kvs) = (\<lambda>x. case den kvs x of None \<Rightarrow> if x = k then Some v else None | Some w \<Rightarrow> Some w)"
  by (auto simp: den_def map_add_def fun_eq_iff split: option.splits)

lemma obj_get_den: "obj_get kvs k = (case den kvs k of None \<Rightarrow> JNull | Some v \<Rightarrow> v)"
  by (simp add: obj_get_def den_def)

lemma den_None: "den kvs k = None \<longleftrightarrow> k \<notin> fst ` set kvs"
  by (simp add: den_def map_of_eq_None_iff)

lemma den_append: "den (xs @ ys) = den xs ++ den ys"
  by (simp add: den_def)

lemma den_filter: "den (filter (\<lambda>kv. fst kv \<noteq> k) kvs) = (den kvs)(k := None)"
proof -
  have "map_of (filter (\<lambda>kv. fst kv \<noteq> k) xs) = (map_of xs)(k := None)" for xs :: "(string \<times> json) list"
    by (induction xs) (auto simp: fun_eq_iff)
  then show ?thesis by (simp add: den_def rev_filter)
qed

lemma den_set [simp]: "den (obj_set k v kvs) = (den kvs)(k \<mapsto> v)"
  by (simp add: obj_set_def den_append den_filter) (simp add: den_def fun_eq_iff map_add_def)

lemma den_delete [simp]: "den (obj_delete k kvs) = (den kvs)(k := None)"
  by (simp add: obj_delete_def den_filter)

lemma keep_last_den: "map_of (keep_last kvs) = den kvs"
proof (induction kvs rule: keep_last.induct)
  case (2 k v kvs)
  have "List.member (map fst kvs) k \<longleftrightarrow> den kvs k \<noteq> None" by (simp add: den_None List.member_iff)
  then show ?case using 2 by (auto simp: den_Cons fun_eq_iff split: option.splits)
qed simp

lemma keep_last_distinct: "distinct (map fst (keep_last kvs))"
  using keep_last_set by (induction kvs rule: keep_last.induct) (fastforce simp: List.member_iff)+

lemma sort_key_perm: "set (sort_key f xs) = set xs" "distinct (map g (sort_key f xs)) = distinct (map g xs)"
proof -
  show "set (sort_key f xs) = set xs" by simp
  have "mset (map g (sort_key f xs)) = mset (map g xs)" by simp
  then show "distinct (map g (sort_key f xs)) = distinct (map g xs)" using mset_eq_imp_distinct_iff by blast
qed

lemma map_members_distinct: "distinct (map fst (map_members kvs))"
  unfolding map_members_def sort_key_perm(2) by (rule keep_last_distinct)

lemma map_members_sorted: "sorted (map fst (map_members kvs))"
  by (simp add: map_members_def)

lemma distinct_den: "distinct (map fst kvs) \<Longrightarrow> den kvs = map_of kvs"
  by (simp add: den_def map_of_inject_set rev_map [symmetric])

lemma den_map_snd: "den (map (\<lambda>kv. (fst kv, f (snd kv))) kvs) = map_option f \<circ> den kvs"
  by (induction kvs) (auto simp: den_Cons fun_eq_iff split: option.splits)

lemma den_map_members: "den (map_members kvs) = map_option json_normalize \<circ> den kvs"
proof -
  let ?xs = "keep_last (map (\<lambda>kv. (fst kv, json_normalize (snd kv))) kvs)"
  have "den (map_members kvs) = map_of (sort_key fst ?xs)" using distinct_den [OF map_members_distinct [of kvs]] by (simp add: map_members_def)
  also have "\<dots> = map_of ?xs" by (simp add: map_of_inject_set sort_key_perm keep_last_distinct)
  also have "\<dots> = map_option json_normalize \<circ> den kvs" by (simp add: keep_last_den den_map_snd)
  finally show ?thesis .
qed

text \<open>Normal forms: one member per name, in order, with normalised values.\<close>

definition normal_members :: "(string \<times> json) list \<Rightarrow> bool" where
  "normal_members kvs \<longleftrightarrow> distinct (map fst kvs) \<and> sorted (map fst kvs)"

lemma normal_map_members [simp]: "normal_members (map_members kvs)"
  by (simp add: normal_members_def map_members_distinct map_members_sorted)

lemma normal_unique:
  assumes "normal_members xs" and "normal_members ys" and "den xs = den ys"
  shows "xs = ys"
proof -
  have eq: "map_of xs = map_of ys" using assms by (simp add: normal_members_def distinct_den)
  then have "fst ` set xs = fst ` set ys" by (metis dom_map_of_conv_image_fst)
  then have fst: "map fst xs = map fst ys"
    using assms(1,2) by (intro sorted_distinct_set_unique) (auto simp: normal_members_def)
  have rebuild: "zs = map (\<lambda>k. (k, the (map_of zs k))) (map fst zs)" if "distinct (map fst zs)" for zs :: "(string \<times> json) list"
    using that by (simp add: comp_def) (rule map_idI [symmetric], auto)
  show ?thesis using rebuild [of xs] rebuild [of ys] assms(1,2) fst eq by (simp add: normal_members_def)
qed

lemma normalize_object: "json_normalize (JObj kvs) = JObj (map_members kvs)"
  by (simp add: map_members_def)

lemma normalize_idem: "json_normalize (json_normalize v) = json_normalize v"
proof (induction v)
  case (JArr vs)
  then show ?case by simp
next
  case (JObj kvs)
  have "json_normalize (json_normalize v) = json_normalize v" if "den kvs k = Some v" for k v
  proof -
    have "(k, v) \<in> set kvs" using that by (auto simp: den_def dest: map_of_SomeD)
    then show ?thesis using JObj by fastforce
  qed
  then have "den (map_members (map_members kvs)) = den (map_members kvs)"
    by (auto simp: den_map_members fun_eq_iff map_option_case split: option.splits)
  then have "map_members (map_members kvs) = map_members kvs" by (intro normal_unique) simp_all
  then show ?case by (simp only: normalize_object)
qed auto

lemma map_members_idem [simp]: "map_members (map_members kvs) = map_members kvs"
  using normalize_idem [of "JObj kvs"] by (simp only: normalize_object json.inject)

lemma map_members_eqI: "map_option json_normalize \<circ> den xs = map_option json_normalize \<circ> den ys \<Longrightarrow> map_members xs = map_members ys"
  by (intro normal_unique) (simp_all add: den_map_members)

lemma obj_get_map_members: "obj_get (map_members kvs) k = json_normalize (obj_get kvs k)"
  by (simp add: obj_get_den den_map_members split: option.splits)

lemma stringValue_normalize [simp]: "stringValue (json_normalize v) = stringValue v"
  by (cases v) (simp_all add: stringValue_def)

lemma TargetCanvas_normalize [simp]: "TargetCanvas (json_normalize v) = TargetCanvas v"
proof (induction v rule: TargetCanvas.induct)
  case (2 kvs)
  have null: "(json_normalize v = JNull) = (v = JNull)" for v by (cases v) simp_all
  have "isCanvasReference (map_members kvs) = isCanvasReference kvs"
    by (simp add: isCanvasReference_def obj_get_map_members null)
  then show ?case unfolding normalize_object
    by (cases "obj_get kvs ''source''") (simp_all add: obj_get_map_members normalize_object del: json_normalize.simps(2))
qed auto

end
