(* ===== verification/Page_Canonical.thy ===== *)
theory Page_Canonical
  imports Object_Maps
begin

section \<open>Canonical annotation pages\<close>

text \<open>
  What the identity check of \<^verbatim>\<open>internal/iiif/presentation.go\<close> accepts, and that the pages
  \<open>NormalizeAnnotationPage\<close> returns are its fixed points.
\<close>

subsection \<open>Contexts\<close>

lemma append_contexts_seen: "JStr t \<in> set (append_contexts sc seen vs) \<Longrightarrow> t \<notin> set seen \<and> t \<noteq> PresentationContext sc"
  by (induction sc seen vs rule: append_contexts.induct) (auto simp: List.member_iff split: json.splits if_splits)

lemma append_contexts_again:
  "append_contexts sc seen (map json_normalize (append_contexts sc seen vs) @ ws) =
   map json_normalize (append_contexts sc seen vs) @
     append_contexts sc (rev [t. JStr t \<leftarrow> append_contexts sc seen vs] @ seen) ws"
  by (induction sc seen vs rule: append_contexts.induct) (auto simp: List.member_iff split: json.splits if_splits)

lemma contexts_again:
  "annotationPageContexts sc (JArr (map json_normalize (annotationPageContexts sc existing))) =
   map json_normalize (annotationPageContexts sc existing)"
  by (simp add: annotationPageContexts_def append_contexts_again List.member_iff)

subsection \<open>Well-formed pages\<close>

text \<open>The nesting that the scan accepts is far below the decoder's own limit.\<close>

lemma fits_wf: "json_wf d v \<Longrightarrow> json_fits k v \<Longrightarrow> int MaxJSONNestingDepth - k \<le> int e \<Longrightarrow> json_wf e v"
proof (induction v arbitrary: d k e)
  case (JArr vs)
  have "json_wf (e - 1) v" if "v \<in> set vs" for v
    using that JArr.prems by (intro JArr.IH [of v "d - 1" "k + 1" "e - 1"]) simp_all
  then show ?case using JArr.prems by auto
next
  case (JObj kvs)
  have "json_wf (e - 1) (snd kv)" if "kv \<in> set kvs" for kv
    using that JObj.prems by (intro JObj.IH [of kv "snd kv" "d - 1" "k + 1" "e - 1"]) (simp_all add: snds.intros)
  then show ?case using JObj.prems by auto
qed simp_all

lemma wf_mono: "json_wf d v \<Longrightarrow> d \<le> e \<Longrightarrow> json_wf e v"
proof (induction v arbitrary: d e)
  case (JArr vs)
  then show ?case by (auto intro: JArr.IH [of _ "d - 1" "e - 1"])
next
  case (JObj kvs)
  then show ?case by (auto intro: JObj.IH [of _ _ "d - 1" "e - 1"])
qed simp_all

lemma valid_utf8_append: "valid_utf8 xs \<Longrightarrow> valid_utf8 ys \<Longrightarrow> valid_utf8 (xs @ ys)"
proof (induction xs rule: valid_utf8.induct)
  case (1 s)
  show ?case
  proof (cases "s = []")
    case False
    with 1 have r: "rune_size s \<noteq> 0" "valid_utf8 (drop (rune_size s) s)" by (auto simp: valid_utf8.simps [of s] split: if_splits)
    have "s @ ys = take (rune_size s) s @ (drop (rune_size s) s @ ys)" by simp
    then show ?thesis using valid_utf8_rune [OF refl r(1), of "drop (rune_size s) s @ ys"] "1.IH" [OF False r] 1 by metis
  qed (use 1 in simp)
qed

lemma valid_utf8_ascii_all: "list_all (in_range 0 0x7F) s \<Longrightarrow> valid_utf8 s"
  by (induction s) (auto simp: valid_utf8_ascii)

lemma lower_hex_utf8:
  assumes "lower_hex s"
  shows "valid_utf8 s"
proof (rule valid_utf8_ascii_all)
  have "in_range 0 0x7F c" if "hex_value c \<noteq> None" for c
    using that by (auto simp: hex_value_def in_range_def Let_def split: if_splits)
  then show "list_all (in_range 0 0x7F) s" using assms by (auto simp: lower_hex_def list_all_iff)
qed

definition wf_members :: "nat \<Rightarrow> (string \<times> json) list \<Rightarrow> bool" where
  "wf_members d kvs \<longleftrightarrow> (\<forall>kv \<in> set kvs. valid_utf8 (fst kv) \<and> json_wf d (snd kv))"

lemma wf_members_set: "wf_members d kvs \<Longrightarrow> valid_utf8 k \<Longrightarrow> json_wf d v \<Longrightarrow> wf_members d (obj_set k v kvs)"
  by (auto simp: wf_members_def obj_set_def)

lemma wf_members_delete: "wf_members d kvs \<Longrightarrow> wf_members d (obj_delete k kvs)"
  by (auto simp: wf_members_def obj_delete_def)

lemma wf_members_get: "wf_members d kvs \<Longrightarrow> json_wf d (obj_get kvs k)"
  by (auto simp: wf_members_def obj_get_den den_def split: option.splits dest!: map_of_SomeD) fastforce

lemma wf_object: "json_wf d (JObj kvs) \<longleftrightarrow> d \<noteq> 0 \<and> wf_members (d - 1) kvs"
  by (simp add: wf_members_def)

lemma append_contexts_set: "set (append_contexts sc seen vs) \<subseteq> set vs"
  by (induction sc seen vs rule: append_contexts.induct) (auto split: json.splits if_splits)

lemma contexts_wf:
  assumes "json_wf d existing" and "valid_utf8 (TextGranularityContext sc)" and "valid_utf8 (PresentationContext sc)"
  shows "\<forall>v \<in> set (annotationPageContexts sc existing). json_wf d v"
proof -
  have "json_wf d v" if "v \<in> set (case existing of JArr vs \<Rightarrow> vs | JNull \<Rightarrow> [] | v \<Rightarrow> [v])" for v
    using that assms(1) by (cases existing) (auto intro: wf_mono [of "d - 1"])
  then show ?thesis using assms(2,3) append_contexts_set
    by (fastforce simp: annotationPageContexts_def)
qed

lemma typed_item_wf: "wf_members d kvs \<Longrightarrow> wf_members d (typed_item kvs)"
  unfolding typed_item_def
  by (intro wf_members_delete wf_members_set) (auto intro: valid_utf8_ascii_all simp: in_range_def)

lemma identified_item_wf:
  assumes "identified_item digest pageID n seen a = Inr (i, b)" and "wf_members d a"
    and "valid_utf8 (trim_right (CHR ''/'') pageID)" and "\<And>s. lower_hex (digest s)"
  shows "wf_members d b"
proof (cases "b = a")
  case False
  with assms(1) obtain s where "AnnotationID digest pageID s = Inr i" "b = obj_set ''id'' (JStr i) a"
    by (auto simp: identified_item_def Let_def split: if_splits sum.splits)
  moreover from this have "i = trim_right (CHR ''/'') pageID @ ''/items/'' @ digest (trim_space s)"
    by (auto simp: AnnotationID_def Let_def split: option.splits if_splits)
  then have "valid_utf8 i"
    using valid_utf8_append [OF assms(3) valid_utf8_append [OF valid_utf8_ascii_all lower_hex_utf8 [OF assms(4)]],
      of "''/items/''" "trim_space s"] by (simp add: in_range_def)
  ultimately show ?thesis using assms(2) by (auto intro!: wf_members_set valid_utf8_ascii_all simp: in_range_def)
qed (use assms(2) in simp)

lemma normalize_items_wf:
  assumes "normalize_items digest pageID c n seen vs = Inr ws" and "\<forall>v \<in> set vs. json_wf d v"
    and "valid_utf8 (trim_right (CHR ''/'') pageID)" and "\<And>s. lower_hex (digest s)"
  shows "\<forall>w \<in> set ws. json_wf d w"
  using assms(1,2)
proof (induction vs arbitrary: n seen ws)
  case (Cons v vs)
  then obtain kvs i a rest where v: "v = JObj kvs" "identified_item digest pageID n seen (typed_item kvs) = Inr (i, a)"
      "normalize_items digest pageID c (n + 1) (i # seen) vs = Inr rest" "ws = JObj a # rest"
    by (auto split: json.splits sum.splits if_splits)
  have "wf_members (d - 1) a"
    using Cons.prems(2) v(1) by (intro identified_item_wf [OF v(2) typed_item_wf assms(3,4)]) (auto simp: wf_members_def)
  then show ?case using Cons.IH [OF v(3)] Cons.prems(2) v(1,4) by (auto simp: wf_members_def)
qed simp

lemma page_wf:
  assumes run: "normalized_page digest sc pageID c page0 = Inr page" and wf: "wf_members d page0" and "d \<noteq> 0"
    and utf8: "valid_utf8 (TextGranularityContext sc)" "valid_utf8 (PresentationContext sc)" "valid_utf8 pageID"
      "valid_utf8 (trim_right (CHR ''/'') pageID)" and digest: "\<And>s. lower_hex (digest s)"
  shows "json_wf (Suc (Suc d)) (JObj page)"
proof -
  let ?p = "identified_page sc pageID page0"
  have up: "wf_members (Suc d) page0" using wf wf_mono [of d _ "Suc d"] by (auto simp: wf_members_def)
  have p: "wf_members (Suc d) ?p"
    unfolding identified_page_def using contexts_wf [OF wf_members_get [OF wf] utf8(1,2)] up utf8(3)
    by (intro wf_members_delete wf_members_set) (auto intro!: valid_utf8_ascii_all simp: in_range_def)
  have i: "valid_utf8 ''items''" by (auto intro!: valid_utf8_ascii_all simp: in_range_def)
  from run consider "page = obj_set ''items'' (JArr []) ?p"
    | vs ws where "obj_get ?p ''items'' = JArr vs" "normalize_items digest pageID c 0 [] vs = Inr ws" "page = obj_set ''items'' (JArr ws) ?p"
    by (auto simp: normalized_page_def Let_def split: json.splits sum.splits)
  then have "wf_members (Suc d) page"
  proof cases
    case 1
    then show ?thesis using p i by (auto intro!: wf_members_set)
  next
    case 2
    have "\<forall>v \<in> set vs. json_wf d v" using wf_members_get [OF p, of "''items''"] 2(1) by simp
    from normalize_items_wf [OF 2(2) this utf8(4) digest] show ?thesis using 2(3) p i by (auto intro!: wf_members_set)
  qed
  then show ?thesis by (simp add: wf_members_def)
qed

subsection \<open>What the identity check accepts\<close>

text \<open>
  A member that a struct field and a map read alike: at most one member has its name up to case, and
  that one has it exactly.
\<close>

definition unambiguous :: "string \<Rightarrow> (string \<times> json) list \<Rightarrow> bool" where
  "unambiguous name kvs \<longleftrightarrow> (\<forall>kv \<in> set kvs. equal_fold (fst kv) name \<longrightarrow> fst kv = name) \<and> length (filter (\<lambda>kv. fst kv = name) kvs) \<le> 1"

lemma filter_one:
  assumes "length (filter (\<lambda>kv. fst kv = name) kvs) \<le> 1"
  shows "filter (\<lambda>kv. fst kv = name) kvs = (case den kvs name of None \<Rightarrow> [] | Some v \<Rightarrow> [(name, v)])"
  using assms
proof (induction kvs)
  case (Cons kv kvs)
  show ?case
  proof (cases "fst kv = name")
    case True
    with Cons.prems have "filter (\<lambda>kv. fst kv = name) kvs = []" by simp
    then have "den kvs name = None" by (auto simp: den_None filter_empty_conv)
    then show ?thesis using True \<open>filter (\<lambda>kv. fst kv = name) kvs = []\<close> by (cases kv) (simp add: den_Cons)
  next
    case False
    then show ?thesis using Cons by (cases kv) (auto simp: den_Cons split: option.splits)
  qed
qed simp

lemma unambiguous_members:
  assumes "unambiguous name kvs"
  shows "struct_members name kvs = (case den kvs name of None \<Rightarrow> [] | Some v \<Rightarrow> [v])"
proof -
  have "filter (\<lambda>kv. equal_fold (fst kv) name) kvs = filter (\<lambda>kv. fst kv = name) kvs"
    using assms by (intro filter_cong) (auto simp: unambiguous_def equal_fold_def)
  then show ?thesis using filter_one [of name kvs] assms
    by (auto simp: struct_members_def unambiguous_def split: option.splits)
qed

lemma normal_unambiguous:
  assumes "normal_members kvs" and "\<forall>kv \<in> set kvs. equal_fold (fst kv) name \<longrightarrow> fst kv = name"
  shows "unambiguous name kvs"
proof -
  have "distinct (map fst kvs) \<Longrightarrow> length (filter (\<lambda>kv. fst kv = name) kvs) \<le> 1"
    by (induction kvs) (auto simp: filter_empty_conv image_iff)
  then show ?thesis using assms by (simp add: unambiguous_def normal_members_def)
qed

definition item_id :: "json \<Rightarrow> string" where
  "item_id v = (case v of JObj a \<Rightarrow> stringValue (obj_get a ''id'') | _ \<Rightarrow> [])"

lemma merge_maps_fresh:
  "merge_maps [] vs = Some ms \<Longrightarrow> list_all2 (\<lambda>v m. v = JObj m \<or> v = JNull \<and> m = []) vs ms"
  by (induction vs arbitrary: ms) (auto split: json.splits option.splits)

definition member_id :: "(string \<times> json) list \<Rightarrow> string" where
  "member_id m = stringValue (obj_get m ''id'')"

lemma canonical_items_Cons:
  "canonical_items pageID c seen (m # ms) = None \<longleftrightarrow>
     isCanonicalAnnotationID (member_id m) pageID \<and> member_id m \<notin> set seen \<and> TargetCanvas (obj_get m ''target'') = c \<and>
     canonical_items pageID c (member_id m # seen) ms = None"
  by (simp add: Let_def List.member_iff member_id_def)

lemma canonical_items_None:
  "canonical_items pageID c seen ms = None \<longleftrightarrow>
     (\<forall>m \<in> set ms. isCanonicalAnnotationID (member_id m) pageID \<and> TargetCanvas (obj_get m ''target'') = c) \<and>
     distinct (map member_id ms) \<and> set (map member_id ms) \<inter> set seen = {}"
proof (induction ms arbitrary: seen)
  case (Cons m ms)
  show ?case unfolding canonical_items_Cons Cons.IH by (simp del: canonical_items.simps) blast
qed simp

lemma not_canonical_empty: "\<not> isCanonicalAnnotationID [] pageID"
proof -
  have "strip_prefix (trim_right (CHR ''/'') pageID @ ''/items/'') [] = None"
    by (cases "strip_prefix (trim_right (CHR ''/'') pageID @ ''/items/'') []") (auto simp: strip_prefix_eq)
  moreover have "trim_space [] = []" by code_simp
  ultimately show ?thesis by (simp add: isCanonicalAnnotationID_def split: option.splits)
qed

lemma struct_items:
  assumes "unambiguous ''items'' kvs" and "struct_maps ''items'' kvs = Some ms"
  shows "list_all2 (\<lambda>v m. v = JObj m \<or> v = JNull \<and> m = []) (array_items (obj_get kvs ''items'')) ms"
proof (cases "den kvs ''items''")
  case None
  then show ?thesis using assms by (simp add: struct_maps_def unambiguous_members obj_get_den array_items_def)
next
  case (Some v)
  then show ?thesis using assms merge_maps_fresh
    by (cases v) (auto simp: struct_maps_def unambiguous_members obj_get_den array_items_def)
qed

lemma struct_id:
  assumes "unambiguous ''id'' kvs" and "struct_string ''id'' kvs = Some i" and "i \<noteq> []"
  shows "obj_get kvs ''id'' = JStr i"
  using assms by (cases "den kvs ''id''") (auto simp: struct_string_def unambiguous_members obj_get_den split: json.splits)

lemma canonical_check:
  assumes "ValidateCanonicalAnnotationPage sc raw identity = None"
  obtains pageID kvs ms where "AnnotationPageID (pi_PublicBaseURL identity) (pi_ItemImageID identity) = Inr pageID"
    "ValidateAnnotationPage sc raw = None" "DecodeMap raw = Inr kvs" "struct_string ''id'' kvs = Some pageID"
    "struct_maps ''items'' kvs = Some ms" "canonical_items pageID (trim_space (pi_CanvasURI identity)) [] ms = None"
    "requireHTTPURL (trim_space (pi_CanvasURI identity)) ''canvas uri'' = None"
  using assms
  by (auto simp: ValidateCanonicalAnnotationPage_def canonical_fields_def Let_def
      split: option.splits sum.splits if_splits prod.splits)

lemma items_of_members:
  assumes "list_all2 (\<lambda>v m. v = JObj m \<or> v = JNull \<and> m = []) vs ms"
    and "\<forall>m \<in> set ms. isCanonicalAnnotationID (member_id m) pageID"
  shows "vs = map JObj ms"
  using assms
  by (induction rule: list_all2_induct) (auto simp: member_id_def obj_get_def stringValue_def not_canonical_empty)


subsection \<open>Normalisation is idempotent\<close>

definition typed :: "(string \<times> json) list \<Rightarrow> bool" where
  "typed a \<longleftrightarrow> den a ''type'' = Some (JStr ''Annotation'') \<and> den a ''@id'' = None \<and> den a ''@type'' = None"

lemma typed_item_typed: "typed (typed_item a)"
  by (simp add: typed_def typed_item_def)

lemma typed_item_again: "typed a \<Longrightarrow> den (typed_item a) = den a"
  by (auto simp: typed_def typed_item_def fun_eq_iff)

lemma normalize_items_typed:
  "normalize_items digest pageID c n seen vs = Inr ws \<Longrightarrow> \<exists>as. ws = map JObj as \<and> (\<forall>a \<in> set as. typed a)"
proof (induction vs arbitrary: n seen ws)
  case (Cons v vs)
  then obtain kvs i a rest where v: "v = JObj kvs" "identified_item digest pageID n seen (typed_item kvs) = Inr (i, a)"
      "normalize_items digest pageID c (n + 1) (i # seen) vs = Inr rest" "ws = JObj a # rest"
    by (auto split: json.splits sum.splits if_splits)
  have "typed a" using v(2) typed_item_typed [of kvs]
    by (auto simp: identified_item_def Let_def typed_def split: if_splits sum.splits)
  moreover obtain as where "rest = map JObj as" "\<forall>a \<in> set as. typed a" using Cons.IH [OF v(3)] by blast
  ultimately show ?case using v(4) by (intro exI [of _ "a # as"]) simp
qed simp

lemma obj_get_cong: "den a = den b \<Longrightarrow> obj_get a k = obj_get b k"
  by (simp add: obj_get_den)

lemma typed_members: "typed a \<Longrightarrow> typed (map_members a)"
  by (simp add: typed_def den_map_members)

lemma normalize_items_again:
  assumes "canonical_items pageID (trim_space c) seen (map map_members as) = None" and "\<forall>a \<in> set as. typed a"
  shows "normalize_items digest pageID c n seen (map (\<lambda>a. JObj (map_members a)) as) =
    Inr (map (\<lambda>a. JObj (typed_item (map_members a))) as)"
  using assms
proof (induction as arbitrary: n seen)
  case (Cons a as)
  let ?a = "typed_item (map_members a)"
  have den: "den ?a = den (map_members a)" using Cons.prems(2) by (intro typed_item_again typed_members) simp
  from Cons.prems(1) have c: "isCanonicalAnnotationID (member_id ?a) pageID" "member_id ?a \<notin> set seen"
      "TargetCanvas (obj_get ?a ''target'') = trim_space c"
      "canonical_items pageID (trim_space c) (member_id ?a # seen) (map map_members as) = None"
    using obj_get_cong [OF den] unfolding list.map canonical_items_Cons by (simp_all add: member_id_def)
  have "identified_item digest pageID n seen ?a = Inr (member_id ?a, ?a)"
    using c by (simp add: identified_item_def member_id_def List.member_iff)
  then show ?case using Cons.IH [OF c(4)] Cons.prems(2) c(3) by simp
qed simp

lemma item_cost_weaken: "item_cost True t = None \<Longrightarrow> item_cost False t = None"
  by (auto simp: item_cost_def split: sum.splits if_splits)

lemma cost_weaken: "validateAnnotationPageCost raw True = None \<Longrightarrow> validateAnnotationPageCost raw False = None"
proof -
  have "first_error (item_cost True) ts = None \<Longrightarrow> first_error (item_cost False) ts = None" for ts
    by (induction ts) (auto simp: item_cost_weaken split: option.splits)
  then show "validateAnnotationPageCost raw True = None \<Longrightarrow> validateAnnotationPageCost raw False = None"
    by (auto simp: validateAnnotationPageCost_def split: sum.splits if_splits)
qed

lemma page_shape:
  assumes "normalized_page digest sc pageID c page0 = Inr page"
  obtains as cx where "den page = (den page0)(''@context'' \<mapsto> JArr (annotationPageContexts sc cx), ''id'' \<mapsto> JStr pageID,
      ''type'' \<mapsto> JStr ''AnnotationPage'', ''@id'' := None, ''@type'' := None, ''items'' \<mapsto> JArr (map JObj as))"
    "\<forall>a \<in> set as. typed a"
proof -
  let ?p = "identified_page sc pageID page0" and ?cx = "obj_get page0 ''@context''"
  from assms consider "page = obj_set ''items'' (JArr []) ?p"
    | vs ws where "normalize_items digest pageID c 0 [] vs = Inr ws" "page = obj_set ''items'' (JArr ws) ?p"
    by (auto simp: normalized_page_def Let_def split: json.splits sum.splits)
  then obtain as where as: "page = obj_set ''items'' (JArr (map JObj as)) ?p" "\<forall>a \<in> set as. typed a"
  proof cases
    case 1
    then show ?thesis using that [of "[]"] by simp
  next
    case 2
    then show ?thesis using normalize_items_typed [OF 2(1)] that by blast
  qed
  then show ?thesis using that [of ?cx as] by (simp add: identified_page_def fun_upd_twist)
qed

lemma page_again:
  assumes run: "normalized_page digest sc pageID c page0 = Inr page"
    and canon: "\<And>as. obj_get page ''items'' = JArr (map JObj as) \<Longrightarrow> canonical_items pageID (trim_space c) [] (map map_members as) = None"
  shows "\<exists>p. normalized_page digest sc pageID c (map_members page) = Inr p \<and> map_members p = map_members page"
proof -
  obtain as cx where
      d: "den page = (den page0)(''@context'' \<mapsto> JArr (annotationPageContexts sc cx), ''id'' \<mapsto> JStr pageID,
        ''type'' \<mapsto> JStr ''AnnotationPage'', ''@id'' := None, ''@type'' := None, ''items'' \<mapsto> JArr (map JObj as))"
      and typed: "\<forall>a \<in> set as. typed a" by (rule page_shape [OF run])
  let ?m = "map_members page" and ?p = "identified_page sc pageID (map_members page)"
    and ?ws = "map (\<lambda>a. JObj (typed_item (map_members a))) as"
  have m: "den ?m ''@context'' = Some (JArr (map json_normalize (annotationPageContexts sc cx)))"
      "den ?m ''id'' = Some (JStr pageID)" "den ?m ''type'' = Some (JStr ''AnnotationPage'')" "den ?m ''@id'' = None" "den ?m ''@type'' = None"
      "den ?m ''items'' = Some (JArr (map (\<lambda>a. JObj (map_members a)) as))"
    by (simp_all add: den_map_members d normalize_object del: json_normalize.simps(2))
  then have p: "den ?p = den ?m" by (simp add: identified_page_def obj_get_den contexts_again fun_upd_idem)
  have "obj_get page ''items'' = JArr (map JObj as)" by (simp add: obj_get_den d)
  then have "canonical_items pageID (trim_space c) [] (map map_members as) = None" by (rule canon)
  from normalize_items_again [OF this typed, of digest 0]
  have again: "normalize_items digest pageID c 0 [] (map (\<lambda>a. JObj (map_members a)) as) = Inr ?ws" .
  have "obj_get ?p ''items'' = JArr (map (\<lambda>a. JObj (map_members a)) as)"
    by (simp add: obj_get_den p m)
  then have "normalized_page digest sc pageID c ?m = Inr (obj_set ''items'' (JArr ?ws) ?p)"
    using again by (simp add: normalized_page_def)
  moreover have "map_members (typed_item (map_members a)) = map_members a" if "a \<in> set as" for a
    using typed that map_members_eqI [of "typed_item (map_members a)" "map_members a"] typed_item_again [OF typed_members] by simp
  then have "json_normalize (JArr ?ws) = JArr (map (\<lambda>a. JObj (map_members a)) as)"
    by (simp add: normalize_object del: json_normalize.simps(2))
  then have "map_members (obj_set ''items'' (JArr ?ws) ?p) = map_members ?m"
    using m(6) by (intro map_members_eqI) (auto simp: p normalize_object simp del: json_normalize.simps(2))
  ultimately show ?thesis by simp
qed

lemma ascii_trim: "list_all P s \<Longrightarrow> list_all P (trim_space s)" "list_all P s \<Longrightarrow> list_all P (trim_right c s)"
proof -
  have strip: "list_all P (strip_all ws s)" if "list_all P s" for ws s
    using that strip_all_suffix [of s ws] by (metis list_all_append)
  then show "list_all P s \<Longrightarrow> list_all P (trim_space s)" by (simp add: trim_space_def)
  show "list_all P s \<Longrightarrow> list_all P (trim_right c s)" by (auto simp: trim_right_def list_all_iff dest: set_dropWhileD)
qed

lemma page_id_ascii:
  assumes "AnnotationPageID base i = Inr pageID" and "list_all (in_range 0 0x7F) base"
  shows "list_all (in_range 0 0x7F) pageID"
proof -
  obtain b where b: "validHTTPBase base = Inr b" "pageID = (b @ item_image_marker @ itoa i) @ ''/canvas/page-1/annotations''"
    using assms(1) by (auto simp: AnnotationPageID_def itemImageResourceBase_def split: sum.splits if_splits)
  have "list_all (in_range 0 0x7F) b"
    using b(1) ascii_trim(2) [OF ascii_trim(1) [OF assms(2)]] by (auto simp: validHTTPBase_def Let_def split: option.splits if_splits)
  moreover have "list_all (in_range 0 0x7F) (itoa i)"
    using itoa_digits(1) [of i] by (auto simp: list_all_iff is_digit_def in_range_def)
  ultimately show ?thesis using b(2) by (simp add: item_image_marker_def in_range_def)
qed

lemma decode_members_wf:
  assumes "DecodeMap raw = Inr kvs"
  shows "wf_members 127 (map_members kvs)"
proof (cases "DecodeJSON raw = Inr JNull")
  case True
  then have "kvs = []" using assms by (simp add: DecodeMap_def as_map_def)
  then show ?thesis by (simp add: wf_members_def map_members_def)
next
  case False
  then have run: "DecodeJSON raw = Inr (JObj kvs)"
    using assms by (auto simp: DecodeMap_def as_map_def split: sum.splits option.splits json.splits)
  then have d: "decode_json raw = Some (JObj kvs)" "nesting_ok 0 False False raw"
    by (auto simp: DecodeJSON_def split: option.splits if_splits)
  then have "json_fits 0 (JObj kvs)" using scan_document by simp
  then have "json_wf 128 (JObj kvs)" using fits_wf [OF decode_wf [OF d(1)], of 0 128] by (simp add: MaxJSONNestingDepth_def)
  from normalize_wf [OF this] show ?thesis by (simp add: normalize_object wf_members_def del: json_normalize.simps(2))
qed

lemma dom_updates: "dom (f(a \<mapsto> x, b \<mapsto> y, c \<mapsto> z, u := None, v := None, w \<mapsto> t)) \<subseteq> dom f \<union> {a, b, c, w}"
  by (auto split: if_splits)

lemma page_keys:
  assumes "normalized_page digest sc pageID c page0 = Inr page"
    and "\<forall>k \<in> dom (den page0). equal_fold k ''items'' \<longrightarrow> k = ''items''"
  shows "unambiguous ''items'' (map_members page)"
proof (rule normal_unambiguous)
  have no: "\<not> equal_fold ''@context'' ''items''" "\<not> equal_fold ''id'' ''items''" "\<not> equal_fold ''type'' ''items''" by code_simp+
  obtain as cx where d: "den page = (den page0)(''@context'' \<mapsto> JArr (annotationPageContexts sc cx), ''id'' \<mapsto> JStr pageID,
        ''type'' \<mapsto> JStr ''AnnotationPage'', ''@id'' := None, ''@type'' := None, ''items'' \<mapsto> JArr (map JObj as))"
    by (rule page_shape [OF assms(1)])
  have sub: "dom (den page) \<subseteq> dom (den page0) \<union> {''@context'', ''id'', ''type'', ''items''}"
    unfolding d by (rule dom_updates)
  have "k \<in> dom (den page)" if "k \<in> fst ` set (map_members page)" for k
  proof -
    have "den (map_members page) k \<noteq> None" using that by (simp add: den_None)
    then show ?thesis by (auto simp: den_map_members)
  qed
  then have "k \<in> dom (den page0) \<or> k = ''@context'' \<or> k = ''id'' \<or> k = ''type'' \<or> k = ''items''"
    if "k \<in> fst ` set (map_members page)" for k using that sub by auto
  then have "equal_fold k ''items'' \<Longrightarrow> k = ''items''" if "k \<in> fst ` set (map_members page)" for k
    using that assms(2) no by metis
  then show "\<forall>kv \<in> set (map_members page). equal_fold (fst kv) ''items'' \<longrightarrow> fst kv = ''items''" by simp
qed simp

lemma normalized_text_decodes:
  assumes "normalized_page digest sc pageID c page0 = Inr page" and "wf_members 127 page0"
    and "list_all (in_range 0 0x7F) pageID" and "\<And>s. lower_hex (digest s)"
    and "valid_utf8 (TextGranularityContext sc)" and "valid_utf8 (PresentationContext sc)"
    and "DecodeMap (Marshal (JObj page)) = Inr kvs"
  shows "DecodeJSON (Marshal (JObj page)) = Inr (JObj (map_members page))" "kvs = map_members page"
proof -
  have "json_wf (Suc (Suc 127)) (JObj page)"
    using assms(2-6) by (intro page_wf [OF assms(1)]) (auto intro: valid_utf8_ascii_all ascii_trim)
  then have "json_wf max_nesting (JObj page)" by (rule wf_mono) (simp add: max_nesting_def)
  from decode_encode [OF normalize_wf [OF this]]
  have "decode_json (Marshal (JObj page)) = Some (JObj (map_members page))"
    unfolding Marshal_def normalize_object .
  moreover have "nesting_ok 0 False False (Marshal (JObj page))"
    using assms(7) by (auto simp: DecodeMap_def DecodeJSON_def split: if_splits)
  ultimately show "DecodeJSON (Marshal (JObj page)) = Inr (JObj (map_members page))" by (simp add: DecodeJSON_def)
  then show "kvs = map_members page" using assms(7) by (simp add: DecodeMap_def as_map_def)
qed

lemma decoded_keys:
  assumes "\<forall>kv \<in> set kvs. P (fst kv)"
  shows "\<forall>k \<in> dom (den (map_members kvs)). P k"
proof
  fix k
  assume "k \<in> dom (den (map_members kvs))"
  then have "den kvs k \<noteq> None" by (auto simp: den_map_members)
  then have "k \<in> fst ` set kvs" by (simp add: den_None)
  then show "P k" using assms by auto
qed


end
