(* ===== verification/Page_Witnesses.thy ===== *)
theory Page_Witnesses
  imports Page_Canonical
begin

section \<open>An annotation page at work\<close>

text \<open>
  A draft with one item is normalised and checked with a schema that accepts every document; the
  theorems on canonical pages are applied to it. Two further pages show where the names of members
  matter and what the JSON null does.
\<close>

definition demo_schema :: page_schema where
  "demo_schema = \<lparr>PresentationContext = ''p'', TextGranularityContext = ''t'', ValidateAnnotationPageBytes = (\<lambda>_. True),
     ValidateExtensibleManifestBytes = (\<lambda>_. True), IsKnownLevel = (\<lambda>l. l = ''line'')\<rparr>"

definition demo_digest :: "string \<Rightarrow> string" where
  "demo_digest s = replicate 32 (CHR ''a'')"

definition demo_identity :: PageIdentity where
  "demo_identity = \<lparr>pi_PublicBaseURL = ''https://s'', pi_ItemImageID = 7, pi_CanvasURI = ''https://s/c''\<rparr>"

definition demo_page_id :: string where
  "demo_page_id = ''https://s/item-image-7/canvas/page-1/annotations''"

definition demo_draft :: string where
  "demo_draft = Marshal (JObj [(''items'', JArr [JObj [(''target'', JStr ''https://s/c#xywh=1,2,3,4''), (''@id'', JStr ''x'')]])])"

definition demo_item :: "(string \<times> json) list" where
  "demo_item = [(''id'', JStr (demo_page_id @ ''/items/'' @ demo_digest [])), (''target'', JStr ''https://s/c#xywh=1,2,3,4''), (''type'', JStr ''Annotation'')]"

definition demo_page :: "(string \<times> json) list" where
  "demo_page = [(''@context'', JArr [JStr ''t'', JStr ''p'']), (''id'', JStr demo_page_id), (''items'', JArr [JObj demo_item]), (''type'', JStr ''AnnotationPage'')]"

lemma demo_normalized: "NormalizeAnnotationPage demo_digest demo_schema demo_draft demo_identity = Inr (Marshal (JObj demo_page))"
  by code_simp

lemma normalized_accepted:
  "NormalizeAnnotationPage digest sc raw identity = Inr out \<Longrightarrow> ValidateCanonicalAnnotationPage sc out identity = None"
  by (auto simp: NormalizeAnnotationPage_def Let_def split: option.splits sum.splits if_splits)

lemma demo_decoded: "DecodeMap (Marshal (JObj demo_page)) = Inr demo_page"
  "DecodeMap demo_draft = Inr [(''items'', JArr [JObj [(''@id'', JStr ''x''), (''target'', JStr ''https://s/c#xywh=1,2,3,4'')]])]"
  by code_simp+



text \<open>
  The hypothesis on names is needed: \<^verbatim>\<open>encoding/json\<close> lets a later member \<^verbatim>\<open>Items\<close> replace what a
  struct has read from \<^verbatim>\<open>items\<close>. The page below passes the identity check although the item that
  every map-based reader finds has a foreign identifier and targets another canvas.
\<close>

definition shadowed_page :: string where
  "shadowed_page = encode_json (JObj [(''@context'', JArr [JStr ''x'', JStr ''p'']), (''id'', JStr demo_page_id),
     (''type'', JStr ''AnnotationPage''), (''items'', JArr [JObj [(''id'', JStr ''y''), (''target'', JStr ''https://z'')]]), (''Items'', JArr [])])"

lemma shadowed_items_accepted:
  "ValidateCanonicalAnnotationPage demo_schema shadowed_page demo_identity = None"
  "DecodeMap shadowed_page = Inr kvs \<Longrightarrow> array_items (obj_get kvs ''items'') = [JObj [(''id'', JStr ''y''), (''target'', JStr ''https://z'')]]"
proof -
  show "ValidateCanonicalAnnotationPage demo_schema shadowed_page demo_identity = None" by code_simp
  have "map_prod id (\<lambda>kvs. array_items (obj_get kvs ''items'')) (0 :: nat, projr (DecodeMap shadowed_page)) =
      (0, [JObj [(''id'', JStr ''y''), (''target'', JStr ''https://z'')]])" by code_simp
  then show "DecodeMap shadowed_page = Inr kvs \<Longrightarrow> array_items (obj_get kvs ''items'') = [JObj [(''id'', JStr ''y''), (''target'', JStr ''https://z'')]]"
    by simp
qed

text \<open>The JSON null passes the cost check and makes the normalisation panic.\<close>

lemma null_page_panics: "NormalizeAnnotationPage digest demo_schema ''null'' demo_identity = Inl ErrPanic"
proof -
  have "validateAnnotationPageCost ''null'' False = None" by code_simp
  moreover have "AnnotationPageID (pi_PublicBaseURL demo_identity) (pi_ItemImageID demo_identity) = Inr demo_page_id" by code_simp
  moreover have "requireHTTPURL (pi_CanvasURI demo_identity) ''canvas uri'' = None" by code_simp
  moreover have "DecodeJSON ''null'' = Inr JNull" by code_simp
  ultimately show ?thesis by (simp add: NormalizeAnnotationPage_def decode_object_def DecodeMap_def as_map_def)
qed

end
