(* ===== verification/Job_Queries.thy ===== *)
theory Job_Queries
  imports Job_Schema "HOL-Library.Product_Lexorder"
begin

section \<open>The SQL statements on transcription jobs\<close>

text \<open>
  One definition per statement of \<^verbatim>\<open>internal/db/transcription_job_leases.sql.go\<close>,
  \<^verbatim>\<open>transcription_jobs.sql.go\<close>, \<^verbatim>\<open>transcription_job_attempts.sql.go\<close> and
  \<^verbatim>\<open>transcription_checkpoints.sql.go\<close>, under the name of its query constant. Statements that change
  rows return the driver's affected-row count.
\<close>

subsection \<open>Predicates the statements share\<close>

text \<open>The WHERE clause of every worker-owned statement: the attempt's identity and an unexpired lease.\<close>

definition lease_held :: "nat \<Rightarrow> nat \<Rightarrow> int \<Rightarrow> nat \<Rightarrow> string option \<Rightarrow> job_row \<Rightarrow> bool" where
  "lease_held t jid attempt_number input_revision lease_token r \<longleftrightarrow>
     j_id r = jid \<and> j_attempt_count r = attempt_number \<and> j_input_revision r = input_revision \<and>
     coalesce_eq (j_locked_by r) lease_token \<and> j_status r = Running \<and>
     (case j_lease_until r of None \<Rightarrow> False | Some u \<Rightarrow> t < u)"

definition lease_expired :: "nat \<Rightarrow> job_row \<Rightarrow> bool" where
  "lease_expired t r \<longleftrightarrow>
     j_status r = Running \<and> (case j_lease_until r of None \<Rightarrow> False | Some u \<Rightarrow> u < t)"

definition pending_due :: "nat \<Rightarrow> job_row \<Rightarrow> bool" where
  "pending_due t r \<longleftrightarrow>
     j_status r = Pending \<and> (case j_retry_after r of None \<Rightarrow> True | Some u \<Rightarrow> u \<le> t) \<and>
     j_attempt_count r < j_max_attempts r"

definition claimable :: "nat \<Rightarrow> job_row \<Rightarrow> bool" where
  "claimable t r \<longleftrightarrow> pending_due t r \<or> lease_expired t r"

definition clear_progress :: "job_row \<Rightarrow> job_row" where
  "clear_progress r = r\<lparr>j_current_annotation_id := None, j_current_annotation_json := None\<rparr>"

definition clear_lease :: "job_row \<Rightarrow> job_row" where
  "clear_lease r = r\<lparr>j_lease_until := None, j_locked_by := None\<rparr>"

definition update_jobs :: "(job_row \<Rightarrow> bool) \<Rightarrow> (job_row \<Rightarrow> job_row) \<Rightarrow> (db, nat) tx" where
  "update_jobs = exec_update jobs put_jobs job_row_check"

subsection \<open>Claiming\<close>

text \<open>A cut-off is a process time, in microseconds.\<close>

definition claimLeasedTranscriptionJobByIDManual :: "env \<Rightarrow> nat \<Rightarrow> (db, job_row) tx" where
  "claimLeasedTranscriptionJobByIDManual e jid =
     tx_row (\<lambda>d. find (\<lambda>r. j_id r = jid \<and> claimable (now e) r \<and> \<not> row_locked e (j_id r)) (jobs d))"

definition claimNextLeasedTranscriptionJobManual :: "env \<Rightarrow> (db, job_row) tx" where
  "claimNextLeasedTranscriptionJobManual e =
     tx_row (\<lambda>d. first_by j_created_at
       (filter (\<lambda>r. claimable (now e) r \<and> \<not> row_locked e (j_id r)) (jobs d)))"

definition claimNextLeasedTranscriptionJobOlderThanManual :: "env \<Rightarrow> nat \<Rightarrow> (db, job_row) tx" where
  "claimNextLeasedTranscriptionJobOlderThanManual e cutoff6 =
     tx_row (\<lambda>d. first_by j_created_at
       (filter (\<lambda>r. j_created_at r * 1000000 < cutoff6 \<and> claimable (now e) r \<and> \<not> row_locked e (j_id r)) (jobs d)))"

definition listRecoverableTranscriptionJobIDs :: "env \<Rightarrow> nat \<Rightarrow> db \<Rightarrow> nat list" where
  "listRecoverableTranscriptionJobIDs e cutoff6 d =
     take 100 (map j_id (sort_key j_created_at
       (filter (\<lambda>r. j_created_at r * 1000000 < cutoff6 \<and> claimable (now e) r) (jobs d))))"

text \<open>The snapshot compares DATETIME columns with \<^verbatim>\<open>CURRENT_TIMESTAMP(6)\<close>, so to the microsecond.\<close>

definition lease_expired6 :: "nat \<Rightarrow> job_row \<Rightarrow> bool" where
  "lease_expired6 t6 r \<longleftrightarrow>
     j_status r = Running \<and> (case j_lease_until r of None \<Rightarrow> False | Some u \<Rightarrow> u * 1000000 < t6)"

definition claimable6 :: "nat \<Rightarrow> job_row \<Rightarrow> bool" where
  "claimable6 t6 r \<longleftrightarrow>
     (j_status r = Pending \<and> (case j_retry_after r of None \<Rightarrow> True | Some u \<Rightarrow> u * 1000000 \<le> t6) \<and>
      j_attempt_count r < j_max_attempts r) \<or> lease_expired6 t6 r"

definition getClaimableTranscriptionQueueSnapshot :: "env \<Rightarrow> db \<Rightarrow> nat \<times> int \<times> nat" where
  "getClaimableTranscriptionQueueSnapshot e d =
     (let rows = filter (claimable6 (now6 e)) (jobs d) in
      (length rows,
       (case first_by j_created_at rows of None \<Rightarrow> 0
        | Some r \<Rightarrow> int (now6 e) - int (j_created_at r) * 1000000),
       length (filter (lease_expired6 (now6 e)) rows)))"

definition leasable :: "nat \<Rightarrow> nat \<Rightarrow> int \<Rightarrow> nat \<Rightarrow> string option \<Rightarrow> job_row \<Rightarrow> bool" where
  "leasable t jid previous_attempt_count input_revision previous_lease_token r \<longleftrightarrow>
     j_id r = jid \<and> j_attempt_count r = previous_attempt_count \<and>
     j_input_revision r = input_revision \<and> j_locked_by r = previous_lease_token \<and>
     (pending_due t r \<or> (lease_expired t r \<and> j_attempt_count r < j_max_attempts r))"

definition set_leased :: "nat \<Rightarrow> nat \<Rightarrow> string option \<Rightarrow> job_row \<Rightarrow> job_row" where
  "set_leased t lease_until lease_token r =
     (clear_progress r)\<lparr>j_status := Running, j_attempt_count := j_attempt_count r + 1,
       j_total_segments := 0, j_completed_segments := 0, j_failed_segments := 0,
       j_last_result_annotation_json := None, j_lease_until := Some lease_until,
       j_locked_by := lease_token, j_retry_after := None, j_error_message := None,
       j_updated_at := t\<rparr>"

definition markTranscriptionJobLeasedManual ::
    "env \<Rightarrow> nat \<Rightarrow> string option \<Rightarrow> nat \<Rightarrow> int \<Rightarrow> nat \<Rightarrow> string option \<Rightarrow> (db, nat) tx" where
  "markTranscriptionJobLeasedManual e lease_until lease_token jid previous_attempt_count input_revision previous_lease_token =
     update_jobs (leasable (now e) jid previous_attempt_count input_revision previous_lease_token)
       (set_leased (now e) lease_until lease_token)"

definition exhausted :: "nat \<Rightarrow> nat \<Rightarrow> int \<Rightarrow> nat \<Rightarrow> string option \<Rightarrow> job_row \<Rightarrow> bool" where
  "exhausted t jid attempt_number input_revision lease_token r \<longleftrightarrow>
     j_id r = jid \<and> lease_expired t r \<and> j_attempt_count r = attempt_number \<and>
     j_input_revision r = input_revision \<and> coalesce_eq (j_locked_by r) lease_token \<and>
     j_attempt_count r \<ge> j_max_attempts r"

definition set_stopped :: "nat \<Rightarrow> job_status \<Rightarrow> string option \<Rightarrow> job_row \<Rightarrow> job_row" where
  "set_stopped t st error_message r =
     (clear_lease (clear_progress r))\<lparr>j_status := st, j_retry_after := None,
       j_error_message := error_message, j_last_result_annotation_json := None, j_updated_at := t\<rparr>"

definition failExpiredTranscriptionJobManual ::
    "env \<Rightarrow> nat \<Rightarrow> int \<Rightarrow> nat \<Rightarrow> string option \<Rightarrow> (db, nat) tx" where
  "failExpiredTranscriptionJobManual e jid attempt_number input_revision lease_token =
     update_jobs (exhausted (now e) jid attempt_number input_revision lease_token)
       (set_stopped (now e) Failed (Some ''worker lease expired after maximum attempts''))"

subsection \<open>Worker-owned transitions\<close>

definition lockActiveTranscriptionJobLeaseManual ::
    "env \<Rightarrow> nat \<Rightarrow> int \<Rightarrow> nat \<Rightarrow> string option \<Rightarrow> (db, nat) tx" where
  "lockActiveTranscriptionJobLeaseManual e jid attempt_number input_revision lease_token =
     tx_row (\<lambda>d. map_option j_id
       (find (lease_held (now e) jid attempt_number input_revision lease_token) (jobs d)))"

definition set_total :: "nat \<Rightarrow> int \<Rightarrow> job_row \<Rightarrow> job_row" where
  "set_total t total_segments r = r\<lparr>j_total_segments := total_segments, j_updated_at := t\<rparr>"

definition setTranscriptionJobTotalSegmentsManual ::
    "env \<Rightarrow> int \<Rightarrow> nat \<Rightarrow> int \<Rightarrow> nat \<Rightarrow> string option \<Rightarrow> (db, nat) tx" where
  "setTranscriptionJobTotalSegmentsManual e total_segments jid attempt_number input_revision lease_token =
     update_jobs (lease_held (now e) jid attempt_number input_revision lease_token)
       (set_total (now e) total_segments)"

definition set_progress ::
    "nat \<Rightarrow> int \<Rightarrow> int \<Rightarrow> string option \<Rightarrow> string option \<Rightarrow> string option \<Rightarrow> job_row \<Rightarrow> job_row" where
  "set_progress t completed failed current_id current_json last_result r =
     r\<lparr>j_completed_segments := completed, j_failed_segments := failed,
       j_current_annotation_id := current_id, j_current_annotation_json := current_json,
       j_last_result_annotation_json := last_result, j_updated_at := t\<rparr>"

definition updateTranscriptionJobProgressManual ::
    "env \<Rightarrow> int \<Rightarrow> int \<Rightarrow> string option \<Rightarrow> string option \<Rightarrow> string option \<Rightarrow>
     nat \<Rightarrow> int \<Rightarrow> nat \<Rightarrow> string option \<Rightarrow> (db, nat) tx" where
  "updateTranscriptionJobProgressManual e completed failed current_id current_json last_result
      jid attempt_number input_revision lease_token =
     update_jobs (lease_held (now e) jid attempt_number input_revision lease_token)
       (set_progress (now e) completed failed current_id current_json last_result)"

definition set_lease :: "nat \<Rightarrow> nat \<Rightarrow> job_row \<Rightarrow> job_row" where
  "set_lease t lease_until r = r\<lparr>j_lease_until := Some lease_until, j_updated_at := t\<rparr>"

definition extendTranscriptionJobLeaseManual ::
    "env \<Rightarrow> nat \<Rightarrow> nat \<Rightarrow> int \<Rightarrow> nat \<Rightarrow> string option \<Rightarrow> (db, nat) tx" where
  "extendTranscriptionJobLeaseManual e lease_until jid attempt_number input_revision lease_token =
     update_jobs (lease_held (now e) jid attempt_number input_revision lease_token)
       (set_lease (now e) lease_until)"

definition set_completed :: "nat \<Rightarrow> job_row \<Rightarrow> job_row" where
  "set_completed t r =
     (clear_lease (clear_progress r))\<lparr>j_status := Completed,
       j_last_result_annotation_json := None, j_updated_at := t\<rparr>"

definition completeTranscriptionJobLeasedManual ::
    "env \<Rightarrow> nat \<Rightarrow> int \<Rightarrow> nat \<Rightarrow> string option \<Rightarrow> (db, nat) tx" where
  "completeTranscriptionJobLeasedManual e jid attempt_number input_revision lease_token =
     update_jobs (lease_held (now e) jid attempt_number input_revision lease_token)
       (set_completed (now e))"

definition set_deferred :: "nat \<Rightarrow> nat \<Rightarrow> string option \<Rightarrow> job_row \<Rightarrow> job_row" where
  "set_deferred t retry_after error_message r =
     (clear_lease (clear_progress r))\<lparr>j_status := Pending, j_retry_after := Some retry_after,
       j_error_message := error_message, j_last_result_annotation_json := None, j_updated_at := t\<rparr>"

definition deferTranscriptionJobLeaseManual ::
    "env \<Rightarrow> nat \<Rightarrow> string option \<Rightarrow> nat \<Rightarrow> int \<Rightarrow> nat \<Rightarrow> string option \<Rightarrow> (db, nat) tx" where
  "deferTranscriptionJobLeaseManual e retry_after error_message jid attempt_number input_revision lease_token =
     update_jobs (lease_held (now e) jid attempt_number input_revision lease_token)
       (set_deferred (now e) retry_after error_message)"

definition permanentlyFailTranscriptionJobManual ::
    "env \<Rightarrow> string option \<Rightarrow> nat \<Rightarrow> int \<Rightarrow> nat \<Rightarrow> string option \<Rightarrow> (db, nat) tx" where
  "permanentlyFailTranscriptionJobManual e error_message jid attempt_number input_revision lease_token =
     update_jobs (lease_held (now e) jid attempt_number input_revision lease_token)
       (set_stopped (now e) Failed error_message)"

text \<open>\<^verbatim>\<open>LEAST(300, POW(2, attempt_count) * 10)\<close> seconds.\<close>

definition retry_delay :: "int \<Rightarrow> nat" where
  "retry_delay attempt_count = min 300 (2 ^ nat attempt_count * 10)"

definition set_retry_or_failed :: "nat \<Rightarrow> string option \<Rightarrow> job_row \<Rightarrow> job_row" where
  "set_retry_or_failed t error_message r =
     (clear_lease (clear_progress r))\<lparr>
       j_status := (if j_attempt_count r < j_max_attempts r then Pending else Failed),
       j_retry_after := (if j_attempt_count r < j_max_attempts r
                         then Some (t + retry_delay (j_attempt_count r)) else None),
       j_error_message := error_message, j_updated_at := t\<rparr>"

definition retryOrFailTranscriptionJobManual ::
    "env \<Rightarrow> string option \<Rightarrow> nat \<Rightarrow> int \<Rightarrow> nat \<Rightarrow> string option \<Rightarrow> (db, nat) tx" where
  "retryOrFailTranscriptionJobManual e error_message jid attempt_number input_revision lease_token =
     update_jobs (lease_held (now e) jid attempt_number input_revision lease_token)
       (set_retry_or_failed (now e) error_message)"

subsection \<open>Cancelling and superseding\<close>

definition lockTranscriptionJobForUpdateManual :: "nat \<Rightarrow> (db, job_row) tx" where
  "lockTranscriptionJobForUpdateManual jid = tx_row (\<lambda>d. find (\<lambda>r. j_id r = jid) (jobs d))"

definition getTranscriptionJobManual :: "nat \<Rightarrow> (db, job_row) tx" where
  "getTranscriptionJobManual jid = tx_row (\<lambda>d. find (\<lambda>r. j_id r = jid) (jobs d))"

definition getActiveTranscriptionJobByItemImageManual :: "nat option \<Rightarrow> (db, job_row) tx" where
  "getActiveTranscriptionJobByItemImageManual img =
     tx_row (\<lambda>d. find (\<lambda>r. null_eq (j_active_item_image_id r) img) (jobs d))"

definition lockActiveTranscriptionJobForUpdateManual :: "nat option \<Rightarrow> db \<Rightarrow> job_row option" where
  "lockActiveTranscriptionJobForUpdateManual img d =
     find (\<lambda>r. null_eq (j_active_item_image_id r) img) (jobs d)"

definition cancelTranscriptionJobManual :: "env \<Rightarrow> nat \<Rightarrow> (db, nat) tx" where
  "cancelTranscriptionJobManual e jid =
     update_jobs (\<lambda>r. j_id r = jid \<and> active_status (j_status r))
       (set_stopped (now e) Canceled (Some ''canceled by user''))"

definition supersedeTranscriptionJobByIDManual :: "env \<Rightarrow> nat \<Rightarrow> (db, nat) tx" where
  "supersedeTranscriptionJobByIDManual e jid =
     update_jobs (\<lambda>r. j_id r = jid \<and> active_status (j_status r))
       (set_stopped (now e) Superseded (Some ''superseded by a newer transcription request''))"

definition workspaceOwnsTranscriptionJobManual :: "nat \<Rightarrow> nat \<Rightarrow> db \<Rightarrow> bool" where
  "workspaceOwnsTranscriptionJobManual jid workspace d \<longleftrightarrow>
     list_ex (\<lambda>r. j_id r = jid \<and> j_workspace_id r = workspace) (jobs d)"

subsection \<open>Admission and retention\<close>

definition countActiveTranscriptionJobsByWorkspaceManual :: "nat \<Rightarrow> db \<Rightarrow> nat" where
  "countActiveTranscriptionJobsByWorkspaceManual workspace d =
     sql_count (\<lambda>r. j_workspace_id r = workspace \<and> active_status (j_status r)) (jobs d)"

definition countTerminalTranscriptionJobsForWorkspaceManual :: "nat \<Rightarrow> db \<Rightarrow> nat" where
  "countTerminalTranscriptionJobsForWorkspaceManual workspace d =
     sql_count (\<lambda>r. j_workspace_id r = workspace \<and> terminal_status (j_status r)) (jobs d)"

text \<open>\<^verbatim>\<open>ORDER BY updated_at ASC, id ASC\<close> is the lexicographic order of the pair.\<close>

definition lockOldestTerminalTranscriptionJobsForWorkspaceManual :: "nat \<Rightarrow> nat \<Rightarrow> db \<Rightarrow> nat list" where
  "lockOldestTerminalTranscriptionJobsForWorkspaceManual workspace lim d =
     take lim (map j_id (sort_key (\<lambda>r. (j_updated_at r, j_id r))
       (filter (\<lambda>r. j_workspace_id r = workspace \<and> terminal_status (j_status r)) (jobs d))))"

definition detachExternalRequestsFromRetainedJobManual :: "env \<Rightarrow> nat \<Rightarrow> nat option \<Rightarrow> (db, nat) tx" where
  "detachExternalRequestsFromRetainedJobManual e workspace jid =
     exec_update requests put_requests (\<lambda>_. True)
       (\<lambda>q. rq_workspace_id q = workspace \<and> null_eq (rq_transcription_job_id q) jid)
       (\<lambda>q. q\<lparr>rq_transcription_job_id := None, rq_updated_at := now e\<rparr>)"

definition detachUploadBatchFilesFromRetainedJobManual :: "env \<Rightarrow> nat \<Rightarrow> nat option \<Rightarrow> (db, nat) tx" where
  "detachUploadBatchFilesFromRetainedJobManual e workspace jid =
     exec_update batch_files put_batch_files (\<lambda>_. True)
       (\<lambda>f. bf_workspace_id f = workspace \<and> null_eq (bf_transcription_job_id f) jid)
       (\<lambda>f. f\<lparr>bf_transcription_job_id := None, bf_updated_at := max (bf_updated_at f + 1) (now e)\<rparr>)"

definition deleteRetainedTranscriptionJobAttemptsManual :: "nat \<Rightarrow> (db, nat) tx" where
  "deleteRetainedTranscriptionJobAttemptsManual jid =
     exec_delete attempts put_attempts (\<lambda>a. a_job_id a = jid)"

definition deleteRetainedTerminalTranscriptionJobManual :: "nat \<Rightarrow> nat \<Rightarrow> (db, nat) tx" where
  "deleteRetainedTerminalTranscriptionJobManual jid workspace =
     exec_delete jobs put_jobs
       (\<lambda>r. j_id r = jid \<and> j_workspace_id r = workspace \<and> terminal_status (j_status r))"

definition lockTranscriptionJobWorkspaceByItemImageManual :: "nat \<Rightarrow> (db, nat) tx" where
  "lockTranscriptionJobWorkspaceByItemImageManual img =
     tx_row (\<lambda>d. case [w. ii \<leftarrow> images d, im_id ii = img, i \<leftarrow> items d, it_id i = im_item_id ii,
                          w \<leftarrow> workspaces d, w = it_workspace_id i] of
                    [] \<Rightarrow> None | w # _ \<Rightarrow> Some w)"

definition lockCanonicalRevisionForTranscriptionJobManual :: "nat \<Rightarrow> db \<Rightarrow> nat option" where
  "lockCanonicalRevisionForTranscriptionJobManual img d =
     (case [pg_revision ap. ii \<leftarrow> images d, im_id ii = img, i \<leftarrow> items d, it_id i = im_item_id ii,
              ap \<leftarrow> pages d, pg_item_image_id ap = im_id ii \<and> pg_workspace_id ap = it_workspace_id i] of
        [] \<Rightarrow> None | v # _ \<Rightarrow> Some v)"

text \<open>
  \<^verbatim>\<open>INSERT \<dots> SELECT \<dots> ON DUPLICATE KEY UPDATE id = LAST_INSERT_ID(id)\<close>: the primary keys of the
  joined tables leave at most one source row; an active job of the same image is returned
  instead of a second insert, and no source row leaves the insert id 0.
\<close>

definition new_job_row ::
    "env \<Rightarrow> nat \<Rightarrow> nat \<Rightarrow> nat \<Rightarrow> nat option \<Rightarrow> nat option \<Rightarrow> json \<Rightarrow> nat \<Rightarrow> job_row" where
  "new_job_row e jid workspace img context_id scope snapshot revision =
     \<lparr>j_id = jid, j_workspace_id = workspace, j_item_image_id = img, j_context_id = context_id,
      j_context_scope_id = scope, j_context_snapshot = snapshot, j_input_revision = revision,
      j_status = Pending, j_total_segments = 0, j_completed_segments = 0, j_failed_segments = 0,
      j_attempt_count = 0, j_max_attempts = 3, j_retry_after = None, j_lease_until = None,
      j_locked_by = None, j_current_annotation_id = None, j_current_annotation_json = None,
      j_last_result_annotation_json = None, j_error_message = None,
      j_created_at = now e, j_updated_at = now e\<rparr>"

definition insert_job :: "(nat \<Rightarrow> job_row) \<Rightarrow> (db, nat) tx" where
  "insert_job mk = (\<lambda>d. let row = mk (next_job_id d) in
     if \<not> job_row_check row then Inl ErrCheck
     else case find (\<lambda>r. null_eq (j_active_item_image_id r) (j_active_item_image_id row)) (jobs d) of
            Some r \<Rightarrow> Inr (j_id r, d)
          | None \<Rightarrow> Inr (next_job_id d, d\<lparr>jobs := jobs d @ [row], next_job_id := next_job_id d + 1\<rparr>))"

definition createTranscriptionJobManual :: "env \<Rightarrow> nat \<Rightarrow> nat option \<Rightarrow> json \<Rightarrow> (db, nat) tx" where
  "createTranscriptionJobManual e img context_id snapshot = (\<lambda>d.
     case [(it_workspace_id i, cx_scope_id c, pg_revision ap).
             ii \<leftarrow> images d, im_id ii = img, i \<leftarrow> items d, it_id i = im_item_id ii,
             ap \<leftarrow> pages d, pg_item_image_id ap = im_id ii \<and> pg_workspace_id ap = it_workspace_id i,
             c \<leftarrow> contexts d, null_eq (Some (cx_id c)) context_id \<and>
               (cx_workspace_id c = None \<or> cx_workspace_id c = Some (it_workspace_id i))] of
       [] \<Rightarrow> Inr (0, d)
     | (w, scope, revision) # _ \<Rightarrow>
         insert_job (\<lambda>jid. new_job_row e jid w img context_id (Some scope) snapshot revision) d)"

subsection \<open>Attempts\<close>

definition insertTranscriptionJobAttemptManual ::
    "env \<Rightarrow> string \<Rightarrow> string \<Rightarrow> nat \<Rightarrow> int \<Rightarrow> nat \<Rightarrow> string option \<Rightarrow> (db, nat) tx" where
  "insertTranscriptionJobAttemptManual e lease_owner lease_token jid attempt_number input_revision job_lease_token =
     (\<lambda>d. case find (\<lambda>r. j_id r = jid \<and> j_status r = Running \<and> j_attempt_count r = attempt_number \<and>
                        j_input_revision r = input_revision \<and>
                        coalesce_eq (j_locked_by r) job_lease_token) (jobs d) of
            None \<Rightarrow> Inr (0, d)
          | Some r \<Rightarrow>
              (let a = \<lparr>a_job_id = j_id r, a_attempt_number = j_attempt_count r,
                        a_context_snapshot = j_context_snapshot r, a_input_revision = j_input_revision r,
                        a_lease_owner = lease_owner, a_lease_token = lease_token, a_outcome = ORunning,
                        a_safe_error_message = None, a_result_revision = None,
                        a_started_at = now6 e, a_finished_at = None\<rparr>
               in if list_ex (\<lambda>b. (a_job_id b = j_id r \<and> a_attempt_number b = j_attempt_count r) \<or>
                                  a_lease_token b = lease_token) (attempts d)
                  then Inl ErrDuplicateKey
                  else if \<not> attempt_row_check a then Inl ErrCheck
                  else Inr (1, d\<lparr>attempts := attempts d @ [a]\<rparr>)))"

definition finishTranscriptionJobAttemptManual ::
    "env \<Rightarrow> outcome \<Rightarrow> string option \<Rightarrow> nat option \<Rightarrow> nat \<Rightarrow> int \<Rightarrow> nat \<Rightarrow> string \<Rightarrow> (db, nat) tx" where
  "finishTranscriptionJobAttemptManual e oc safe_error result_revision jid attempt_number input_revision lease_token =
     exec_update attempts put_attempts attempt_row_check
       (\<lambda>a. a_job_id a = jid \<and> a_attempt_number a = attempt_number \<and>
            a_input_revision a = input_revision \<and> a_lease_token a = lease_token \<and> a_outcome a = ORunning)
       (\<lambda>a. a\<lparr>a_outcome := oc, a_safe_error_message := safe_error, a_result_revision := result_revision,
            a_finished_at := Some (max (a_started_at a) (now6 e))\<rparr>)"

definition listTranscriptionJobAttemptsManual :: "nat \<Rightarrow> db \<Rightarrow> attempt_row list" where
  "listTranscriptionJobAttemptsManual jid d =
     sort_key a_attempt_number (filter (\<lambda>a. a_job_id a = jid) (attempts d))"

subsection \<open>Checkpoints\<close>

definition deleteTranscriptionCheckpoints :: "nat \<Rightarrow> (db, nat) tx" where
  "deleteTranscriptionCheckpoints jid =
     exec_delete checkpoints put_checkpoints (\<lambda>c. c_job_id c = jid)"

definition saveTranscriptionCheckpoint :: "nat \<Rightarrow> string \<Rightarrow> string \<Rightarrow> (db, unit) tx" where
  "saveTranscriptionCheckpoint jid line_id payload = (\<lambda>d.
     if list_ex (\<lambda>c. c_job_id c = jid \<and> c_line_id c = line_id) (checkpoints d)
     then Inr ((), d\<lparr>checkpoints :=
            sql_update (\<lambda>c. c_job_id c = jid \<and> c_line_id c = line_id)
                       (\<lambda>c. c\<lparr>c_payload := payload\<rparr>) (checkpoints d)\<rparr>)
     else Inr ((), d\<lparr>checkpoints := checkpoints d @
            [\<lparr>c_job_id = jid, c_line_id = line_id, c_payload = payload\<rparr>]\<rparr>))"

definition getTranscriptionCheckpoint ::
    "env \<Rightarrow> nat \<Rightarrow> int \<Rightarrow> nat \<Rightarrow> string option \<Rightarrow> (db, string option) tx" where
  "getTranscriptionCheckpoint e jid attempt_number input_revision lease_token =
     tx_row (\<lambda>d. map_option
       (\<lambda>r. map_option c_payload
              (find (\<lambda>c. c_job_id c = j_id r \<and> c_line_id c = []) (checkpoints d)))
       (find (\<lambda>r. j_id r = jid \<and> j_status r = Running \<and> j_attempt_count r = attempt_number \<and>
                  j_input_revision r = input_revision \<and> null_eq (j_locked_by r) lease_token \<and>
                  (case j_lease_until r of None \<Rightarrow> False | Some u \<Rightarrow> now e < u)) (jobs d)))"

definition listTranscriptionLineCheckpoints :: "nat \<Rightarrow> db \<Rightarrow> (string \<times> string) list" where
  "listTranscriptionLineCheckpoints jid d =
     map (\<lambda>c. (c_line_id c, c_payload c))
       (filter (\<lambda>c. c_job_id c = jid \<and> c_line_id c \<noteq> []) (checkpoints d))"

end
