(* ===== verification/Safe_Failures.thy ===== *)
theory Safe_Failures
  imports Scribe_Prelude
begin

section \<open>Failure messages that may be stored\<close>

text \<open>
  The sanitizers between an internal or provider error and the database: \<^verbatim>\<open>safe_failures.go\<close> and
  \<^verbatim>\<open>safeTranscriptionErrorMessage\<close> of \<^verbatim>\<open>transcription_jobs.go\<close>. The theorems show that a stored message
  is one of a closed set of short literals, whatever the error text was, and that a stored
  message is left as it is when it passes through the sanitizer again where the code relies on
  that.
\<close>

subsection \<open>Transcription attempts\<close>

definition safeTranscriptionErrorMessage :: "string \<Rightarrow> string" where
  "safeTranscriptionErrorMessage message =
     (let normalized = to_lower (trim_space message); has = contains_str normalized in
      if has ''canonical annotation page'' \<and> has ''changed''
      then ''canonical annotation page changed during transcription''
      else if has ''canonical annotation page'' \<and> (has ''missing'' \<or> has ''not found'' \<or> has ''required'')
      then ''canonical annotation page is unavailable''
      else if has ''context snapshot''
      then ''transcription context snapshot is invalid''
      else if has ''transcription job'' \<and> has ''segments'' \<and> has ''maximum''
      then ''transcription job exceeds configured segment limit''
      else if has ''workspace provider credential'' \<and> has ''not configured''
      then ''workspace provider credential is not configured''
      else if has ''workspace provider credential'' \<and> has ''invalid''
      then ''workspace provider credential is invalid''
      else if has ''worker shutting down'' \<or> has ''context canceled'' \<or> has ''deadline exceeded''
      then ''transcription attempt was interrupted''
      else if has ''provider'' \<or> has ''transcription failed for''
      then ''transcription provider request failed''
      else ''transcription attempt failed'')"

definition transcription_messages :: "string list" where
  "transcription_messages =
     [''canonical annotation page changed during transcription'',
      ''canonical annotation page is unavailable'',
      ''transcription context snapshot is invalid'',
      ''transcription job exceeds configured segment limit'',
      ''workspace provider credential is not configured'',
      ''workspace provider credential is invalid'',
      ''transcription attempt was interrupted'',
      ''transcription provider request failed'',
      ''transcription attempt failed'']"

lemma safeTranscriptionErrorMessage_mem: "safeTranscriptionErrorMessage m \<in> set transcription_messages"
  by (simp add: safeTranscriptionErrorMessage_def transcription_messages_def Let_def)

lemma transcription_messages_trimmed:
  "list_all (\<lambda>m. trim_space m = m \<and> m \<noteq> [] \<and> length m \<le> 128) transcription_messages"
  by code_simp

lemma safeTranscriptionErrorMessage_trimmed:
  "trim_space (safeTranscriptionErrorMessage m) = safeTranscriptionErrorMessage m"
  "safeTranscriptionErrorMessage m \<noteq> []"
  using safeTranscriptionErrorMessage_mem [of m] transcription_messages_trimmed
  by (auto simp: list_all_iff)

subsection \<open>Durable failures of other operations\<close>

datatype durableFailureOperation =
    durableFailureExternalRequest
  | durableFailureResourceCleanup
  | durableFailureAnnotationMirror
  | durableFailureWebhook

datatype durableFailureCategory =
    durableFailureGeneric
  | durableFailureInterrupted
  | durableFailureAuthorization
  | durableFailureLimit
  | durableFailureValidation
  | durableFailureDependency

fun durableFailureCategoryMessage :: "durableFailureOperation \<Rightarrow> durableFailureCategory \<Rightarrow> string" where
  "durableFailureCategoryMessage durableFailureExternalRequest c =
     (case c of durableFailureInterrupted \<Rightarrow> ''external request was interrupted''
      | durableFailureAuthorization \<Rightarrow> ''external provider authentication failed''
      | durableFailureLimit \<Rightarrow> ''external request exceeded a configured limit''
      | durableFailureValidation \<Rightarrow> ''external request validation failed''
      | durableFailureDependency \<Rightarrow> ''external provider request failed''
      | durableFailureGeneric \<Rightarrow> ''external request failed'')"
| "durableFailureCategoryMessage durableFailureResourceCleanup c =
     (case c of durableFailureInterrupted \<Rightarrow> ''resource cleanup was interrupted''
      | durableFailureAuthorization \<Rightarrow> ''resource cleanup authorization failed''
      | durableFailureLimit \<Rightarrow> ''resource cleanup was rate limited''
      | durableFailureValidation \<Rightarrow> ''resource cleanup request was rejected''
      | durableFailureDependency \<Rightarrow> ''resource cleanup dependency failed''
      | durableFailureGeneric \<Rightarrow> ''resource cleanup failed'')"
| "durableFailureCategoryMessage durableFailureAnnotationMirror c =
     (case c of durableFailureInterrupted \<Rightarrow> ''annotation mirror delivery was interrupted''
      | durableFailureAuthorization \<Rightarrow> ''annotation mirror authorization failed''
      | durableFailureLimit \<Rightarrow> ''annotation mirror delivery was rate limited''
      | durableFailureValidation \<Rightarrow> ''annotation mirror payload was rejected''
      | _ \<Rightarrow> ''annotation mirror delivery failed'')"
| "durableFailureCategoryMessage durableFailureWebhook c =
     (case c of durableFailureInterrupted \<Rightarrow> ''webhook request timed out''
      | durableFailureAuthorization \<Rightarrow> ''webhook request authorization failed''
      | durableFailureLimit \<Rightarrow> ''webhook request was rate limited''
      | durableFailureValidation \<Rightarrow> ''webhook request was rejected''
      | _ \<Rightarrow> ''webhook request failed'')"

text \<open>
  \<^verbatim>\<open>status NNN\<close> with a three-byte number between 100 and 599. \<^verbatim>\<open>strconv.Atoi\<close> also reads a sign, but a
  three-byte text with a sign is below 100 in absolute value and rejected by the range check,
  so only the digits can matter.
\<close>

definition boundedHTTPStatus :: "string \<Rightarrow> nat option" where
  "boundedHTTPStatus message =
     (case fields message of
        [f0, f1] \<Rightarrow>
          if f0 \<noteq> ''status'' \<or> length f1 \<noteq> 3 then None
          else if \<not> list_all is_digit f1 then None
          else if digits_val f1 < 100 \<or> digits_val f1 > 599 then None
          else Some (digits_val f1)
      | _ \<Rightarrow> None)"

definition classifyFailure :: "string \<Rightarrow> durableFailureCategory" where
  "classifyFailure normalized =
     (let has_any = list_ex (contains_str normalized) in
      if has_any [''context canceled'', ''deadline exceeded'', ''timed out'', ''timeout'', ''worker shutting down'']
      then durableFailureInterrupted
      else if has_any [''unauthorized'', ''forbidden'', ''authentication'', ''credential'', ''permission denied'']
      then durableFailureAuthorization
      else if has_any [''quota'', ''rate limit'', ''resource exhausted'', ''too large'', ''maximum'', ''configured limit'']
      then durableFailureLimit
      else if has_any [''invalid'', ''malformed'', ''unsupported'', ''validation'', ''rejected'']
      then durableFailureValidation
      else if has_any [''provider'', ''upstream'', ''http'', ''network'', ''connection'', ''unavailable'', ''dial'']
      then durableFailureDependency
      else durableFailureGeneric)"

definition maxDurableFailureMessageBytes :: nat where
  "maxDurableFailureMessageBytes = 128"

definition safeDurableFailureMessage :: "durableFailureOperation \<Rightarrow> string \<Rightarrow> string" where
  "safeDurableFailureMessage operation message =
     (let normalized = to_lower (trim_space message);
          status = (if operation = durableFailureWebhook then boundedHTTPStatus normalized else None) in
      case status of
        Some n \<Rightarrow> ''status '' @ itoa n
      | None \<Rightarrow>
          (let result = durableFailureCategoryMessage operation (classifyFailure normalized) in
           if length result > maxDurableFailureMessageBytes
           then durableFailureCategoryMessage operation durableFailureGeneric
           else result))"

definition SafeResourceCleanupFailureMessage :: "string option \<Rightarrow> string" where
  "SafeResourceCleanupFailureMessage cause =
     safeDurableFailureMessage durableFailureResourceCleanup (case cause of None \<Rightarrow> [] | Some m \<Rightarrow> m)"

definition SafeAnnotationMirrorFailureMessage :: "string option \<Rightarrow> string" where
  "SafeAnnotationMirrorFailureMessage cause =
     safeDurableFailureMessage durableFailureAnnotationMirror (case cause of None \<Rightarrow> [] | Some m \<Rightarrow> m)"

definition SafeTranscriptionFailureMessage :: "string option \<Rightarrow> string" where
  "SafeTranscriptionFailureMessage err =
     (case err of None \<Rightarrow> ''transcription attempt failed'' | Some m \<Rightarrow> safeTranscriptionErrorMessage m)"

subsection \<open>What can be stored\<close>

lemma itoa_status_length: "n < 1000 \<Longrightarrow> length (itoa n) \<le> 3"
  by (simp add: itoa.simps [of n] itoa.simps [of "n div 10"] itoa.simps [of "n div 10 div 10"])

lemma durableFailureCategoryMessage_short: "length (durableFailureCategoryMessage op c) \<le> 128"
  by (cases op; cases c) simp_all

lemma safeDurableFailureMessage_cases:
  obtains (category) c where "safeDurableFailureMessage op m = durableFailureCategoryMessage op c"
  | (status) n where "op = durableFailureWebhook" and "100 \<le> n" and "n \<le> 599"
      and "safeDurableFailureMessage op m = ''status '' @ itoa n"
proof (cases "if op = durableFailureWebhook then boundedHTTPStatus (to_lower (trim_space m)) else None")
  case None
  then have "safeDurableFailureMessage op m =
      durableFailureCategoryMessage op (classifyFailure (to_lower (trim_space m)))"
    by (simp add: safeDurableFailureMessage_def Let_def maxDurableFailureMessageBytes_def
                  durableFailureCategoryMessage_short [THEN leD])
  then show thesis by (rule category)
next
  case (Some n)
  then have op: "op = durableFailureWebhook" and b: "boundedHTTPStatus (to_lower (trim_space m)) = Some n"
    by (auto split: if_splits)
  from b have "100 \<le> n" and "n \<le> 599"
    by (auto simp: boundedHTTPStatus_def split: list.splits if_splits)
  moreover from op b have "safeDurableFailureMessage op m = ''status '' @ itoa n"
    by (simp add: safeDurableFailureMessage_def Let_def)
  ultimately show thesis using op status by blast
qed

text \<open>
  C36: Whatever text an external failure carries, the message stored for it is one of the fixed
  category messages of its operation, or, for a webhook only, \<^verbatim>\<open>status\<close> followed by a number from
  100 to 599; it is never longer than 128 bytes.
\<close>

theorem stored_failure_is_categorical:
  "((\<exists>c. safeDurableFailureMessage op m = durableFailureCategoryMessage op c) \<or>
    (op = durableFailureWebhook \<and>
     (\<exists>n. 100 \<le> n \<and> n \<le> 599 \<and> safeDurableFailureMessage op m = ''status '' @ itoa n))) \<and>
   length (safeDurableFailureMessage op m) \<le> maxDurableFailureMessageBytes"
proof (rule safeDurableFailureMessage_cases [where op = op and m = m])
  fix c assume "safeDurableFailureMessage op m = durableFailureCategoryMessage op c"
  then show ?thesis
    by (auto simp: maxDurableFailureMessageBytes_def durableFailureCategoryMessage_short)
next
  fix n assume "op = durableFailureWebhook" "100 \<le> n" "n \<le> 599"
    "safeDurableFailureMessage op m = ''status '' @ itoa n"
  moreover from this have "length (itoa n) \<le> 3" by (intro itoa_status_length) simp
  ultimately show ?thesis by (auto simp: maxDurableFailureMessageBytes_def)
qed

text \<open>
  The worker sanitizes an error before it calls \<^verbatim>\<open>FailWithWebhookEvent\<close>, which sanitizes its argument
  again. Six of the nine messages survive the second pass; three do not.
\<close>

definition resanitized_messages :: "string list" where
  "resanitized_messages =
     [''canonical annotation page is unavailable'',
      ''transcription job exceeds configured segment limit'',
      ''transcription attempt was interrupted'']"

lemma resanitize_table:
  "list_all (\<lambda>m. safeTranscriptionErrorMessage m =
      (if List.member resanitized_messages m then ''transcription attempt failed'' else m))
     transcription_messages"
  by code_simp

text \<open>
  Sanitizing a transcription failure twice, as the worker and the store do, keeps the message
  unless it is one of the three listed, which the second pass turns into the generic
  \<^verbatim>\<open>transcription attempt failed\<close>: the stored category is then not the one the failure event carries.
\<close>

theorem resanitized_message:
  "safeTranscriptionErrorMessage (safeTranscriptionErrorMessage m) =
     (if safeTranscriptionErrorMessage m \<in> set resanitized_messages
      then ''transcription attempt failed'' else safeTranscriptionErrorMessage m)"
  using safeTranscriptionErrorMessage_mem [of m] resanitize_table
  by (auto simp: list_all_iff)

end
