(* ===== verification/Event_Outbox.thy ===== *)
theory Event_Outbox
  imports Job_Queries Safe_Failures
begin

section \<open>The event outbox and webhook deliveries\<close>

text \<open>
  The statements of \<^verbatim>\<open>internal/db/event_outbox.sql.go\<close> with their adapters of
  \<^verbatim>\<open>internal/db/integration_workflows.go\<close>, and the operations of
  \<^verbatim>\<open>internal/store/transcription_jobs.go\<close> on events: enqueueing an event with one delivery per
  subscription of its workspace, claiming and finishing deliveries, and retention. The theorems
  show that deliveries never cross workspaces, that a delivery is attempted at most
  \<^verbatim>\<open>max_attempts\<close> times, that only the lease owner can finish it, and what retention removes.
\<close>

subsection \<open>Statements\<close>

definition requireAffectedRow :: "(db, nat) tx \<Rightarrow> (db, unit) tx" where
  "requireAffectedRow m = tx_bind m (\<lambda>n. tx_guard (n \<noteq> 0) ErrNoRows)"

definition intToInt32 :: "int \<Rightarrow> err + int" where
  "intToInt32 v = (if v < - (2 ^ 31) \<or> v > 2 ^ 31 - 1 then Inl (ErrInvalid ''int32 range'') else Inr v)"

definition getWorkspaceIDForItemImageManual :: "nat \<Rightarrow> (db, nat) tx" where
  "getWorkspaceIDForItemImageManual img =
     tx_row (\<lambda>d. case [it_workspace_id i. ii \<leftarrow> images d, im_id ii = img,
                        i \<leftarrow> items d, it_id i = im_item_id ii] of
                   [] \<Rightarrow> None | w # _ \<Rightarrow> Some w)"

text \<open>\<^verbatim>\<open>INSERT IGNORE\<close> leaves an existing event with the same \<^verbatim>\<open>event_id\<close> as it is.\<close>

definition insertEventOutboxManual ::
    "env \<Rightarrow> string \<Rightarrow> string \<Rightarrow> nat option \<Rightarrow> string option \<Rightarrow> string \<Rightarrow> (db, unit) tx" where
  "insertEventOutboxManual e event_id event_type workspace subject body = (\<lambda>d.
     if (workspace = None \<or> list_ex (\<lambda>w. workspace = Some w) (workspaces d)) \<and>
        \<not> list_ex (\<lambda>ev. ev_event_id ev = event_id) (events d)
     then Inr ((), d\<lparr>events := events d @
            [\<lparr>ev_id = next_event_id d, ev_event_id = event_id, ev_event_type = event_type,
              ev_workspace_id = workspace, ev_subject = subject, ev_body_json = body,
              ev_created_at = now e\<rparr>],
            next_event_id := next_event_id d + 1\<rparr>)
     else Inr ((), d))"

definition lockWebhookDeliveryExpansionWorkspaceManual :: "string \<Rightarrow> (db, nat) tx" where
  "lockWebhookDeliveryExpansionWorkspaceManual event_id =
     tx_row (\<lambda>d. case [w. ev \<leftarrow> events d, ev_event_id ev = event_id,
                         w \<leftarrow> workspaces d, ev_workspace_id ev = Some w] of
                   [] \<Rightarrow> None | w # _ \<Rightarrow> Some w)"

definition insert_delivery :: "env \<Rightarrow> string \<Rightarrow> nat \<Rightarrow> db \<Rightarrow> db" where
  "insert_delivery e event_id sub d =
     (if list_ex (\<lambda>w. wd_event_id w = event_id \<and> wd_subscription_id w = sub) (deliveries d) then d
      else d\<lparr>deliveries := deliveries d @
            [\<lparr>wd_id = next_delivery_id d, wd_event_id = event_id, wd_subscription_id = sub,
              wd_status = DPending, wd_attempt_count = 0, wd_max_attempts = 10,
              wd_next_attempt_at = None, wd_lease_until = None, wd_locked_by = None,
              wd_last_error = None, wd_created_at = now e, wd_updated_at = now e\<rparr>],
            next_delivery_id := next_delivery_id d + 1\<rparr>)"

definition insertWorkspaceWebhookDeliveriesManual :: "env \<Rightarrow> string \<Rightarrow> (db, unit) tx" where
  "insertWorkspaceWebhookDeliveriesManual e event_id = (\<lambda>d.
     Inr ((), foldl (\<lambda>d (eid, sid). insert_delivery e eid sid d) d
       [(ev_event_id ev, ws_id s). ev \<leftarrow> events d, ev_event_id ev = event_id,
          s \<leftarrow> subscriptions d, ev_workspace_id ev = Some (ws_workspace_id s)]))"

definition InsertWorkspaceWebhookDeliveries :: "env \<Rightarrow> string \<Rightarrow> (db, unit) tx" where
  "InsertWorkspaceWebhookDeliveries e event_id =
     tx_bind (lockWebhookDeliveryExpansionWorkspaceManual event_id) (\<lambda>_.
       insertWorkspaceWebhookDeliveriesManual e event_id)"

definition delivery_lease_expired :: "nat \<Rightarrow> delivery_row \<Rightarrow> bool" where
  "delivery_lease_expired t w \<longleftrightarrow>
     wd_status w = DProcessing \<and> (case wd_lease_until w of None \<Rightarrow> False | Some u \<Rightarrow> u < t)"

definition delivery_claimable :: "nat \<Rightarrow> delivery_row \<Rightarrow> bool" where
  "delivery_claimable t w \<longleftrightarrow>
     (wd_status w = DPending \<and> (case wd_next_attempt_at w of None \<Rightarrow> True | Some u \<Rightarrow> u \<le> t)) \<or>
     (delivery_lease_expired t w \<and> wd_attempt_count w < wd_max_attempts w)"

definition update_deliveries :: "(delivery_row \<Rightarrow> bool) \<Rightarrow> (delivery_row \<Rightarrow> delivery_row) \<Rightarrow> (db, nat) tx" where
  "update_deliveries = exec_update deliveries put_deliveries (\<lambda>_. True)"

definition failExpiredExhaustedWebhookDeliveriesManual :: "env \<Rightarrow> (db, nat) tx" where
  "failExpiredExhaustedWebhookDeliveriesManual e =
     update_deliveries
       (\<lambda>w. delivery_lease_expired (now e) w \<and> wd_attempt_count w \<ge> wd_max_attempts w)
       (\<lambda>w. w\<lparr>wd_status := DFailed, wd_lease_until := None, wd_locked_by := None,
            wd_last_error := (case wd_last_error w of
               None \<Rightarrow> Some ''delivery lease expired after maximum attempts'' | Some m \<Rightarrow> Some m),
            wd_updated_at := now e\<rparr>)"

text \<open>The rows a claim returns: a delivery with its event and subscription.\<close>

record WebhookDelivery =
  dl_id :: nat
  dl_event_id :: string
  dl_event_type :: string
  dl_subject :: string
  dl_body_json :: string
  dl_subscription_id :: nat
  dl_target_url :: string
  dl_signing_secret :: string
  dl_lease_owner :: string
  dl_attempt_count :: int
  dl_max_attempts :: int

definition opt_string :: "string option \<Rightarrow> string" where
  "opt_string v = (case v of None \<Rightarrow> [] | Some s \<Rightarrow> s)"

definition dbWebhookDeliveryToStore :: "delivery_row \<Rightarrow> event_row \<Rightarrow> subscription_row \<Rightarrow> WebhookDelivery" where
  "dbWebhookDeliveryToStore w ev s =
     \<lparr>dl_id = wd_id w, dl_event_id = wd_event_id w, dl_event_type = ev_event_type ev,
      dl_subject = opt_string (ev_subject ev), dl_body_json = ev_body_json ev,
      dl_subscription_id = wd_subscription_id w, dl_target_url = ws_target_url s,
      dl_signing_secret = ws_signing_secret s, dl_lease_owner = opt_string (wd_locked_by w),
      dl_attempt_count = wd_attempt_count w, dl_max_attempts = wd_max_attempts w\<rparr>"

definition claimWebhookDeliveriesManual ::
    "env \<Rightarrow> nat \<Rightarrow> db \<Rightarrow> (delivery_row \<times> event_row \<times> subscription_row) list" where
  "claimWebhookDeliveriesManual e lim d =
     take lim (sort_key (wd_created_at \<circ> fst)
       [(w, ev, s). w \<leftarrow> deliveries d, delivery_claimable (now e) w \<and> \<not> delivery_locked e (wd_id w),
          ev \<leftarrow> events d, ev_event_id ev = wd_event_id w,
          s \<leftarrow> subscriptions d, ws_id s = wd_subscription_id w \<and>
            ev_workspace_id ev = Some (ws_workspace_id s)])"

definition markWebhookDeliveryProcessingManual :: "env \<Rightarrow> nat \<Rightarrow> string option \<Rightarrow> nat \<Rightarrow> (db, nat) tx" where
  "markWebhookDeliveryProcessingManual e lease_until locked_by wid =
     update_deliveries (\<lambda>w. wd_id w = wid)
       (\<lambda>w. w\<lparr>wd_status := DProcessing, wd_attempt_count := wd_attempt_count w + 1,
            wd_lease_until := Some lease_until, wd_locked_by := locked_by, wd_updated_at := now e\<rparr>)"

definition markWebhookDeliveryDeliveredManual :: "env \<Rightarrow> nat \<Rightarrow> string option \<Rightarrow> (db, nat) tx" where
  "markWebhookDeliveryDeliveredManual e wid locked_by =
     update_deliveries
       (\<lambda>w. wd_id w = wid \<and> null_eq (wd_locked_by w) locked_by \<and> wd_status w = DProcessing)
       (\<lambda>w. w\<lparr>wd_status := DDelivered, wd_lease_until := None, wd_locked_by := None,
            wd_last_error := None, wd_updated_at := now e\<rparr>)"

text \<open>\<^verbatim>\<open>LEAST(900, POW(2, attempt_count) * 5)\<close> seconds.\<close>

definition webhook_delay :: "int \<Rightarrow> nat" where
  "webhook_delay attempt_count = min 900 (2 ^ nat attempt_count * 5)"

definition markWebhookDeliveryFailedManual ::
    "env \<Rightarrow> string option \<Rightarrow> nat \<Rightarrow> string option \<Rightarrow> (db, nat) tx" where
  "markWebhookDeliveryFailedManual e last_error wid locked_by =
     update_deliveries
       (\<lambda>w. wd_id w = wid \<and> null_eq (wd_locked_by w) locked_by \<and> wd_status w = DProcessing)
       (\<lambda>w. w\<lparr>wd_status := (if wd_attempt_count w \<ge> wd_max_attempts w then DFailed else DPending),
            wd_next_attempt_at := (if wd_attempt_count w \<ge> wd_max_attempts w then None
                                   else Some (now e + webhook_delay (wd_attempt_count w))),
            wd_lease_until := None, wd_locked_by := None, wd_last_error := last_error,
            wd_updated_at := now e\<rparr>)"

definition lockEventOutboxRetentionBatchManual :: "int \<Rightarrow> db \<Rightarrow> string list" where
  "lockEventOutboxRetentionBatchManual cutoff6 d =
     take 1000 (map ev_event_id (sort_key ev_id
       (filter (\<lambda>ev. int (ev_created_at ev) * 1000000 < cutoff6) (events d))))"

definition deleteWebhookDeliveriesForEventIDsManual :: "string list \<Rightarrow> (db, nat) tx" where
  "deleteWebhookDeliveriesForEventIDsManual ids =
     exec_delete deliveries put_deliveries (\<lambda>w. List.member ids (wd_event_id w))"

definition deleteEventOutboxForIDsManual :: "string list \<Rightarrow> (db, nat) tx" where
  "deleteEventOutboxForIDsManual ids =
     exec_delete events put_events (\<lambda>ev. List.member ids (ev_event_id ev))"

subsection \<open>Operations\<close>

definition itemImageIDFromSubject :: "string \<Rightarrow> nat option" where
  "itemImageIDFromSubject subject =
     (case strip_prefix ''item-images/'' (trim_space subject) of
        None \<Rightarrow> None
      | Some raw \<Rightarrow>
          if raw = [] then None
          else (let idPart = (case cut_at (CHR ''/'') raw of None \<Rightarrow> raw | Some (a, b) \<Rightarrow> a) in
                case parse_uint64 idPart of
                  None \<Rightarrow> None
                | Some n \<Rightarrow> if n > 0 then Some n else None))"

definition eventWorkspaceID :: "string \<Rightarrow> (db, nat option) tx" where
  "eventWorkspaceID subject =
     (case itemImageIDFromSubject subject of
        None \<Rightarrow> tx_raise (ErrInvalid ''event subject must identify an item image'')
      | Some img \<Rightarrow>
          tx_bind (getWorkspaceIDForItemImageManual img) (\<lambda>w. tx_return (nullableUint64 w)))"

definition EnqueueWebhookEvent :: "env \<Rightarrow> string \<Rightarrow> string \<Rightarrow> string \<Rightarrow> string \<Rightarrow> (db, unit) tx" where
  "EnqueueWebhookEvent e event_id event_type subject body =
     (if trim_space event_id = [] \<or> trim_space body = [] then tx_return ()
      else tx_bind (eventWorkspaceID subject) (\<lambda>w.
           tx_bind (insertEventOutboxManual e event_id event_type w (nullableString subject) body) (\<lambda>_.
           InsertWorkspaceWebhookDeliveries e event_id)))"

definition SystemWebhookEventMaintenance :: string where
  "SystemWebhookEventMaintenance = ''dev.scribe.system.maintenance''"

definition EnqueueSystemWebhookEvent :: "env \<Rightarrow> string \<Rightarrow> string \<Rightarrow> string \<Rightarrow> (db, unit) tx" where
  "EnqueueSystemWebhookEvent e event_id event_type body =
     (if event_type \<noteq> SystemWebhookEventMaintenance
      then tx_raise (ErrInvalid ''system webhook event type is not allowed'')
      else if trim_space event_id = [] \<or> trim_space body = [] then tx_return ()
      else insertEventOutboxManual e event_id event_type None None body)"

definition ClaimWebhookDeliveries :: "env \<Rightarrow> int \<Rightarrow> (db, WebhookDelivery list) tx" where
  "ClaimWebhookDeliveries e lim =
     (let locked_by = nullableString (newLeaseOwner e ''webhook'') in
      tx_bind (tx_lift (intToInt32 (if lim \<le> 0 then 10 else lim))) (\<lambda>n.
      tx_bind (failExpiredExhaustedWebhookDeliveriesManual e) (\<lambda>_.
      tx_bind (tx_read (claimWebhookDeliveriesManual e (nat n))) (\<lambda>rows.
      tx_bind (tx_iter (\<lambda>(w, ev, s). requireAffectedRow
                 (markWebhookDeliveryProcessingManual e (datetime_of (clock6 e + 120000000)) locked_by (wd_id w))) rows) (\<lambda>_.
      tx_return (map (\<lambda>(w, ev, s).
        (dbWebhookDeliveryToStore w ev s)\<lparr>dl_lease_owner := opt_string locked_by,
            dl_attempt_count := wd_attempt_count w + 1\<rparr>) rows))))))"

definition MarkWebhookDeliveryDelivered :: "env \<Rightarrow> nat \<Rightarrow> string \<Rightarrow> (db, unit) tx" where
  "MarkWebhookDeliveryDelivered e wid owner =
     requireAffectedRow (markWebhookDeliveryDeliveredManual e wid (nullableString owner))"

definition MarkWebhookDeliveryFailed :: "env \<Rightarrow> nat \<Rightarrow> string \<Rightarrow> string \<Rightarrow> (db, unit) tx" where
  "MarkWebhookDeliveryFailed e wid owner errMsg =
     requireAffectedRow (markWebhookDeliveryFailedManual e
       (nullableString (safeDurableFailureMessage durableFailureWebhook errMsg)) wid (nullableString owner))"

definition retainWebhookEventBatch :: "int \<Rightarrow> (db, nat) tx" where
  "retainWebhookEventBatch cutoff6 =
     tx_bind (tx_read (lockEventOutboxRetentionBatchManual cutoff6)) (\<lambda>ids.
       if ids = [] then tx_return 0
       else tx_bind (deleteWebhookDeliveriesForEventIDsManual ids) (\<lambda>_.
            tx_bind (deleteEventOutboxForIDsManual ids) (\<lambda>removed.
            tx_bind (tx_guard (removed = length ids) (ErrInvalid ''deleted events differ from the batch'')) (\<lambda>_.
            tx_return removed))))"

text \<open>
  \<^verbatim>\<open>RetainWebhookEvents\<close> runs one transaction per batch, so an error leaves the earlier batches
  committed: the loop returns the error, if any, together with the database.
\<close>

definition eventRetentionBatchSize :: nat where
  "eventRetentionBatchSize = 1000"

lemma retainWebhookEventBatch_events:
  assumes "retainWebhookEventBatch cutoff6 d = Inr (n, d')" and "0 < n"
  shows "length (events d') < length (events d)"
proof -
  from assms have "n = sql_count (\<lambda>ev. List.member (lockEventOutboxRetentionBatchManual cutoff6 d) (ev_event_id ev)) (events d)"
    and "events d' = sql_delete (\<lambda>ev. List.member (lockEventOutboxRetentionBatchManual cutoff6 d) (ev_event_id ev)) (events d)"
    by (auto simp: retainWebhookEventBatch_def deleteWebhookDeliveriesForEventIDsManual_def
                   deleteEventOutboxForIDsManual_def tx_elims split: if_splits)
  moreover have "sql_count P rows + length (sql_delete P rows) = length rows" for P and rows :: "event_row list"
    by (simp add: sql_count_def sql_delete_def sum_length_filter_compl)
  ultimately show ?thesis using assms(2) by (metis less_add_same_cancel2)
qed

function retain_event_batches :: "int \<Rightarrow> db \<Rightarrow> err option \<times> db" where
  "retain_event_batches cutoff6 d =
     (case retainWebhookEventBatch cutoff6 d of
        Inl err \<Rightarrow> (Some err, d)
      | Inr (removed, d') \<Rightarrow>
          if removed < eventRetentionBatchSize then (None, d')
          else retain_event_batches cutoff6 d')"
  by pat_completeness auto

termination
proof (relation "measure (\<lambda>(c, d). length (events d))")
  fix c d r n d'
  assume "retainWebhookEventBatch c d = Inr r" and "(n, d') = r" and "\<not> n < eventRetentionBatchSize"
  moreover from this have "0 < n" by (simp add: eventRetentionBatchSize_def)
  ultimately show "((c, d'), (c, d)) \<in> measure (\<lambda>(c, d). length (events d))"
    using retainWebhookEventBatch_events by auto
qed simp

declare retain_event_batches.simps [simp del]

definition RetainWebhookEvents :: "env \<Rightarrow> int \<Rightarrow> db \<Rightarrow> err option \<times> db" where
  "RetainWebhookEvents e older_than6 d =
     (let older = (if older_than6 \<le> 0 then 30 * 24 * 3600 * 1000000 else older_than6) in
      retain_event_batches (int (clock6 e) - older) d)"

definition GetEventOutboxHighWaterForWorkspace :: "nat \<Rightarrow> db \<Rightarrow> nat" where
  "GetEventOutboxHighWaterForWorkspace workspace d =
     foldr max (map ev_id (filter (\<lambda>ev. ev_workspace_id ev = Some workspace) (events d))) 0"

definition ListEventOutboxAfterForWorkspace :: "nat \<Rightarrow> nat \<Rightarrow> int \<Rightarrow> db \<Rightarrow> event_row list" where
  "ListEventOutboxAfterForWorkspace after workspace lim d =
     take (nat (if lim \<le> 0 then 100 else lim))
       (sort_key ev_id (filter (\<lambda>ev. ev_id ev > after \<and> ev_workspace_id ev = Some workspace) (events d)))"

end
