(* ===== verification/Job_Store.thy ===== *)
theory Job_Store
  imports Event_Outbox
begin

section \<open>Worker operations on transcription jobs\<close>

text \<open>
  The attempt fence and the operations of \<^verbatim>\<open>TranscriptionJobStore\<close> that a worker or a user runs on a
  job (\<^verbatim>\<open>internal/store/transcription_jobs.go\<close>, \<^verbatim>\<open>transcription_checkpoints.go\<close>), the completion
  block of \<^verbatim>\<open>AnnotationStore.savePage\<close> (\<^verbatim>\<open>annotations.go\<close>), and the worker's failure path
  (\<^verbatim>\<open>recordClaimedTranscriptionJobFailure\<close> of \<^verbatim>\<open>internal/server/transcription_service.go\<close>). Each
  operation is one transaction; the lemmas at the end give its net effect on the tables.
\<close>

subsection \<open>Conversions\<close>

definition int32FromInt :: "int \<Rightarrow> err + int" where
  "int32FromInt v = (if v < - (2 ^ 31) \<or> v > 2 ^ 31 - 1 then Inl (ErrInvalid ''int32 range'') else Inr v)"

definition attemptNumberFromInt :: "int \<Rightarrow> nat option" where
  "attemptNumberFromInt v = (if v \<le> 0 \<or> v > 2 ^ 31 - 1 then None else Some (nat v))"

definition int32FromUint32 :: "nat \<Rightarrow> int option" where
  "int32FromUint32 v = (if v > 2 ^ 31 - 1 then None else Some (int v))"

subsection \<open>Fences\<close>

record TranscriptionAttemptFence =
  JobID :: nat
  AttemptNumber :: nat
  InputRevision :: nat
  LeaseToken :: string

record TranscriptionJob =
  jb_id :: nat
  jb_workspace_id :: nat
  jb_item_image_id :: nat
  jb_context_id :: "nat option"
  jb_context_snapshot :: json
  jb_input_revision :: nat
  jb_status :: job_status
  jb_total_segments :: int
  jb_completed_segments :: int
  jb_failed_segments :: int
  jb_attempt_count :: int
  jb_max_attempts :: int
  jb_lease_token :: string
  jb_current_annotation_id :: string
  jb_current_annotation_json :: string
  jb_last_result_annotation_json :: string
  jb_error_message :: string
  jb_created_at :: nat
  jb_updated_at :: nat
  jb_attempts :: "attempt_row list"

definition rowToTranscriptionJob :: "job_row \<Rightarrow> TranscriptionJob" where
  "rowToTranscriptionJob r =
     \<lparr>jb_id = j_id r, jb_workspace_id = j_workspace_id r, jb_item_image_id = j_item_image_id r,
      jb_context_id = j_context_id r, jb_context_snapshot = j_context_snapshot r,
      jb_input_revision = j_input_revision r, jb_status = j_status r,
      jb_total_segments = j_total_segments r, jb_completed_segments = j_completed_segments r,
      jb_failed_segments = j_failed_segments r, jb_attempt_count = j_attempt_count r,
      jb_max_attempts = (if j_max_attempts r = 0 then 3 else j_max_attempts r),
      jb_lease_token = opt_string (j_locked_by r),
      jb_current_annotation_id = opt_string (j_current_annotation_id r),
      jb_current_annotation_json = opt_string (j_current_annotation_json r),
      jb_last_result_annotation_json = opt_string (j_last_result_annotation_json r),
      jb_error_message = opt_string (j_error_message r),
      jb_created_at = j_created_at r, jb_updated_at = j_updated_at r, jb_attempts = []\<rparr>"

text \<open>\<^verbatim>\<open>TranscriptionJob.Fence\<close>, named after its receiver.\<close>

definition job_Fence :: "TranscriptionJob \<Rightarrow> err + TranscriptionAttemptFence" where
  "job_Fence j =
     (case attemptNumberFromInt (jb_attempt_count j) of
        None \<Rightarrow> Inl ErrTranscriptionJobFence
      | Some n \<Rightarrow>
          (let fence = \<lparr>JobID = jb_id j, AttemptNumber = n, InputRevision = jb_input_revision j,
                        LeaseToken = trim_space (jb_lease_token j)\<rparr> in
           if JobID fence = 0 \<or> AttemptNumber fence = 0 \<or> InputRevision fence = 0 \<or> LeaseToken fence = []
           then Inl ErrTranscriptionJobFence else Inr fence))"

definition validateTranscriptionFence :: "TranscriptionAttemptFence \<Rightarrow> bool" where
  "validateTranscriptionFence fence \<longleftrightarrow>
     \<not> (JobID fence = 0 \<or> AttemptNumber fence = 0 \<or> AttemptNumber fence > 2 ^ 31 - 1 \<or>
        InputRevision fence = 0 \<or> trim_space (LeaseToken fence) = [])"

definition transcriptionAttemptNumberToDB :: "TranscriptionAttemptFence \<Rightarrow> err + int" where
  "transcriptionAttemptNumberToDB fence =
     (if \<not> validateTranscriptionFence fence then Inl ErrTranscriptionJobFence
      else case int32FromUint32 (AttemptNumber fence) of
             None \<Rightarrow> Inl ErrTranscriptionJobFence | Some n \<Rightarrow> Inr n)"

definition attemptFenceFromRow :: "job_row \<Rightarrow> err + TranscriptionAttemptFence" where
  "attemptFenceFromRow r =
     (case attemptNumberFromInt (j_attempt_count r) of
        None \<Rightarrow> Inl ErrTranscriptionJobFence
      | Some n \<Rightarrow>
          (let fence = \<lparr>JobID = j_id r, AttemptNumber = n, InputRevision = j_input_revision r,
                        LeaseToken = opt_string (j_locked_by r)\<rparr> in
           if validateTranscriptionFence fence then Inr fence else Inl ErrTranscriptionJobFence))"

definition requireOneAffected :: "(db, nat) tx \<Rightarrow> (db, unit) tx" where
  "requireOneAffected m = tx_bind m (\<lambda>n. tx_guard (n = 1) ErrNoRows)"

definition requireFenceAffected :: "(db, nat) tx \<Rightarrow> (db, unit) tx" where
  "requireFenceAffected m = tx_no_rows_as ErrTranscriptionJobFence (requireOneAffected m)"

definition finishTranscriptionAttempt ::
    "env \<Rightarrow> TranscriptionAttemptFence \<Rightarrow> outcome \<Rightarrow> string \<Rightarrow> nat option \<Rightarrow> (db, unit) tx" where
  "finishTranscriptionAttempt e fence oc safeErrorMessage resultRevision =
     (let msg = trim_space safeErrorMessage in
      if \<not> validateTranscriptionFence fence then tx_raise ErrTranscriptionJobFence
      else if oc = ORunning then tx_raise (ErrInvalid ''running is not terminal'')
      else if oc = OCompleted \<and> msg \<noteq> [] then tx_raise (ErrInvalid ''completed outcome cannot contain an error'')
      else if oc \<noteq> OCompleted \<and> msg = [] then tx_raise (ErrInvalid ''terminal failure requires a safe error'')
      else case resultRevision of
        Some v \<Rightarrow>
          if oc \<noteq> OCompleted \<or> v = 0 \<or> v > 2 ^ 63 - 1 then tx_raise (ErrInvalid ''invalid result revision'')
          else requireFenceAffected (finishTranscriptionJobAttemptManual e oc (nullableString msg) (Some v)
                 (JobID fence) (int (AttemptNumber fence)) (InputRevision fence) (LeaseToken fence))
      | None \<Rightarrow>
          if oc = OCompleted then tx_raise (ErrInvalid ''completed outcome requires result revision'')
          else requireFenceAffected (finishTranscriptionJobAttemptManual e oc (nullableString msg) None
                 (JobID fence) (int (AttemptNumber fence)) (InputRevision fence) (LeaseToken fence)))"

subsection \<open>Claiming\<close>

definition transcriptionLeaseOwner :: "env \<Rightarrow> string" where
  "transcriptionLeaseOwner e =
     (case hostname e of
        None \<Rightarrow> ''scribe-worker''
      | Some h \<Rightarrow> if trim_space h = [] then ''scribe-worker''
                  else take 128 (''scribe-worker@'' @ trim_space h))"

definition with_attempts :: "job_row \<Rightarrow> db \<Rightarrow> TranscriptionJob" where
  "with_attempts r d =
     (rowToTranscriptionJob r)\<lparr>jb_attempts := listTranscriptionJobAttemptsManual (j_id r) d\<rparr>"

text \<open>The row a round of the loop selects; no row ends the loop with a commit.\<close>

definition claim_select :: "env \<Rightarrow> nat \<Rightarrow> nat option \<Rightarrow> (db, job_row) tx" where
  "claim_select e jobID cutoff6 =
     (if jobID > 0 then claimLeasedTranscriptionJobByIDManual e jobID
      else case cutoff6 of
             Some c \<Rightarrow> claimNextLeasedTranscriptionJobOlderThanManual e c
           | None \<Rightarrow> claimNextLeasedTranscriptionJobManual e)"

text \<open>The new lease on a row, its attempt record, and the reload: the end of the loop body.\<close>

definition claim_lease :: "env \<Rightarrow> job_row \<Rightarrow> (db, TranscriptionJob) tx" where
  "claim_lease e row =
     (let leaseToken = newLeaseOwner e ''worker''; leaseUntil = datetime_of (clock6 e + 600000000) in
      tx_bind (requireOneAffected (markTranscriptionJobLeasedManual e leaseUntil (nullableString leaseToken)
                 (j_id row) (j_attempt_count row) (j_input_revision row) (j_locked_by row))) (\<lambda>_.
      tx_bind (requireOneAffected (insertTranscriptionJobAttemptManual e (transcriptionLeaseOwner e) leaseToken
                 (j_id row) (j_attempt_count row + 1) (j_input_revision row) (nullableString leaseToken))) (\<lambda>_.
      tx_bind (getTranscriptionJobManual (j_id row)) (\<lambda>claimed.
      tx_read (with_attempts claimed)))))"

text \<open>An expired lease is closed first; a job without attempts left fails.\<close>

definition claim_fail_exhausted :: "env \<Rightarrow> job_row \<Rightarrow> (db, nat) tx" where
  "claim_fail_exhausted e row =
     tx_bind (requireOneAffected (failExpiredTranscriptionJobManual e (j_id row) (j_attempt_count row)
               (j_input_revision row) (j_locked_by row))) (\<lambda>_.
     deleteTranscriptionCheckpoints (j_id row))"

datatype claim_step = Claimed "TranscriptionJob option" | Continue

definition claim_round :: "env \<Rightarrow> nat \<Rightarrow> nat option \<Rightarrow> (db, claim_step) tx" where
  "claim_round e jobID cutoff6 = (\<lambda>d.
     case claim_select e jobID cutoff6 d of
       Inl err \<Rightarrow> if err = ErrNoRows then Inr (Claimed None, d) else Inl err
     | Inr (row, _) \<Rightarrow>
         if j_status row = Running then
           tx_bind (tx_lift (attemptFenceFromRow row)) (\<lambda>previousFence.
           tx_bind (finishTranscriptionAttempt e previousFence OLeaseExpired ''worker lease expired'' None) (\<lambda>_.
             if j_attempt_count row \<ge> j_max_attempts row then
               tx_bind (claim_fail_exhausted e row) (\<lambda>_.
               tx_return (if jobID > 0 then Claimed None else Continue))
             else tx_bind (claim_lease e row) (\<lambda>j. tx_return (Claimed (Some j))))) d
         else tx_bind (claim_lease e row) (\<lambda>j. tx_return (Claimed (Some j))) d)"

definition running_count :: "db \<Rightarrow> nat" where
  "running_count d = sql_count (\<lambda>r. j_status r = Running) (jobs d)"

lemma sql_count_update_less:
  assumes "sql_changed P f rows = 1" and "\<And>r. r \<in> set rows \<Longrightarrow> P r \<Longrightarrow> Q r" and "\<And>r. P r \<Longrightarrow> \<not> Q (f r)"
  shows "sql_count Q (sql_update P f rows) < sql_count Q rows"
proof -
  obtain r where r: "r \<in> set rows" "P r" using assms(1) by (rule sql_changed_one)
  have "filter Q (sql_update P f rows) = filter (\<lambda>x. Q x \<and> \<not> P x) rows"
    unfolding sql_update_def using assms(3) by (induction rows) auto
  moreover have "length (filter (\<lambda>x. Q x \<and> \<not> P x) rows) < length (filter Q rows)"
    using length_filter_less [of r "filter Q rows" "\<lambda>x. \<not> P x"] r assms(2)
    by (simp add: conj_commute)
  ultimately show ?thesis by (simp add: sql_count_def)
qed

lemma finishTranscriptionAttempt_only:
  "finishTranscriptionAttempt e fence oc m res d = Inr (x, d') \<Longrightarrow> \<exists>as. d' = d\<lparr>attempts := as\<rparr>"
  by (auto simp: finishTranscriptionAttempt_def requireFenceAffected_def requireOneAffected_def
                 finishTranscriptionJobAttemptManual_def Let_def tx_elims split: if_splits option.splits)

lemma finishTranscriptionAttempt_jobs:
  assumes "finishTranscriptionAttempt e fence oc m res d = Inr (x, d')"
  shows "jobs d' = jobs d" "next_job_id d' = next_job_id d" "checkpoints d' = checkpoints d"
  using finishTranscriptionAttempt_only [OF assms] by auto

lemma requireOneAffected_Inr [tx_elims]:
  "requireOneAffected m d = Inr (x, d') \<longleftrightarrow> m d = Inr (1, d')"
  by (auto simp: requireOneAffected_def tx_elims)

lemma requireFenceAffected_Inr [tx_elims]:
  "requireFenceAffected m d = Inr (x, d') \<longleftrightarrow> m d = Inr (1, d')"
  by (auto simp: requireFenceAffected_def tx_elims)

lemma update_jobs_Inr [tx_elims]:
  "update_jobs P f d = Inr (n, d') \<longleftrightarrow>
     (\<forall>r \<in> set (jobs d). P r \<longrightarrow> job_row_check (f r)) \<and> n = sql_changed P f (jobs d) \<and>
     d' = d\<lparr>jobs := sql_update P f (jobs d)\<rparr>"
  by (simp add: update_jobs_def tx_elims)

lemma claim_fail_exhausted_running:
  assumes "claim_fail_exhausted e row d = Inr (n, d')"
  shows "running_count d' < running_count d"
proof -
  let ?P = "exhausted (now e) (j_id row) (j_attempt_count row) (j_input_revision row) (j_locked_by row)"
  let ?f = "set_stopped (now e) Failed (Some ''worker lease expired after maximum attempts'')"
  from assms have ch: "sql_changed ?P ?f (jobs d) = 1" and j: "jobs d' = sql_update ?P ?f (jobs d)"
    by (auto simp: claim_fail_exhausted_def failExpiredTranscriptionJobManual_def
                   deleteTranscriptionCheckpoints_def tx_elims)
  show ?thesis
    unfolding running_count_def j
    by (rule sql_count_update_less [OF ch])
       (auto simp: exhausted_def lease_expired_def set_stopped_def)
qed

lemma claim_round_continue:
  assumes "claim_round e jobID cutoff6 d = Inr (Continue, d')"
  shows "running_count d' < running_count d"
proof -
  from assms obtain row x fence u n where "claim_select e jobID cutoff6 d = Inr (row, x)"
    and fin: "finishTranscriptionAttempt e fence OLeaseExpired ''worker lease expired'' None d = Inr ((), u)"
    and ex: "claim_fail_exhausted e row u = Inr (n, d')"
    unfolding claim_round_def by (auto simp: tx_elims split: sum.splits if_splits)
  from fin have "running_count u = running_count d"
    by (simp add: running_count_def finishTranscriptionAttempt_jobs(1))
  with claim_fail_exhausted_running [OF ex] show ?thesis by simp
qed

function claim :: "env \<Rightarrow> nat \<Rightarrow> nat option \<Rightarrow> (db, TranscriptionJob option) tx" where
  "claim e jobID cutoff6 d =
     (case claim_round e jobID cutoff6 d of
        Inl err \<Rightarrow> Inl err
      | Inr (Claimed j, d') \<Rightarrow> Inr (j, d')
      | Inr (Continue, d') \<Rightarrow> claim e jobID cutoff6 d')"
  by pat_completeness auto

termination
  by (relation "measure (\<lambda>(e, i, c, d). running_count d)") (auto dest: claim_round_continue)

declare claim.simps [simp del]

definition ClaimNextPending :: "env \<Rightarrow> (db, TranscriptionJob option) tx" where
  "ClaimNextPending e = claim e 0 None"

definition ClaimNextPendingOlderThan :: "env \<Rightarrow> nat option \<Rightarrow> (db, TranscriptionJob option) tx" where
  "ClaimNextPendingOlderThan e cutoff6 = claim e 0 cutoff6"

definition ClaimPendingByID :: "env \<Rightarrow> nat \<Rightarrow> (db, TranscriptionJob option) tx" where
  "ClaimPendingByID e jid = (if jid = 0 then tx_return None else claim e jid None)"

subsection \<open>Progress, cancellation and lease renewal\<close>

definition SetTotalSegments :: "env \<Rightarrow> TranscriptionAttemptFence \<Rightarrow> int \<Rightarrow> (db, unit) tx" where
  "SetTotalSegments e fence tot =
     tx_bind (tx_lift (transcriptionAttemptNumberToDB fence)) (\<lambda>n.
     tx_bind (tx_lift (int32FromInt tot)) (\<lambda>converted.
     requireFenceAffected (setTranscriptionJobTotalSegmentsManual e converted (JobID fence) n
       (InputRevision fence) (nullableString (LeaseToken fence)))))"

definition UpdateProgress ::
    "env \<Rightarrow> TranscriptionAttemptFence \<Rightarrow> int \<Rightarrow> int \<Rightarrow> string \<Rightarrow> string \<Rightarrow> string \<Rightarrow> (db, unit) tx" where
  "UpdateProgress e fence completed failed current_id current_json last_result =
     tx_bind (tx_lift (transcriptionAttemptNumberToDB fence)) (\<lambda>n.
     tx_bind (tx_lift (int32FromInt completed)) (\<lambda>completed32.
     tx_bind (tx_lift (int32FromInt failed)) (\<lambda>failed32.
     requireFenceAffected (updateTranscriptionJobProgressManual e completed32 failed32
       (nullableString current_id) (nullableString current_json) (nullableString last_result)
       (JobID fence) n (InputRevision fence) (nullableString (LeaseToken fence))))))"

definition Cancel :: "env \<Rightarrow> nat \<Rightarrow> (db, unit) tx" where
  "Cancel e jid =
     tx_bind (lockTranscriptionJobForUpdateManual jid) (\<lambda>job.
       let cancel_job = tx_bind (requireOneAffected (cancelTranscriptionJobManual e jid)) (\<lambda>_.
                        tx_bind (deleteTranscriptionCheckpoints jid) (\<lambda>_. tx_return ())) in
       case j_status job of
         Canceled \<Rightarrow> tx_return ()
       | Pending \<Rightarrow> cancel_job
       | Running \<Rightarrow>
           tx_bind (tx_lift (attemptFenceFromRow job)) (\<lambda>fence.
           tx_bind (finishTranscriptionAttempt e fence OCanceled ''canceled by user'' None) (\<lambda>_.
           cancel_job))
       | _ \<Rightarrow> tx_raise ErrNoRows)"

definition ExtendLease :: "env \<Rightarrow> TranscriptionAttemptFence \<Rightarrow> int \<Rightarrow> (db, unit) tx" where
  "ExtendLease e fence lease_duration6 =
     tx_bind (tx_lift (transcriptionAttemptNumberToDB fence)) (\<lambda>n.
       let duration6 = (if lease_duration6 \<le> 0 then 600000000 else nat lease_duration6) in
       requireFenceAffected (extendTranscriptionJobLeaseManual e (datetime_of (clock6 e + duration6))
         (JobID fence) n (InputRevision fence) (nullableString (LeaseToken fence))))"

subsection \<open>Failure and deferral\<close>

text \<open>The three-way switch on the job update, and the event of a terminal failure.\<close>

definition fail_transition ::
    "env \<Rightarrow> TranscriptionAttemptFence \<Rightarrow> int \<Rightarrow> string \<Rightarrow> bool \<Rightarrow> bool \<Rightarrow> nat option \<Rightarrow> (db, nat) tx" where
  "fail_transition e fence n safeMessage permanent terminal retryAfter6 =
     (let token = nullableString (LeaseToken fence) in
      if permanent \<or> (terminal \<and> retryAfter6 \<noteq> None)
      then permanentlyFailTranscriptionJobManual e (nullableString safeMessage) (JobID fence) n (InputRevision fence) token
      else case retryAfter6 of
        Some t6 \<Rightarrow> deferTranscriptionJobLeaseManual e (datetime_of t6) (nullableString safeMessage)
                     (JobID fence) n (InputRevision fence) token
      | None \<Rightarrow> retryOrFailTranscriptionJobManual e (nullableString safeMessage)
                  (JobID fence) n (InputRevision fence) token)"

definition write_event :: "env \<Rightarrow> string \<Rightarrow> string \<Rightarrow> nat option \<Rightarrow> string \<Rightarrow> string \<Rightarrow> (db, unit) tx" where
  "write_event e eventID eventType workspace subject body =
     tx_bind (insertEventOutboxManual e eventID eventType workspace (nullableString subject) body) (\<lambda>_.
     InsertWorkspaceWebhookDeliveries e eventID)"

definition failWithWebhookEvent ::
    "env \<Rightarrow> TranscriptionAttemptFence \<Rightarrow> string \<Rightarrow> string \<Rightarrow> string \<Rightarrow> string \<Rightarrow> string \<Rightarrow> bool \<Rightarrow> nat option \<Rightarrow>
     (db, bool) tx" where
  "failWithWebhookEvent e fence errMsg eventID eventType subject body permanent retryAfter6 =
     tx_bind (tx_lift (transcriptionAttemptNumberToDB fence)) (\<lambda>n.
       let safeMessage = safeTranscriptionErrorMessage errMsg in
       tx_bind (tx_no_rows_as ErrTranscriptionJobFence
                 (lockActiveTranscriptionJobLeaseManual e (JobID fence) n (InputRevision fence)
                    (nullableString (LeaseToken fence)))) (\<lambda>_.
       tx_bind (getTranscriptionJobManual (JobID fence)) (\<lambda>job.
       let terminal = (permanent \<or> j_attempt_count job \<ge> j_max_attempts job) in
       tx_bind (finishTranscriptionAttempt e fence (if terminal then OFailed else ORetryableFailed) safeMessage None) (\<lambda>_.
       tx_bind (requireFenceAffected (fail_transition e fence n safeMessage permanent terminal retryAfter6)) (\<lambda>_.
       tx_bind (tx_when terminal (tx_bind (deleteTranscriptionCheckpoints (JobID fence)) (\<lambda>_. tx_return ()))) (\<lambda>_.
       tx_bind (tx_when (terminal \<and> trim_space eventID \<noteq> [] \<and> trim_space body \<noteq> [])
         (tx_bind (eventWorkspaceID subject) (\<lambda>w. write_event e eventID eventType w subject body))) (\<lambda>_.
       tx_return terminal)))))))"

definition FailWithWebhookEvent ::
    "env \<Rightarrow> TranscriptionAttemptFence \<Rightarrow> string \<Rightarrow> string \<Rightarrow> string \<Rightarrow> string \<Rightarrow> string \<Rightarrow> (db, bool) tx" where
  "FailWithWebhookEvent e fence errMsg eventID eventType subject body =
     failWithWebhookEvent e fence errMsg eventID eventType subject body False None"

definition PermanentlyFailWithWebhookEvent ::
    "env \<Rightarrow> TranscriptionAttemptFence \<Rightarrow> string \<Rightarrow> string \<Rightarrow> string \<Rightarrow> string \<Rightarrow> string \<Rightarrow> (db, unit) tx" where
  "PermanentlyFailWithWebhookEvent e fence errMsg eventID eventType subject body =
     tx_bind (failWithWebhookEvent e fence errMsg eventID eventType subject body True None) (\<lambda>_. tx_return ())"

definition Fail :: "env \<Rightarrow> TranscriptionAttemptFence \<Rightarrow> string \<Rightarrow> (db, unit) tx" where
  "Fail e fence errMsg =
     tx_bind (failWithWebhookEvent e fence errMsg [] [] [] [] False None) (\<lambda>_. tx_return ())"

definition Defer :: "env \<Rightarrow> TranscriptionAttemptFence \<Rightarrow> string \<Rightarrow> nat option \<Rightarrow> (db, unit) tx" where
  "Defer e fence errMsg retryAfter6 =
     tx_bind (failWithWebhookEvent e fence errMsg [] [] [] [] False retryAfter6) (\<lambda>_. tx_return ())"

subsection \<open>Completion\<close>

text \<open>
  The block of \<^verbatim>\<open>AnnotationStore.savePage\<close> that completes a transcription once the page is stored at
  revision \<open>stored\<close>: the attempt and the job are closed, the checkpoints removed and the event is
  written, in the transaction of the page. \<open>tx_fence_as\<close> is the \<^verbatim>\<open>errors.Is(err, ErrTranscriptionJobFence)\<close> idiom.
\<close>

record TranscriptionCompletion =
  cp_fence :: TranscriptionAttemptFence
  cp_event_id :: string
  cp_event_type :: string
  cp_subject :: string
  cp_body_json :: string

definition tx_fence_as :: "err \<Rightarrow> (db, 'a) tx \<Rightarrow> (db, 'a) tx" where
  "tx_fence_as err m = (\<lambda>d. case m d of Inl x \<Rightarrow> Inl (if x = ErrTranscriptionJobFence then err else x) | r \<Rightarrow> r)"

lemma tx_fence_as_Inr [tx_elims]: "tx_fence_as e m s = Inr r \<longleftrightarrow> m s = Inr r"
  by (auto simp: tx_fence_as_def split: sum.splits)

definition commitTranscriptionCompletion ::
    "env \<Rightarrow> TranscriptionCompletion \<Rightarrow> nat \<Rightarrow> nat \<Rightarrow> (db, unit) tx" where
  "commitTranscriptionCompletion e completion page_workspace stored =
     (let fence = cp_fence completion in
      tx_bind (tx_fence_as ErrAnnotationJobFence (tx_lift (transcriptionAttemptNumberToDB fence))) (\<lambda>n.
      tx_bind (tx_fence_as ErrAnnotationJobFence
        (finishTranscriptionAttempt e fence OCompleted [] (Some stored))) (\<lambda>_.
      tx_bind (tx_fence_as ErrAnnotationJobFence (requireFenceAffected
        (completeTranscriptionJobLeasedManual e (JobID fence) n (InputRevision fence)
           (nullableString (LeaseToken fence))))) (\<lambda>_.
      tx_bind (deleteTranscriptionCheckpoints (JobID fence)) (\<lambda>_.
      tx_when (trim_space (cp_event_id completion) \<noteq> [] \<and> trim_space (cp_body_json completion) \<noteq> [])
        (write_event e (cp_event_id completion) (cp_event_type completion) (nullableUint64 page_workspace)
           (cp_subject completion) (cp_body_json completion)))))))"

subsection \<open>Checkpoints\<close>

definition Checkpoint :: "env \<Rightarrow> TranscriptionAttemptFence \<Rightarrow> (db, string) tx" where
  "Checkpoint e fence =
     tx_bind (tx_lift (transcriptionAttemptNumberToDB fence)) (\<lambda>n.
     tx_bind (tx_no_rows_as ErrTranscriptionJobFence
       (getTranscriptionCheckpoint e (JobID fence) n (InputRevision fence) (nullableString (LeaseToken fence)))) (\<lambda>v.
     tx_return (opt_string v)))"

definition withCheckpointLease :: "env \<Rightarrow> TranscriptionAttemptFence \<Rightarrow> (db, 'a) tx \<Rightarrow> (db, 'a) tx" where
  "withCheckpointLease e fence operation =
     tx_bind (tx_lift (transcriptionAttemptNumberToDB fence)) (\<lambda>n.
     tx_bind (tx_no_rows_as ErrTranscriptionJobFence
       (lockActiveTranscriptionJobLeaseManual e (JobID fence) n (InputRevision fence) (nullableString (LeaseToken fence)))) (\<lambda>_.
     operation))"

definition SaveCheckpoint :: "env \<Rightarrow> TranscriptionAttemptFence \<Rightarrow> string \<Rightarrow> string \<Rightarrow> (db, unit) tx" where
  "SaveCheckpoint e fence lineID payload =
     withCheckpointLease e fence (saveTranscriptionCheckpoint (JobID fence) lineID payload)"

definition ClearCheckpoints :: "env \<Rightarrow> TranscriptionAttemptFence \<Rightarrow> (db, unit) tx" where
  "ClearCheckpoints e fence =
     withCheckpointLease e fence (tx_bind (deleteTranscriptionCheckpoints (JobID fence)) (\<lambda>_. tx_return ()))"

definition LineCheckpoints :: "env \<Rightarrow> TranscriptionAttemptFence \<Rightarrow> (db, string \<rightharpoonup> string) tx" where
  "LineCheckpoints e fence =
     withCheckpointLease e fence (tx_read (\<lambda>d.
       foldl (\<lambda>m (k, v). m(k \<mapsto> v)) Map.empty (listTranscriptionLineCheckpoints (JobID fence) d)))"

subsection \<open>Reads\<close>

definition Get :: "nat \<Rightarrow> (db, TranscriptionJob) tx" where
  "Get jid = tx_bind (getTranscriptionJobManual jid) (\<lambda>r. tx_read (with_attempts r))"

definition GetActiveByItemImage :: "nat \<Rightarrow> (db, TranscriptionJob) tx" where
  "GetActiveByItemImage img =
     tx_bind (tx_guard (img \<le> 2 ^ 63 - 1) (ErrInvalid ''int64 range'')) (\<lambda>_.
     tx_bind (getActiveTranscriptionJobByItemImageManual (Some img)) (\<lambda>r. tx_read (with_attempts r)))"

definition ClaimableQueueSnapshot :: "env \<Rightarrow> db \<Rightarrow> nat \<times> nat \<times> nat" where
  "ClaimableQueueSnapshot e d =
     (case getClaimableTranscriptionQueueSnapshot e d of
        (depth, oldest, expired) \<Rightarrow> (depth, (if oldest > 0 then nat oldest else 0), expired))"

definition RecoverableJobIDs :: "env \<Rightarrow> nat \<Rightarrow> db \<Rightarrow> nat list" where
  "RecoverableJobIDs e cutoff6 d = listRecoverableTranscriptionJobIDs e cutoff6 d"

definition WorkspaceOwnsJob :: "nat \<Rightarrow> nat \<Rightarrow> db \<Rightarrow> bool" where
  "WorkspaceOwnsJob workspace jid d = workspaceOwnsTranscriptionJobManual jid workspace d"

subsection \<open>The worker's failure path\<close>

text \<open>
  \<^verbatim>\<open>recordClaimedTranscriptionJobFailure\<close> on a classified error: a lost lease is left to its new owner,
  an interruption is deferred by five seconds, a permanent error fails the job, any other may be
  retried. The event it builds is a parameter: identifier, type, subject and, from the sanitized
  message, the encoded body.
\<close>

datatype worker_error =
    LeaseLost string
  | ContextCanceled string
  | Permanent string
  | OtherError string

fun error_text :: "worker_error \<Rightarrow> string" where
  "error_text (LeaseLost m) = m"
| "error_text (ContextCanceled m) = m"
| "error_text (Permanent m) = m"
| "error_text (OtherError m) = m"

definition recordClaimedTranscriptionJobFailure ::
    "env \<Rightarrow> (string \<times> string \<times> string \<times> (string \<Rightarrow> string)) \<Rightarrow> TranscriptionJob \<Rightarrow> worker_error \<Rightarrow> (db, unit) tx" where
  "recordClaimedTranscriptionJobFailure e evt job err =
     (case evt of (event_id, event_type, subject, body) \<Rightarrow>
      let safeMessage = SafeTranscriptionFailureMessage (Some (error_text err)) in
      case err of
        LeaseLost _ \<Rightarrow> tx_return ()
      | ContextCanceled _ \<Rightarrow>
          tx_bind (tx_lift (job_Fence job)) (\<lambda>fence. Defer e fence safeMessage (Some (clock6 e + 5000000)))
      | Permanent _ \<Rightarrow>
          tx_bind (tx_lift (job_Fence job)) (\<lambda>fence.
            PermanentlyFailWithWebhookEvent e fence safeMessage event_id event_type subject (body safeMessage))
      | OtherError _ \<Rightarrow>
          tx_bind (tx_lift (job_Fence job)) (\<lambda>fence.
          tx_bind (FailWithWebhookEvent e fence safeMessage event_id event_type subject (body safeMessage)) (\<lambda>_.
          tx_return ())))"

end
