(* ===== verification/Job_Admission.thy ===== *)
theory Job_Admission
  imports Job_Store
begin

section \<open>Admission, retention and creation of jobs\<close>

text \<open>
  \<^verbatim>\<open>internal/store/transcription_admission.go\<close> (the per-workspace queue limit and the retention of
  terminal history), \<^verbatim>\<open>lockContextSnapshotForWorkspace\<close> of \<^verbatim>\<open>contexts.go\<close>, and \<^verbatim>\<open>Create\<close> with its
  loop \<^verbatim>\<open>createLocked\<close> of \<^verbatim>\<open>transcription_jobs.go\<close>.
\<close>

subsection \<open>Retention of terminal jobs\<close>

definition MaxTerminalTranscriptionJobsPerWorkspace :: int where
  "MaxTerminalTranscriptionJobsPerWorkspace = 100"

definition terminalTranscriptionRetentionBatch :: int where
  "terminalTranscriptionRetentionBatch = 100"

definition retain_job :: "env \<Rightarrow> nat \<Rightarrow> nat \<Rightarrow> (db, unit) tx" where
  "retain_job e workspace jid =
     tx_bind (detachExternalRequestsFromRetainedJobManual e workspace (nullableUint64 jid)) (\<lambda>_.
     tx_bind (detachUploadBatchFilesFromRetainedJobManual e workspace (nullableUint64 jid)) (\<lambda>_.
     tx_bind (deleteTranscriptionCheckpoints jid) (\<lambda>_.
     tx_bind (deleteRetainedTranscriptionJobAttemptsManual jid) (\<lambda>_.
     requireOneAffected (deleteRetainedTerminalTranscriptionJobManual jid workspace)))))"

function retain_loop :: "env \<Rightarrow> nat \<Rightarrow> int \<Rightarrow> int \<Rightarrow> (db, unit) tx" where
  "retain_loop e workspace target terminalCount d =
     (if terminalCount \<le> target then Inr ((), d)
      else
        let batchSize = min (terminalCount - target) terminalTranscriptionRetentionBatch;
            jobIDs = lockOldestTerminalTranscriptionJobsForWorkspaceManual workspace (nat batchSize) d in
        if jobIDs = [] then Inl (ErrInvalid ''terminal transcription history changed during retention'')
        else case tx_iter (retain_job e workspace) jobIDs d of
               Inl err \<Rightarrow> Inl err
             | Inr (x, d') \<Rightarrow> retain_loop e workspace target (terminalCount - int (length jobIDs)) d')"
  by pat_completeness auto

termination
  by (relation "measure (\<lambda>(e, w, t, c, d). nat (c - t))") (auto simp: length_greater_0_conv [symmetric] simp del: length_greater_0_conv)

declare retain_loop.simps [simp del]

definition retainTerminalTranscriptionHistory :: "env \<Rightarrow> nat \<Rightarrow> int \<Rightarrow> (db, unit) tx" where
  "retainTerminalTranscriptionHistory e workspace target = (\<lambda>d.
     if workspace = 0 \<or> target < 0
     then Inl (ErrInvalid ''workspace and nonnegative retention target are required'')
     else retain_loop e workspace target (int (countTerminalTranscriptionJobsForWorkspaceManual workspace d)) d)"

subsection \<open>Admission\<close>

text \<open>A policy is its limit; \<^verbatim>\<open>NewTranscriptionJobAdmissionPolicy\<close> accepts 1 to 100000.\<close>

definition NewTranscriptionJobAdmissionPolicy :: "int \<Rightarrow> err + int" where
  "NewTranscriptionJobAdmissionPolicy m =
     (if m < 1 \<or> m > 100000 then Inl (ErrInvalid ''max active transcription jobs per workspace'') else Inr m)"

definition defaultTranscriptionJobAdmissionPolicy :: int where
  "defaultTranscriptionJobAdmissionPolicy =
     (case NewTranscriptionJobAdmissionPolicy 1000 of Inl _ \<Rightarrow> 0 | Inr p \<Rightarrow> p)"

definition lockTranscriptionAdmissionWorkspace :: "env \<Rightarrow> nat \<Rightarrow> (db, nat) tx" where
  "lockTranscriptionAdmissionWorkspace e img =
     tx_bind (lockTranscriptionJobWorkspaceByItemImageManual img) (\<lambda>w.
     tx_bind (tx_guard (w \<noteq> 0) (ErrInvalid ''transcription job workspace is invalid'')) (\<lambda>_.
     tx_bind (retainTerminalTranscriptionHistory e w (MaxTerminalTranscriptionJobsPerWorkspace - 1)) (\<lambda>_.
     tx_return w)))"

definition enforceTranscriptionJobAdmission :: "nat \<Rightarrow> int \<Rightarrow> (db, unit) tx" where
  "enforceTranscriptionJobAdmission workspace policy =
     tx_bind (tx_read (countActiveTranscriptionJobsByWorkspaceManual workspace)) (\<lambda>active.
     tx_guard (\<not> int active \<ge> policy) (ErrTranscriptionJobQuotaExceeded workspace policy))"

subsection \<open>Creation\<close>

definition lockContextForUseManual :: "nat \<Rightarrow> nat option \<Rightarrow> (db, context_row) tx" where
  "lockContextForUseManual cid workspace =
     tx_row (\<lambda>d. find (\<lambda>c. cx_id c = cid \<and> (cx_scope_id c = 0 \<or> null_eq (Some (cx_scope_id c)) workspace)) (contexts d))"

definition getDocumentTypeForItemImage :: "nat \<Rightarrow> nat \<Rightarrow> (db, string option) tx" where
  "getDocumentTypeForItemImage img workspace =
     tx_row (\<lambda>d. case [it_document_type i. i \<leftarrow> items d, ii \<leftarrow> images d,
                        im_item_id ii = it_id i \<and> im_workspace_id ii = it_workspace_id i \<and>
                        im_id ii = img \<and> it_workspace_id i = workspace] of
                   [] \<Rightarrow> None | t # _ \<Rightarrow> Some t)"

definition lockContextSnapshotForWorkspace :: "nat \<Rightarrow> nat \<Rightarrow> nat \<Rightarrow> (db, nat \<times> json) tx" where
  "lockContextSnapshotForWorkspace cid workspace img =
     tx_bind (lockContextForUseManual cid (nullableUint64 workspace)) (\<lambda>row.
     tx_bind (getDocumentTypeForItemImage img workspace) (\<lambda>value.
       let documentType = (case value of None \<Rightarrow> cx_document_type row
                           | Some t \<Rightarrow> if t = [] then cx_document_type row else t) in
       tx_return (cx_id row, JObj ((''document_type'', JStr documentType) # cx_members row))))"

definition activeTranscriptionJobMatches :: "job_row \<Rightarrow> nat option \<Rightarrow> json \<Rightarrow> nat \<Rightarrow> bool" where
  "activeTranscriptionJobMatches row contextID contextSnapshot inputRevision \<longleftrightarrow>
     (case contextID of
        None \<Rightarrow> j_context_id row = None
      | Some c \<Rightarrow> (case j_context_id row of None \<Rightarrow> False | Some c' \<Rightarrow> c' > 0 \<and> c' = c)) \<and>
     j_input_revision row = inputRevision \<and> equivalentJSON (j_context_snapshot row) contextSnapshot"

definition supersede_active :: "env \<Rightarrow> job_row \<Rightarrow> (db, unit) tx" where
  "supersede_active e active =
     tx_bind (tx_when (j_status active = Running)
       (tx_bind (tx_lift (attemptFenceFromRow active)) (\<lambda>fence.
        finishTranscriptionAttempt e fence OSuperseded ''superseded by a newer transcription request'' None))) (\<lambda>_.
     tx_bind (requireOneAffected (supersedeTranscriptionJobByIDManual e (j_id active))) (\<lambda>_.
     tx_bind (deleteTranscriptionCheckpoints (j_id active)) (\<lambda>_. tx_return ())))"

text \<open>One round of the loop of \<^verbatim>\<open>createLocked\<close>; \<^const>\<open>None\<close> is the round that did not converge.\<close>

definition create_round ::
    "env \<Rightarrow> int \<Rightarrow> nat \<Rightarrow> nat \<Rightarrow> nat option \<Rightarrow> json \<Rightarrow> err \<Rightarrow> (db, nat) tx \<Rightarrow> (db, nat option) tx" where
  "create_round e policy workspace img contextID snapshot emptyInsertErr ins =
     tx_bind (tx_read (lockActiveTranscriptionJobForUpdateManual (nullableUint64 img))) (\<lambda>active.
     tx_bind (tx_no_rows_as ErrTranscriptionCanonicalPageRequired
               (tx_row (lockCanonicalRevisionForTranscriptionJobManual img))) (\<lambda>inputRevision.
     tx_bind (tx_guard (inputRevision \<noteq> 0) ErrTranscriptionCanonicalPageRequired) (\<lambda>_.
       let insert_and_check =
             tx_bind ins (\<lambda>insertedID.
             tx_bind (tx_guard (insertedID \<noteq> 0) emptyInsertErr) (\<lambda>_.
             tx_bind (getTranscriptionJobManual insertedID) (\<lambda>created.
             tx_return (if activeTranscriptionJobMatches created contextID snapshot inputRevision
                        then Some insertedID else None)))) in
       case active of
         Some a \<Rightarrow>
           if activeTranscriptionJobMatches a contextID snapshot inputRevision then tx_return (Some (j_id a))
           else tx_bind (supersede_active e a) (\<lambda>_. insert_and_check)
       | None \<Rightarrow>
           tx_bind (enforceTranscriptionJobAdmission workspace policy) (\<lambda>_. insert_and_check))))"

fun create_rounds :: "nat \<Rightarrow> (db, nat option) tx \<Rightarrow> (db, nat) tx" where
  "create_rounds 0 body = tx_raise (ErrInvalid ''concurrent active job did not converge'')"
| "create_rounds (Suc n) body =
     tx_bind body (\<lambda>r. case r of
        Some i \<Rightarrow> if i = 0 then tx_raise (ErrInvalid ''concurrent active job did not converge'') else tx_return i
      | None \<Rightarrow> create_rounds n body)"

definition createLocked ::
    "env \<Rightarrow> int \<Rightarrow> nat \<Rightarrow> nat \<Rightarrow> nat option \<Rightarrow> json \<Rightarrow> err \<Rightarrow> (db, nat) tx \<Rightarrow> (db, nat) tx" where
  "createLocked e policy workspace img contextID snapshot emptyInsertErr ins =
     create_rounds 3 (create_round e policy workspace img contextID snapshot emptyInsertErr ins)"

definition Create :: "env \<Rightarrow> int \<Rightarrow> nat \<Rightarrow> nat \<Rightarrow> (db, nat) tx" where
  "Create e policy img processing_context =
     (if img = 0 then tx_raise (ErrInvalid ''store and item image are required'')
      else if processing_context = 0 then tx_raise (ErrInvalid ''context is required'')
      else tx_bind (lockTranscriptionAdmissionWorkspace e img) (\<lambda>w.
           tx_bind (lockContextSnapshotForWorkspace processing_context w img) (\<lambda>(cid, snapshot).
           createLocked e policy w img (nullableUint64 cid) snapshot ErrTranscriptionCanonicalPageRequired
             (createTranscriptionJobManual e img (nullableUint64 cid) snapshot))))"

end
