(* ===== verification/Job_Invariant.thy ===== *)
theory Job_Invariant
  imports Job_Admission
begin

section \<open>The invariant of the job tables\<close>

text \<open>
  What every operation on transcription jobs keeps: unique identifiers, one active job per image,
  a gapless audit log of attempts whose outcomes explain the job's status, unique lease tokens,
  and checkpoints only for active jobs. Beside it stands the relation in which a later database
  continues an earlier one: identity fields and closed attempts never change, terminal jobs are
  final, identifiers are never reused. Two point-update lemmas reduce each operation to its net
  effect on one job.
\<close>

subsection \<open>Definitions\<close>

definition attempts_of :: "db \<Rightarrow> nat \<Rightarrow> attempt_row list" where
  "attempts_of d i = filter (\<lambda>a. a_job_id a = i) (attempts d)"

definition checkpoints_of :: "db \<Rightarrow> nat \<Rightarrow> checkpoint_row list" where
  "checkpoints_of d i = filter (\<lambda>c. c_job_id c = i) (checkpoints d)"

text \<open>Every attempt but the last gave the job back to the queue; the last one explains the status.\<close>

definition explains :: "job_status \<Rightarrow> outcome list \<Rightarrow> bool" where
  "explains s os \<longleftrightarrow>
     list_all (\<lambda>oc. oc = ORetryableFailed \<or> oc = OLeaseExpired) (butlast os) \<and>
     (if os = [] then s = Pending \<or> s = Canceled \<or> s = Superseded
      else case last os of
             ORunning \<Rightarrow> s = Running
           | OCompleted \<Rightarrow> s = Completed
           | ORetryableFailed \<Rightarrow> s = Pending \<or> s = Canceled \<or> s = Superseded
           | OFailed \<Rightarrow> s = Failed
           | OCanceled \<Rightarrow> s = Canceled
           | OSuperseded \<Rightarrow> s = Superseded
           | OLeaseExpired \<Rightarrow> s = Failed)"

definition audit_ok :: "job_row \<Rightarrow> attempt_row list \<Rightarrow> bool" where
  "audit_ok r as \<longleftrightarrow>
     map a_attempt_number as = [1..j_attempt_count r] \<and>
     list_all (\<lambda>a. a_input_revision a = j_input_revision r \<and> a_context_snapshot a = j_context_snapshot r \<and>
                   attempt_row_check a) as \<and>
     explains (j_status r) (map a_outcome as) \<and>
     (j_status r = Running \<longrightarrow> j_locked_by r = Some (a_lease_token (last as)))"

definition job_ok :: "job_row \<Rightarrow> attempt_row list \<Rightarrow> checkpoint_row list \<Rightarrow> bool" where
  "job_ok r as cs \<longleftrightarrow> job_row_check r \<and> audit_ok r as \<and> (active_status (j_status r) \<or> cs = [])"

definition jobs_inv :: "db \<Rightarrow> bool" where
  "jobs_inv d \<longleftrightarrow>
     0 < next_job_id d \<and> distinct (map j_id (jobs d)) \<and>
     (\<forall>r \<in> set (jobs d). 0 < j_id r \<and> j_id r < next_job_id d) \<and>
     (\<forall>r \<in> set (jobs d). \<forall>s \<in> set (jobs d).
        active_status (j_status r) \<and> active_status (j_status s) \<and> j_item_image_id r = j_item_image_id s \<longrightarrow> r = s) \<and>
     distinct (map a_lease_token (attempts d)) \<and>
     (\<forall>a \<in> set (attempts d). \<exists>r \<in> set (jobs d). j_id r = a_job_id a) \<and>
     (\<forall>c \<in> set (checkpoints d). \<exists>r \<in> set (jobs d). j_id r = c_job_id c) \<and>
     (\<forall>r \<in> set (jobs d). job_ok r (attempts_of d (j_id r)) (checkpoints_of d (j_id r)))"

text \<open>The fields of a job that are fixed when it is created, and those of an attempt.\<close>

definition same_job :: "job_row \<Rightarrow> job_row \<Rightarrow> bool" where
  "same_job r r' \<longleftrightarrow>
     j_id r' = j_id r \<and> j_workspace_id r' = j_workspace_id r \<and> j_item_image_id r' = j_item_image_id r \<and>
     j_context_id r' = j_context_id r \<and> j_context_scope_id r' = j_context_scope_id r \<and>
     j_context_snapshot r' = j_context_snapshot r \<and> j_input_revision r' = j_input_revision r \<and>
     j_max_attempts r' = j_max_attempts r \<and> j_created_at r' = j_created_at r"

definition attempt_evolves :: "attempt_row \<Rightarrow> attempt_row \<Rightarrow> bool" where
  "attempt_evolves a a' \<longleftrightarrow>
     a_job_id a' = a_job_id a \<and> a_attempt_number a' = a_attempt_number a \<and>
     a_context_snapshot a' = a_context_snapshot a \<and> a_input_revision a' = a_input_revision a \<and>
     a_lease_owner a' = a_lease_owner a \<and> a_lease_token a' = a_lease_token a \<and>
     a_started_at a' = a_started_at a \<and> (a_outcome a \<noteq> ORunning \<longrightarrow> a' = a)"

definition job_evolves :: "job_row \<Rightarrow> attempt_row list \<Rightarrow> job_row \<Rightarrow> attempt_row list \<Rightarrow> bool" where
  "job_evolves r as r' as' \<longleftrightarrow>
     same_job r r' \<and> j_attempt_count r \<le> j_attempt_count r' \<and>
     (terminal_status (j_status r) \<longrightarrow> r' = r \<and> as' = as) \<and>
     length as \<le> length as' \<and> list_all2 attempt_evolves as (take (length as) as')"

definition db_evolves :: "db \<Rightarrow> db \<Rightarrow> bool" where
  "db_evolves d d' \<longleftrightarrow>
     next_job_id d \<le> next_job_id d' \<and>
     (\<forall>r' \<in> set (jobs d'). j_id r' < next_job_id d \<longrightarrow> (\<exists>r \<in> set (jobs d). j_id r = j_id r')) \<and>
     (\<forall>r \<in> set (jobs d).
        (\<exists>r' \<in> set (jobs d'). j_id r' = j_id r \<and>
            job_evolves r (attempts_of d (j_id r)) r' (attempts_of d' (j_id r))) \<or>
        (\<forall>r' \<in> set (jobs d'). j_id r' \<noteq> j_id r))"

text \<open>One operation removes a job only when it is terminal.\<close>

definition removes_terminal :: "db \<Rightarrow> db \<Rightarrow> bool" where
  "removes_terminal d d' \<longleftrightarrow>
     (\<forall>r \<in> set (jobs d). (\<exists>r' \<in> set (jobs d'). j_id r' = j_id r) \<or> terminal_status (j_status r))"

subsection \<open>Reflexivity and transitivity\<close>

lemma attempt_evolves_refl [simp]: "attempt_evolves a a"
  by (simp add: attempt_evolves_def)

lemma attempt_evolves_trans: "attempt_evolves a b \<Longrightarrow> attempt_evolves b c \<Longrightarrow> attempt_evolves a c"
  unfolding attempt_evolves_def by auto

lemma job_evolves_refl [simp]: "job_evolves r as r as"
  by (simp add: job_evolves_def same_job_def list_all2_refl)

lemma job_evolves_trans:
  assumes "job_evolves r as r' as'" and "job_evolves r' as' r'' as''"
  shows "job_evolves r as r'' as''"
proof -
  from assms have len: "length as \<le> length as'" "length as' \<le> length as''"
    and a: "list_all2 attempt_evolves as (take (length as) as')"
    and b: "list_all2 attempt_evolves as' (take (length as') as'')"
    by (simp_all add: job_evolves_def)
  have "list_all2 attempt_evolves as (take (length as) as'')"
    unfolding list_all2_conv_all_nth
  proof (intro conjI allI impI)
    from len show "length as = length (take (length as) as'')" by simp
    fix i assume i: "i < length as"
    from a i len have "attempt_evolves (as ! i) (as' ! i)"
      by (auto simp: list_all2_conv_all_nth)
    moreover from b i len have "attempt_evolves (as' ! i) (as'' ! i)"
      by (auto simp: list_all2_conv_all_nth)
    ultimately show "attempt_evolves (as ! i) (take (length as) as'' ! i)"
      using i attempt_evolves_trans by simp
  qed
  with len assms show ?thesis by (auto simp: job_evolves_def same_job_def)
qed

lemma db_evolves_refl [simp]: "db_evolves d d"
  using job_evolves_refl by (auto simp: db_evolves_def)

lemma jobs_invD:
  assumes "jobs_inv d" and "r \<in> set (jobs d)"
  shows "0 < j_id r" "j_id r < next_job_id d" "job_ok r (attempts_of d (j_id r)) (checkpoints_of d (j_id r))"
    "job_row_check r" "audit_ok r (attempts_of d (j_id r))"
  using assms by (auto simp: jobs_inv_def job_ok_def)

lemma jobs_inv_unique:
  assumes "jobs_inv d" and "r \<in> set (jobs d)" and "s \<in> set (jobs d)" and "j_id r = j_id s"
  shows "r = s"
proof -
  from assms have "distinct (map j_id (jobs d))" by (simp add: jobs_inv_def)
  then have "inj_on j_id (set (jobs d))" by (simp add: distinct_map)
  with assms show ?thesis by (auto dest: inj_onD)
qed

lemma db_evolves_trans:
  assumes "db_evolves d d'" and "db_evolves d' d''" and "jobs_inv d" and "jobs_inv d'"
  shows "db_evolves d d''"
  unfolding db_evolves_def
proof (intro conjI ballI impI)
  from assms(1,2) show "next_job_id d \<le> next_job_id d''" by (simp add: db_evolves_def)
next
  fix r'' assume "r'' \<in> set (jobs d'')" and lt: "j_id r'' < next_job_id d"
  moreover from assms(1) lt have "j_id r'' < next_job_id d'" by (simp add: db_evolves_def)
  ultimately obtain r' where "r' \<in> set (jobs d')" and "j_id r' = j_id r''"
    using assms(2) unfolding db_evolves_def by blast
  with lt assms(1) show "\<exists>r \<in> set (jobs d). j_id r = j_id r''" unfolding db_evolves_def by metis
next
  fix r assume r: "r \<in> set (jobs d)"
  have gone: "\<forall>r'' \<in> set (jobs d''). j_id r'' \<noteq> j_id r" if g: "\<forall>r' \<in> set (jobs d'). j_id r' \<noteq> j_id r"
  proof (intro ballI notI)
    fix r'' assume "r'' \<in> set (jobs d'')" and "j_id r'' = j_id r"
    moreover have "j_id r < next_job_id d'"
      using jobs_invD(2) [OF assms(3) r] assms(1) by (simp add: db_evolves_def)
    ultimately show False using assms(2) g unfolding db_evolves_def by metis
  qed
  show "(\<exists>r'' \<in> set (jobs d''). j_id r'' = j_id r \<and>
       job_evolves r (attempts_of d (j_id r)) r'' (attempts_of d'' (j_id r))) \<or>
     (\<forall>r'' \<in> set (jobs d''). j_id r'' \<noteq> j_id r)"
  proof (cases "\<forall>r' \<in> set (jobs d'). j_id r' \<noteq> j_id r")
    case True
    with gone show ?thesis by blast
  next
    case False
    with assms(1) r obtain r' where "r' \<in> set (jobs d')" "j_id r' = j_id r"
      "job_evolves r (attempts_of d (j_id r)) r' (attempts_of d' (j_id r))"
      unfolding db_evolves_def by metis
    with assms(2) job_evolves_trans show ?thesis unfolding db_evolves_def by metis
  qed
qed

subsection \<open>Changing one job\<close>

text \<open>
  The net effect of most operations: one row is rewritten, and only the attempts and checkpoints
  of that job change.
\<close>

definition point_update :: "job_row \<Rightarrow> job_row \<Rightarrow> db \<Rightarrow> db \<Rightarrow> bool" where
  "point_update r r' d d' \<longleftrightarrow>
     jobs d' = sql_update (\<lambda>x. j_id x = j_id r) (\<lambda>_. r') (jobs d) \<and>
     next_job_id d' = next_job_id d \<and>
     (\<forall>k. k \<noteq> j_id r \<longrightarrow> attempts_of d' k = attempts_of d k \<and> checkpoints_of d' k = checkpoints_of d k) \<and>
     distinct (map a_lease_token (attempts d'))"

lemma point_update_jobs:
  assumes "point_update r r' d d'" and "r \<in> set (jobs d)" and "j_id r' = j_id r"
  shows "set (jobs d') = insert r' {x \<in> set (jobs d). j_id x \<noteq> j_id r}"
    and "map j_id (jobs d') = map j_id (jobs d)"
proof -
  from assms have j: "jobs d' = sql_update (\<lambda>x. j_id x = j_id r) (\<lambda>_. r') (jobs d)"
    by (simp add: point_update_def)
  from assms(2) show "set (jobs d') = insert r' {x \<in> set (jobs d). j_id x \<noteq> j_id r}"
    unfolding j by (auto simp: set_sql_update)
  show "map j_id (jobs d') = map j_id (jobs d)"
    unfolding j by (rule map_key_sql_update) (use assms(3) in auto)
qed

lemma attempts_of_mem: "a \<in> set (attempts_of d k) \<longleftrightarrow> a \<in> set (attempts d) \<and> a_job_id a = k"
  by (auto simp: attempts_of_def)

lemma checkpoints_of_mem: "c \<in> set (checkpoints_of d k) \<longleftrightarrow> c \<in> set (checkpoints d) \<and> c_job_id c = k"
  by (auto simp: checkpoints_of_def)

lemma point_update_inv:
  assumes inv: "jobs_inv d" and r: "r \<in> set (jobs d)" and upd: "point_update r r' d d'"
    and evo: "job_evolves r (attempts_of d (j_id r)) r' (attempts_of d' (j_id r))"
    and ok: "job_ok r' (attempts_of d' (j_id r)) (checkpoints_of d' (j_id r))"
  shows "jobs_inv d'"
proof -
  from evo have id': "j_id r' = j_id r" and img: "j_item_image_id r' = j_item_image_id r"
    and final: "terminal_status (j_status r) \<Longrightarrow> r' = r"
    by (auto simp: job_evolves_def same_job_def)
  note set' = point_update_jobs(1) [OF upd r id'] and ids = point_update_jobs(2) [OF upd r id']
  have act: "active_status (j_status r') \<Longrightarrow> active_status (j_status r)"
    using final not_active_iff_terminal by metis
  have d': "distinct (map j_id (jobs d'))" using inv ids by (simp add: jobs_inv_def)
  then have inj: "inj_on j_id (set (jobs d'))" by (simp add: distinct_map)
  have uniq: "x = y" if "x \<in> set (jobs d')" "y \<in> set (jobs d')" "active_status (j_status x)"
      "active_status (j_status y)" "j_item_image_id x = j_item_image_id y" for x y
  proof -
    have old: "\<exists>o' \<in> set (jobs d). active_status (j_status o') \<and> j_item_image_id o' = j_item_image_id z \<and>
             j_id o' = j_id z" if "z \<in> set (jobs d')" "active_status (j_status z)" for z
    proof (cases "z = r'")
      case True with r act img id' that(2) show ?thesis by auto
    next
      case False with that show ?thesis unfolding set' by auto
    qed
    from old [OF that(1,3)] obtain x' where x': "x' \<in> set (jobs d)" "active_status (j_status x')"
      "j_item_image_id x' = j_item_image_id x" "j_id x' = j_id x" by blast
    from old [OF that(2,4)] obtain y' where y': "y' \<in> set (jobs d)" "active_status (j_status y')"
      "j_item_image_id y' = j_item_image_id y" "j_id y' = j_id y" by blast
    from inv x'(1,2) y'(1,2) x'(3) y'(3) that(5) have "x' = y'" unfolding jobs_inv_def by simp
    with x'(4) y'(4) have "j_id x = j_id y" by simp
    with inj that(1,2) show ?thesis by (blast dest: inj_onD)
  qed
  have other: "attempts_of d' k = attempts_of d k" "checkpoints_of d' k = checkpoints_of d k" if "k \<noteq> j_id r" for k
    using upd that by (auto simp: point_update_def)
  have owner: "\<exists>x \<in> set (jobs d'). j_id x = k" if "\<exists>x \<in> set (jobs d). j_id x = k" for k
    using that id' unfolding set' by (cases "k = j_id r") auto
  have atts: "\<exists>x \<in> set (jobs d'). j_id x = a_job_id a" if "a \<in> set (attempts d')" for a
  proof (cases "a_job_id a = j_id r")
    case True then show ?thesis using id' unfolding set' by auto
  next
    case False
    with that other(1) have "a \<in> set (attempts d)" by (metis attempts_of_mem)
    with inv owner show ?thesis by (simp add: jobs_inv_def)
  qed
  have cps: "\<exists>x \<in> set (jobs d'). j_id x = c_job_id c" if "c \<in> set (checkpoints d')" for c
  proof (cases "c_job_id c = j_id r")
    case True then show ?thesis using id' unfolding set' by auto
  next
    case False
    with that other(2) have "c \<in> set (checkpoints d)" by (metis checkpoints_of_mem)
    with inv owner show ?thesis by (simp add: jobs_inv_def)
  qed
  have oks: "job_ok x (attempts_of d' (j_id x)) (checkpoints_of d' (j_id x))" if "x \<in> set (jobs d')" for x
  proof (cases "x = r'")
    case True with ok id' show ?thesis by simp
  next
    case False
    with that have "x \<in> set (jobs d)" and "j_id x \<noteq> j_id r" unfolding set' by auto
    with other jobs_invD(3) [OF inv] show ?thesis by simp
  qed
  have range: "0 < j_id x \<and> j_id x < next_job_id d'" if "x \<in> set (jobs d')" for x
  proof -
    from that id' r obtain y where y: "y \<in> set (jobs d)" and "j_id y = j_id x" unfolding set' by auto
    with jobs_invD(1,2) [OF inv y] upd show ?thesis by (simp add: point_update_def)
  qed
  show ?thesis
    unfolding jobs_inv_def [of d']
    using d' uniq atts cps oks range upd inv by (simp add: point_update_def jobs_inv_def)
qed

lemma point_update_evolves:
  assumes inv: "jobs_inv d" and r: "r \<in> set (jobs d)" and upd: "point_update r r' d d'"
    and evo: "job_evolves r (attempts_of d (j_id r)) r' (attempts_of d' (j_id r))"
  shows "db_evolves d d'" and "removes_terminal d d'"
proof -
  from evo have id': "j_id r' = j_id r" by (simp add: job_evolves_def same_job_def)
  note set' = point_update_jobs(1) [OF upd r id']
  have keep: "\<exists>x' \<in> set (jobs d'). j_id x' = j_id x \<and>
      job_evolves x (attempts_of d (j_id x)) x' (attempts_of d' (j_id x))" if x: "x \<in> set (jobs d)" for x
  proof (cases "j_id x = j_id r")
    case True
    with jobs_inv_unique [OF inv x r] have "x = r" by simp
    with evo id' show ?thesis unfolding set' by auto
  next
    case False
    with x upd have "x \<in> set (jobs d')" and "attempts_of d' (j_id x) = attempts_of d (j_id x)"
      unfolding set' by (auto simp: point_update_def)
    then show ?thesis using job_evolves_refl by metis
  qed
  moreover have "\<exists>y \<in> set (jobs d). j_id y = j_id x" if "x \<in> set (jobs d')" for x
    using that id' r unfolding set' by auto
  moreover have "next_job_id d' = next_job_id d" using upd by (simp add: point_update_def)
  ultimately show "db_evolves d d'" by (simp add: db_evolves_def)
  show "removes_terminal d d'" using keep by (auto simp: removes_terminal_def)
qed

subsection \<open>One row of the job table\<close>

text \<open>A statement that pins the identifier and reports one affected row rewrote exactly that row.\<close>

lemma update_jobs_one:
  assumes "update_jobs P f d = Inr (1, d')" and "distinct (map j_id (jobs d))" and "\<And>x. P x \<Longrightarrow> j_id x = i"
  obtains r where "r \<in> set (jobs d)" and "P r" and "f r \<noteq> r" and "job_row_check (f r)"
    and "d' = d\<lparr>jobs := sql_update (\<lambda>x. j_id x = j_id r) (\<lambda>_. f r) (jobs d)\<rparr>"
proof -
  from assms(1) have chk: "\<forall>r \<in> set (jobs d). P r \<longrightarrow> job_row_check (f r)"
    and one: "sql_changed P f (jobs d) = 1" and d': "d' = d\<lparr>jobs := sql_update P f (jobs d)\<rparr>"
    by (auto simp: tx_elims)
  from one obtain r where r: "r \<in> set (jobs d)" "P r" "f r \<noteq> r" by (rule sql_changed_one)
  have "sql_update P f (jobs d) = sql_update (\<lambda>x. j_id x = j_id r) (\<lambda>_. f r) (jobs d)"
    by (rule sql_update_unique) (use assms(2,3) r in auto)
  with that r chk d' show thesis by simp
qed

lemma find_job_Some:
  assumes "jobs_inv d" and "r \<in> set (jobs d)"
  shows "find (\<lambda>x. j_id x = j_id r) (jobs d) = Some r"
  by (rule find_unique [where k = j_id]) (use assms in \<open>auto simp: jobs_inv_def\<close>)

lemma find_job_point_update:
  assumes "jobs_inv d" and "r \<in> set (jobs d)" and "j_id r' = j_id r"
  shows "find (\<lambda>x. j_id x = j_id r) (sql_update (\<lambda>x. j_id x = j_id r) (\<lambda>_. r') (jobs d)) = Some r'"
proof (rule find_unique [where k = j_id])
  have "map j_id (sql_update (\<lambda>x. j_id x = j_id r) (\<lambda>_. r') (jobs d)) = map j_id (jobs d)"
    by (rule map_key_sql_update) (use assms(3) in auto)
  with assms(1) show "distinct (map j_id (sql_update (\<lambda>x. j_id x = j_id r) (\<lambda>_. r') (jobs d)))"
    by (simp add: jobs_inv_def)
  show "r' \<in> set (sql_update (\<lambda>x. j_id x = j_id r) (\<lambda>_. r') (jobs d))"
    using assms(2) by (auto simp: set_sql_update)
qed (use assms(3) in auto)

lemma lease_heldD:
  assumes "lease_held t i n v tok r"
  shows "j_id r = i" "j_attempt_count r = n" "j_input_revision r = v" "j_status r = Running"
    "coalesce_eq (j_locked_by r) tok" "\<exists>u. j_lease_until r = Some u \<and> t < u"
  using assms by (auto simp: lease_held_def split: option.splits)

subsection \<open>Closing an attempt\<close>

definition close_attempt :: "outcome \<Rightarrow> string option \<Rightarrow> nat option \<Rightarrow> nat \<Rightarrow> attempt_row \<Rightarrow> attempt_row" where
  "close_attempt oc m res t6 a =
     a\<lparr>a_outcome := oc, a_safe_error_message := m, a_result_revision := res,
       a_finished_at := Some (max (a_started_at a) t6)\<rparr>"

lemma explains_snoc:
  "explains s (os @ [oc]) \<longleftrightarrow>
     list_all (\<lambda>oc. oc = ORetryableFailed \<or> oc = OLeaseExpired) os \<and>
     (case oc of ORunning \<Rightarrow> s = Running | OCompleted \<Rightarrow> s = Completed
      | ORetryableFailed \<Rightarrow> s = Pending \<or> s = Canceled \<or> s = Superseded | OFailed \<Rightarrow> s = Failed
      | OCanceled \<Rightarrow> s = Canceled | OSuperseded \<Rightarrow> s = Superseded | OLeaseExpired \<Rightarrow> s = Failed)"
  by (simp add: explains_def)

text \<open>A running attempt in the log of a job is its last one, and the job runs under its token.\<close>

lemma audit_running:
  assumes ok: "audit_ok r L" and b: "b \<in> set L" "a_outcome b = ORunning"
  obtains as where "L = as @ [b]" and "j_status r = Running" and "a_attempt_number b = j_attempt_count r"
    and "j_locked_by r = Some (a_lease_token b)" and "\<And>x. x \<in> set as \<Longrightarrow> a_outcome x \<noteq> ORunning"
proof -
  from b(1) have "L \<noteq> []" by auto
  then obtain as a where L: "L = as @ [a]" by (cases L rule: rev_cases) auto
  from ok have ex: "explains (j_status r) (map a_outcome as @ [a_outcome a])" by (simp add: audit_ok_def L)
  then have as: "a_outcome x \<noteq> ORunning" if "x \<in> set as" for x
    using that by (auto simp: explains_snoc list_all_iff)
  with b L have "b = a" by auto
  with b ex have run: "j_status r = Running" by (simp add: explains_snoc)
  have "a_attempt_number b = j_attempt_count r"
  proof -
    from ok have m: "map a_attempt_number as @ [a_attempt_number a] = [1..j_attempt_count r]"
      by (simp add: audit_ok_def L)
    then have "1 \<le> j_attempt_count r" by (cases "1 \<le> j_attempt_count r") auto
    then have "[1..j_attempt_count r] = [1..j_attempt_count r - 1] @ [j_attempt_count r]" by (rule upto_rec2)
    with m \<open>b = a\<close> show ?thesis by simp
  qed
  moreover from ok run \<open>b = a\<close> have "j_locked_by r = Some (a_lease_token b)" by (simp add: audit_ok_def L)
  ultimately show thesis using that L \<open>b = a\<close> run as by simp
qed

lemma finish_effect:
  assumes inv: "jobs_inv d" and r: "r \<in> set (jobs d)" and id: "JobID fence = j_id r"
    and fin: "finishTranscriptionAttempt e fence oc m res d = Inr (x, d')"
  obtains as a where "attempts_of d (j_id r) = as @ [a]" and "j_status r = Running"
    and "int (AttemptNumber fence) = j_attempt_count r" and "InputRevision fence = j_input_revision r"
    and "j_locked_by r = Some (LeaseToken fence)" and "oc \<noteq> ORunning"
    and "d' = d\<lparr>attempts := attempts d'\<rparr>"
    and "attempts_of d' (j_id r) = as @ [close_attempt oc (nullableString (trim_space m)) res (now6 e) a]"
    and "attempt_row_check (close_attempt oc (nullableString (trim_space m)) res (now6 e) a)"
    and "\<And>k. k \<noteq> j_id r \<Longrightarrow> attempts_of d' k = attempts_of d k"
    and "map a_lease_token (attempts d') = map a_lease_token (attempts d)"
proof -
  let ?P = "\<lambda>a. a_job_id a = j_id r \<and> a_attempt_number a = int (AttemptNumber fence) \<and>
            a_input_revision a = InputRevision fence \<and> a_lease_token a = LeaseToken fence \<and> a_outcome a = ORunning"
  let ?f = "close_attempt oc (nullableString (trim_space m)) res (now6 e)"
  from fin have oc: "oc \<noteq> ORunning" and one: "sql_changed ?P ?f (attempts d) = 1"
    and d': "d' = d\<lparr>attempts := sql_update ?P ?f (attempts d)\<rparr>"
    and chk: "\<forall>a \<in> set (attempts d). ?P a \<longrightarrow> attempt_row_check (?f a)"
    unfolding finishTranscriptionAttempt_def finishTranscriptionJobAttemptManual_def Let_def close_attempt_def
    by (auto simp: tx_elims id split: if_splits option.splits)
  from one obtain b where b: "b \<in> set (attempts d)" "?P b" by (rule sql_changed_one)
  then have "b \<in> set (attempts_of d (j_id r))" by (simp add: attempts_of_mem)
  with b(2) obtain as where as: "attempts_of d (j_id r) = as @ [b]" "j_status r = Running"
      "a_attempt_number b = j_attempt_count r" "j_locked_by r = Some (a_lease_token b)"
      "\<And>x. x \<in> set as \<Longrightarrow> a_outcome x \<noteq> ORunning"
    using audit_running [OF jobs_invD(5) [OF inv r]] by metis
  have f: "a_job_id (?f a) = a_job_id a" "a_lease_token (?f a) = a_lease_token a" for a
    by (simp_all add: close_attempt_def)
  have sub: "filter (\<lambda>a. a_job_id a = k) (sql_update ?P ?f xs) = sql_update ?P ?f (filter (\<lambda>a. a_job_id a = k) xs)"
    for k xs by (induction xs) (auto simp: sql_update_def f)
  have "sql_update ?P ?f (as @ [b]) = as @ [?f b]"
    using as(5) b(2) by (auto simp: sql_update_def intro: map_idI)
  then have "attempts_of d' (j_id r) = as @ [?f b]"
    using as(1) by (simp add: d' attempts_of_def sub)
  moreover have "attempts_of d' k = attempts_of d k" if "k \<noteq> j_id r" for k
    unfolding d' attempts_of_def by simp (rule filter_sql_update_other; use that in \<open>auto simp: f\<close>)
  moreover have "map a_lease_token (attempts d') = map a_lease_token (attempts d)"
    unfolding d' by simp (rule map_key_sql_update, rule f)
  moreover have "a_input_revision b = j_input_revision r"
    using jobs_invD(5) [OF inv r] as(1) by (simp add: audit_ok_def)
  ultimately show thesis using that [of as b] as b chk oc d' by simp
qed

subsection \<open>Net effects\<close>

text \<open>What one committed operation guarantees, and the lemmas that establish it.\<close>

definition good :: "db \<Rightarrow> db \<Rightarrow> bool" where
  "good d d' \<longleftrightarrow> jobs_inv d' \<and> db_evolves d d' \<and> removes_terminal d d'"

definition job_frame :: "db \<Rightarrow> db \<Rightarrow> bool" where
  "job_frame d d' \<longleftrightarrow>
     jobs d' = jobs d \<and> attempts d' = attempts d \<and> checkpoints d' = checkpoints d \<and> next_job_id d' = next_job_id d"

lemma job_frame_refl [simp]: "job_frame d d"
  by (simp add: job_frame_def)

lemma job_frame_trans: "job_frame d d' \<Longrightarrow> job_frame d' d'' \<Longrightarrow> job_frame d d''"
  by (simp add: job_frame_def)

lemma job_frame_cong:
  assumes "job_frame d d'"
  shows "attempts_of d' = attempts_of d" "checkpoints_of d' = checkpoints_of d" "jobs_inv d' = jobs_inv d"
  using assms by (auto simp: job_frame_def attempts_of_def checkpoints_of_def jobs_inv_def fun_eq_iff)

lemma good_refl: "jobs_inv d \<Longrightarrow> good d d"
  by (auto simp: good_def removes_terminal_def)

lemma good_frame: "good d d' \<Longrightarrow> job_frame d' d'' \<Longrightarrow> good d d''"
  using job_frame_cong [of d' d'']
  by (auto simp: good_def db_evolves_def removes_terminal_def job_frame_def)

lemma frame_good: "jobs_inv d \<Longrightarrow> job_frame d d' \<Longrightarrow> good d d'"
  using good_frame good_refl by blast

lemma good_trans:
  assumes "jobs_inv d" and "good d d'" and "good d' d''"
    and "\<And>r. r \<in> set (jobs d') \<Longrightarrow> \<exists>r'' \<in> set (jobs d''). j_id r'' = j_id r"
  shows "good d d''"
proof -
  have "db_evolves d d''" using assms db_evolves_trans by (auto simp: good_def)
  moreover have "removes_terminal d d''"
    using assms(2,4) unfolding good_def removes_terminal_def by metis
  ultimately show ?thesis using assms(3) by (simp add: good_def)
qed

text \<open>What becomes of the checkpoints: they are deleted, or kept with an active job.\<close>

definition checkpoint_effect :: "job_row \<Rightarrow> db \<Rightarrow> db \<Rightarrow> bool" where
  "checkpoint_effect r' d d' \<longleftrightarrow>
     (checkpoints d' = checkpoints d \<and> active_status (j_status r')) \<or>
     checkpoints d' = sql_delete (\<lambda>c. c_job_id c = j_id r') (checkpoints d)"

lemma checkpoint_effectD:
  assumes "checkpoint_effect r' d d'"
  shows "\<And>k. k \<noteq> j_id r' \<Longrightarrow> checkpoints_of d' k = checkpoints_of d k"
    and "active_status (j_status r') \<or> checkpoints_of d' (j_id r') = []"
  using assms by (auto simp: checkpoint_effect_def checkpoints_of_def sql_delete_def filter_empty_conv intro: filter_cong)

text \<open>An update of an active job that leaves its attempts alone.\<close>

lemma touch_good:
  assumes inv: "jobs_inv d" and r: "r \<in> set (jobs d)" and act: "active_status (j_status r)"
    and j: "jobs d' = sql_update (\<lambda>x. j_id x = j_id r) (\<lambda>_. r') (jobs d)"
    and f: "attempts d' = attempts d" "next_job_id d' = next_job_id d"
    and c: "checkpoint_effect r' d d'" and same: "same_job r r'" and cnt: "j_attempt_count r' = j_attempt_count r"
    and chk: "job_row_check r'" and ex: "explains (j_status r') (map a_outcome (attempts_of d (j_id r)))"
    and tok: "j_status r' = Running \<Longrightarrow> j_status r = Running \<and> j_locked_by r' = j_locked_by r"
  shows "good d d'"
proof -
  from same have id': "j_id r' = j_id r" by (simp add: same_job_def)
  from f have att: "attempts_of d' = attempts_of d" by (simp add: attempts_of_def fun_eq_iff)
  have upd: "point_update r r' d d'"
    using j f inv att checkpoint_effectD(1) [OF c] id' by (simp add: point_update_def jobs_inv_def)
  have evo: "job_evolves r (attempts_of d (j_id r)) r' (attempts_of d' (j_id r))"
    using same cnt act not_active_iff_terminal [of "j_status r"] by (simp add: job_evolves_def att list_all2_refl)
  have "audit_ok r (attempts_of d (j_id r))" using jobs_invD [OF inv r] by simp
  then have "audit_ok r' (attempts_of d (j_id r))"
    using same cnt ex tok by (auto simp: audit_ok_def same_job_def)
  with chk checkpoint_effectD(2) [OF c] att id' have "job_ok r' (attempts_of d' (j_id r)) (checkpoints_of d' (j_id r))"
    by (simp add: job_ok_def)
  with point_update_inv [OF inv r upd evo] point_update_evolves [OF inv r upd evo] show ?thesis by (simp add: good_def)
qed

definition closes :: "outcome \<Rightarrow> job_status \<Rightarrow> bool" where
  "closes oc st \<longleftrightarrow>
     (case oc of ORunning \<Rightarrow> False | OCompleted \<Rightarrow> st = Completed | ORetryableFailed \<Rightarrow> st = Pending
      | OFailed \<Rightarrow> st = Failed | OCanceled \<Rightarrow> st = Canceled | OSuperseded \<Rightarrow> st = Superseded
      | OLeaseExpired \<Rightarrow> st = Failed)"

lemma attempt_evolves_close: "a_outcome a = ORunning \<Longrightarrow> attempt_evolves a (close_attempt oc m res t a)"
  by (simp add: attempt_evolves_def close_attempt_def)

lemma list_all2_evolves_snoc:
  assumes "attempt_evolves a a'"
  shows "list_all2 attempt_evolves (as @ [a]) (as @ [a'])"
  using assms by (simp add: list_all2_appendI list_all2_refl)

lemma audit_last_running:
  assumes "audit_ok r (as @ [a])" and "j_status r = Running"
  shows "a_outcome a = ORunning"
  using assms by (auto simp: audit_ok_def explains_snoc split: outcome.splits)

text \<open>The running attempt is closed and the job leaves the running state with a matching status.\<close>

lemma close_good:
  assumes inv: "jobs_inv d" and r: "r \<in> set (jobs d)" and id: "JobID fence = j_id r"
    and fin: "finishTranscriptionAttempt e fence oc m res d = Inr (x, d1)"
    and j: "jobs d' = sql_update (\<lambda>x. j_id x = j_id r) (\<lambda>_. r') (jobs d)"
    and f: "attempts d' = attempts d1" "next_job_id d' = next_job_id d"
    and c: "checkpoint_effect r' d d'" and same: "same_job r r'" and cnt: "j_attempt_count r' = j_attempt_count r"
    and chk: "job_row_check r'" and cl: "closes oc (j_status r')"
  shows "good d d'"
proof (rule finish_effect [OF inv r id fin])
  fix as a
  let ?a = "close_attempt oc (nullableString (trim_space m)) res (now6 e) a"
  assume L: "attempts_of d (j_id r) = as @ [a]" and run: "j_status r = Running" and "oc \<noteq> ORunning"
    and L': "attempts_of d1 (j_id r) = as @ [?a]" and chka: "attempt_row_check ?a"
    and oth: "\<And>k. k \<noteq> j_id r \<Longrightarrow> attempts_of d1 k = attempts_of d k"
    and tok: "map a_lease_token (attempts d1) = map a_lease_token (attempts d)"
  from same have id': "j_id r' = j_id r" by (simp add: same_job_def)
  from f have att: "attempts_of d' = attempts_of d1" by (simp add: attempts_of_def fun_eq_iff)
  have upd: "point_update r r' d d'"
    using j f inv att oth tok checkpoint_effectD(1) [OF c] id' by (simp add: point_update_def jobs_inv_def)
  have audit: "audit_ok r (as @ [a])" using jobs_invD(5) [OF inv r] L by simp
  have evo: "job_evolves r (attempts_of d (j_id r)) r' (attempts_of d' (j_id r))"
    using same cnt run attempt_evolves_close [OF audit_last_running [OF audit run]]
    by (simp add: job_evolves_def att L L' terminal_status_def list_all2_evolves_snoc)
  have "audit_ok r' (as @ [?a])"
    using audit same cnt chka cl run
    by (auto simp: audit_ok_def same_job_def close_attempt_def explains_snoc closes_def list_all_iff split: outcome.splits)
  with chk checkpoint_effectD(2) [OF c] att L' id' have "job_ok r' (attempts_of d' (j_id r)) (checkpoints_of d' (j_id r))"
    by (simp add: job_ok_def)
  with point_update_inv [OF inv r upd evo] point_update_evolves [OF inv r upd evo] show ?thesis by (simp add: good_def)
qed

subsection \<open>Leasing\<close>

lemma jobs_inv_distinct: "jobs_inv d \<Longrightarrow> distinct (map j_id (jobs d))"
  by (simp add: jobs_inv_def)

definition worker_token :: "env \<Rightarrow> string" where
  "worker_token e = ''worker-'' @ uuid e"

definition lease_row :: "env \<Rightarrow> job_row \<Rightarrow> job_row" where
  "lease_row e r = set_leased (now e) (datetime_of (clock6 e + 600000000)) (Some (worker_token e)) r"

definition lease_attempt :: "env \<Rightarrow> job_row \<Rightarrow> attempt_row" where
  "lease_attempt e r =
     \<lparr>a_job_id = j_id r, a_attempt_number = j_attempt_count r + 1, a_context_snapshot = j_context_snapshot r,
      a_input_revision = j_input_revision r, a_lease_owner = transcriptionLeaseOwner e,
      a_lease_token = worker_token e, a_outcome = ORunning, a_safe_error_message = None,
      a_result_revision = None, a_started_at = now6 e, a_finished_at = None\<rparr>"

lemma worker_token:
  assumes "uuid_text (uuid e)"
  shows "newLeaseOwner e ''worker'' = worker_token e" and "nullableString (worker_token e) = Some (worker_token e)"
  using nullableString_owner [OF assms, of "''worker-''"]
  by (simp_all add: newLeaseOwner_prefixes is_graph_def worker_token_def)

lemma insert_attempt_effect:
  assumes ins: "insertTranscriptionJobAttemptManual e owner tok i n v arg d = Inr (1, d')"
    and only: "\<And>x. x \<in> set (jobs d) \<Longrightarrow> j_id x = i \<Longrightarrow> x = r"
    and a: "a = \<lparr>a_job_id = j_id r, a_attempt_number = j_attempt_count r, a_context_snapshot = j_context_snapshot r,
      a_input_revision = j_input_revision r, a_lease_owner = owner, a_lease_token = tok, a_outcome = ORunning,
      a_safe_error_message = None, a_result_revision = None, a_started_at = now6 e, a_finished_at = None\<rparr>"
  shows "attempt_row_check a" and "tok \<notin> a_lease_token ` set (attempts d)"
    and "d' = d\<lparr>attempts := attempts d @ [a]\<rparr>"
proof -
  from ins obtain x where "find (\<lambda>r. j_id r = i \<and> j_status r = Running \<and> j_attempt_count r = n \<and>
       j_input_revision r = v \<and> coalesce_eq (j_locked_by r) arg) (jobs d) = Some x"
    unfolding insertTranscriptionJobAttemptManual_def by (auto split: option.splits)
  moreover from this only have "x = r" by (blast dest: find_Some_mem)
  ultimately have "attempt_row_check a \<and> \<not> list_ex (\<lambda>b. a_lease_token b = tok) (attempts d) \<and>
      d' = d\<lparr>attempts := attempts d @ [a]\<rparr>"
    using ins unfolding insertTranscriptionJobAttemptManual_def a
    by (auto simp: Let_def list_ex_iff split: if_splits)
  then show "attempt_row_check a" "tok \<notin> a_lease_token ` set (attempts d)"
    "d' = d\<lparr>attempts := attempts d @ [a]\<rparr>" by (auto simp: list_ex_iff)
qed

lemma claim_lease_effect:
  assumes inv: "jobs_inv d0" and r: "r \<in> set (jobs d0)" and j0: "jobs d = jobs d0" and u: "uuid_text (uuid e)"
    and lease: "claim_lease e r d = Inr (j, d')"
  shows "leasable (now e) (j_id r) (j_attempt_count r) (j_input_revision r) (j_locked_by r) r"
    and "job_row_check (lease_row e r)" and "attempt_row_check (lease_attempt e r)"
    and "worker_token e \<notin> a_lease_token ` set (attempts d)"
    and "d' = d\<lparr>jobs := sql_update (\<lambda>x. j_id x = j_id r) (\<lambda>_. lease_row e r) (jobs d0),
              attempts := attempts d @ [lease_attempt e r]\<rparr>"
    and "j = with_attempts (lease_row e r) d'"
proof -
  let ?P = "leasable (now e) (j_id r) (j_attempt_count r) (j_input_revision r) (j_locked_by r)"
  let ?f = "set_leased (now e) (datetime_of (clock6 e + 600000000)) (Some (worker_token e))"
  obtain d1 d2 c where m: "update_jobs ?P ?f d = Inr (1, d1)"
    and ins: "insertTranscriptionJobAttemptManual e (transcriptionLeaseOwner e) (worker_token e) (j_id r)
        (j_attempt_count r + 1) (j_input_revision r) (Some (worker_token e)) d1 = Inr (1, d2)"
    and g: "find (\<lambda>x. j_id x = j_id r) (jobs d2) = Some c" and res: "j = with_attempts c d2" "d' = d2"
    using lease
    by (auto simp: claim_lease_def Let_def tx_elims worker_token [OF u] markTranscriptionJobLeasedManual_def
                   getTranscriptionJobManual_def simp del: update_jobs_Inr)
  have dist: "distinct (map j_id (jobs d))" using inv j0 by (simp add: jobs_inv_def)
  obtain r0 where r0: "r0 \<in> set (jobs d)" "?P r0" "job_row_check (?f r0)"
      "d1 = d\<lparr>jobs := sql_update (\<lambda>x. j_id x = j_id r0) (\<lambda>_. ?f r0) (jobs d)\<rparr>"
    using update_jobs_one [OF m dist, of "j_id r"] by (auto simp: leasable_def)
  then have "r0 = r" using jobs_inv_unique [OF inv _ r, of r0] j0 by (auto simp: leasable_def)
  with r0 have P: "?P r" and d1: "d1 = d\<lparr>jobs := sql_update (\<lambda>x. j_id x = j_id r) (\<lambda>_. lease_row e r) (jobs d0)\<rparr>"
    by (simp_all add: lease_row_def j0)
  show "?P r" by (rule P)
  show "job_row_check (lease_row e r)" using r0(3) \<open>r0 = r\<close> by (simp add: lease_row_def)
  have id': "j_id (lease_row e r) = j_id r" by (simp add: lease_row_def set_leased_def clear_progress_def)
  have only: "x = lease_row e r" if "x \<in> set (jobs d1)" "j_id x = j_id r" for x
    using that unfolding d1 by (auto simp: set_sql_update)
  have "lease_attempt e r = \<lparr>a_job_id = j_id (lease_row e r), a_attempt_number = j_attempt_count (lease_row e r),
      a_context_snapshot = j_context_snapshot (lease_row e r), a_input_revision = j_input_revision (lease_row e r),
      a_lease_owner = transcriptionLeaseOwner e, a_lease_token = worker_token e, a_outcome = ORunning,
      a_safe_error_message = None, a_result_revision = None, a_started_at = now6 e, a_finished_at = None\<rparr>"
    by (simp add: lease_attempt_def lease_row_def set_leased_def clear_progress_def)
  note new = insert_attempt_effect [OF ins only this]
  show "attempt_row_check (lease_attempt e r)" "worker_token e \<notin> a_lease_token ` set (attempts d)"
    and d2: "d' = d\<lparr>jobs := sql_update (\<lambda>x. j_id x = j_id r) (\<lambda>_. lease_row e r) (jobs d0),
              attempts := attempts d @ [lease_attempt e r]\<rparr>"
    using new by (simp_all add: d1 res)
  have "jobs d' = sql_update (\<lambda>x. j_id x = j_id r) (\<lambda>_. lease_row e r) (jobs d0)" by (simp add: d2)
  with g res find_job_point_update [OF inv r id'] show "j = with_attempts (lease_row e r) d'" by simp
qed

lemma evolves_identity:
  assumes "list_all2 attempt_evolves as bs"
  shows "map a_attempt_number bs = map a_attempt_number as"
    and "list_all (\<lambda>a. a_input_revision a = v \<and> a_context_snapshot a = s) bs =
         list_all (\<lambda>a. a_input_revision a = v \<and> a_context_snapshot a = s) as"
  using assms by (induction rule: list_all2_induct) (auto simp: attempt_evolves_def)

text \<open>A lease on a job whose attempts so far are all closed.\<close>

lemma lease_good:
  assumes inv: "jobs_inv d0" and r: "r \<in> set (jobs d0)" and act: "active_status (j_status r)"
    and j0: "jobs d = jobs d0" "next_job_id d = next_job_id d0" "checkpoints d = checkpoints d0"
    and tok: "map a_lease_token (attempts d) = map a_lease_token (attempts d0)"
    and oth: "\<And>k. k \<noteq> j_id r \<Longrightarrow> attempts_of d k = attempts_of d0 k"
    and L: "list_all2 attempt_evolves (attempts_of d0 (j_id r)) (attempts_of d (j_id r))"
    and chk: "\<And>a. a \<in> set (attempts_of d (j_id r)) \<Longrightarrow> attempt_row_check a"
    and cl: "\<And>a. a \<in> set (attempts_of d (j_id r)) \<Longrightarrow> a_outcome a = ORetryableFailed \<or> a_outcome a = OLeaseExpired"
    and u: "uuid_text (uuid e)" and lease: "claim_lease e r d = Inr (j, d')"
  shows "good d0 d'"
proof -
  note eff = claim_lease_effect [OF inv r j0(1) u lease]
  let ?r = "lease_row e r" and ?L = "attempts_of d0 (j_id r)" and ?M = "attempts_of d (j_id r)"
  have same: "same_job r ?r" and cnt: "j_attempt_count ?r = j_attempt_count r + 1" and st: "j_status ?r = Running"
    and lock: "j_locked_by ?r = Some (worker_token e)"
    by (simp_all add: lease_row_def set_leased_def clear_progress_def same_job_def)
  have M: "attempts_of d' (j_id r) = ?M @ [lease_attempt e r]"
    and oth': "\<And>k. k \<noteq> j_id r \<Longrightarrow> attempts_of d' k = attempts_of d k"
    using eff(5) by (simp_all add: attempts_of_def lease_attempt_def)
  have upd: "point_update r ?r d0 d'"
    using eff(4,5) j0 oth oth' tok inv
    by (simp add: point_update_def jobs_inv_def checkpoints_of_def lease_attempt_def flip: set_map)
  have audit: "audit_ok r ?L" by (rule jobs_invD(5) [OF inv r])
  then have "0 \<le> j_attempt_count r" using jobs_invD(4) [OF inv r] by (simp add: job_row_check_def)
  have evo: "job_evolves r ?L ?r (attempts_of d' (j_id r))"
    using same cnt act L not_active_iff_terminal [of "j_status r"] list_all2_lengthD [OF L]
    by (simp add: job_evolves_def M)
  have num: "map a_attempt_number ?M = [1..j_attempt_count r]"
    and id: "\<And>a. a \<in> set ?M \<Longrightarrow> a_input_revision a = j_input_revision r \<and> a_context_snapshot a = j_context_snapshot r"
    using audit evolves_identity(1) [OF L] evolves_identity(2) [OF L, of "j_input_revision r" "j_context_snapshot r"]
    by (simp_all add: audit_ok_def list_all_iff)
  have "audit_ok ?r (attempts_of d' (j_id r))"
    using num id chk cl eff(3) cnt same lock st \<open>0 \<le> j_attempt_count r\<close>
    by (simp add: M audit_ok_def explains_snoc list_all_iff lease_attempt_def same_job_def upto_rec2)
  with eff(2) st have "job_ok ?r (attempts_of d' (j_id r)) (checkpoints_of d' (j_id r))"
    by (simp add: job_ok_def active_status_def)
  with point_update_inv [OF inv r upd evo] point_update_evolves [OF inv r upd evo] show ?thesis by (simp add: good_def)
qed

end
