(* ===== verification/Job_Lifecycle.thy ===== *)
theory Job_Lifecycle
  imports Job_Invariant
begin

section \<open>The life of a transcription job\<close>

text \<open>
  Every operation of the job store keeps the invariant of \<^verbatim>\<open>Job_Invariant\<close> and only moves jobs
  forward. The operations are then the steps of a transition system, and the theorems hold in
  every state that any interleaving of workers, users and other writers can reach.
\<close>

subsection \<open>Worker updates under a fence\<close>

lemma transcriptionAttemptNumberToDB_Inr:
  "transcriptionAttemptNumberToDB fence = Inr n \<longleftrightarrow>
     validateTranscriptionFence fence \<and> n = int (AttemptNumber fence)"
  by (auto simp: transcriptionAttemptNumberToDB_def int32FromUint32_def validateTranscriptionFence_def)

lemma attemptFenceFromRow_Inr:
  assumes "attemptFenceFromRow r = Inr fence"
  shows "JobID fence = j_id r" "validateTranscriptionFence fence"
  using assms by (auto simp: attemptFenceFromRow_def Let_def split: option.splits if_splits)

lemma lease_held_pins: "lease_held t i n v tok r \<Longrightarrow> j_id r = i"
  by (simp add: lease_held_def)

lemma fenced_touch_good:
  assumes inv: "jobs_inv d" and upd: "update_jobs (lease_held t i n v tok) f d = Inr (1, d')"
    and f: "\<And>r. same_job r (f r) \<and> j_attempt_count (f r) = j_attempt_count r \<and>
                 j_status (f r) = j_status r \<and> j_locked_by (f r) = j_locked_by r"
  shows "good d d'"
proof (rule update_jobs_one [OF upd jobs_inv_distinct [OF inv] lease_held_pins])
  fix r assume r: "r \<in> set (jobs d)" and held: "lease_held t i n v tok r" and chk: "job_row_check (f r)"
    and d': "d' = d\<lparr>jobs := sql_update (\<lambda>x. j_id x = j_id r) (\<lambda>_. f r) (jobs d)\<rparr>"
  from held have run: "j_status r = Running" by (simp add: lease_held_def)
  show ?thesis
    by (rule touch_good [OF inv r, where r' = "f r"])
       (use run f chk jobs_invD(5) [OF inv r] in
         \<open>auto simp: d' active_status_def checkpoint_effect_def audit_ok_def\<close>)
qed

lemma SetTotalSegments_good: "jobs_inv d \<Longrightarrow> SetTotalSegments e fence k d = Inr (x, d') \<Longrightarrow> good d d'"
  by (auto simp: SetTotalSegments_def setTranscriptionJobTotalSegmentsManual_def set_total_def same_job_def
                 tx_elims simp del: update_jobs_Inr elim!: fenced_touch_good)

lemma UpdateProgress_good:
  "jobs_inv d \<Longrightarrow> UpdateProgress e fence c f i1 i2 i3 d = Inr (x, d') \<Longrightarrow> good d d'"
  by (auto simp: UpdateProgress_def updateTranscriptionJobProgressManual_def set_progress_def same_job_def
                 tx_elims simp del: update_jobs_Inr elim!: fenced_touch_good)

lemma ExtendLease_good: "jobs_inv d \<Longrightarrow> ExtendLease e fence k d = Inr (x, d') \<Longrightarrow> good d d'"
  by (auto simp: ExtendLease_def extendTranscriptionJobLeaseManual_def set_lease_def same_job_def Let_def
                 tx_elims simp del: update_jobs_Inr elim!: fenced_touch_good)

subsection \<open>Stopping a job\<close>

lemma set_stopped_simps:
  "same_job r (set_stopped t st m r)" "j_attempt_count (set_stopped t st m r) = j_attempt_count r"
  "j_status (set_stopped t st m r) = st" "j_id (set_stopped t st m r) = j_id r"
  by (simp_all add: set_stopped_def clear_lease_def clear_progress_def same_job_def)

text \<open>
  The common end of cancelling and superseding an active job: its running attempt, if it has
  one, is closed with the matching outcome, the row is stopped and the checkpoints deleted.
\<close>

lemma stop_good:
  assumes inv: "jobs_inv d" and r: "r \<in> set (jobs d)" and act: "active_status (j_status r)"
    and fin: "if j_status r = Running then finishTranscriptionAttempt e fence oc m None d = Inr ((), d1) \<and> JobID fence = j_id r
              else d1 = d"
    and upd: "update_jobs (\<lambda>x. j_id x = j_id r \<and> active_status (j_status x)) (set_stopped t st msg) d1 = Inr (1, d2)"
    and del: "deleteTranscriptionCheckpoints (j_id r) d2 = Inr (n, d')"
    and oc: "closes oc st" and st: "st = Canceled \<or> st = Superseded"
  shows "good d d'"
proof -
  have d1: "jobs d1 = jobs d" "next_job_id d1 = next_job_id d" "checkpoints d1 = checkpoints d"
    using fin finishTranscriptionAttempt_jobs [of e fence oc m None d "()" d1] by (auto split: if_splits)
  let ?r = "set_stopped t st msg r"
  obtain r0 where "r0 \<in> set (jobs d)" "j_id r0 = j_id r" and chk: "job_row_check (set_stopped t st msg r0)"
    and d2: "d2 = d1\<lparr>jobs := sql_update (\<lambda>x. j_id x = j_id r0) (\<lambda>_. set_stopped t st msg r0) (jobs d)\<rparr>"
    using update_jobs_one [OF upd, of "j_id r"] jobs_inv_distinct [OF inv] d1(1) by auto
  moreover from this have "r0 = r" using jobs_inv_unique [OF inv _ r] by simp
  ultimately have d': "jobs d' = sql_update (\<lambda>x. j_id x = j_id r) (\<lambda>_. ?r) (jobs d)" "attempts d' = attempts d1"
      "next_job_id d' = next_job_id d" "checkpoint_effect ?r d d'" and chk: "job_row_check ?r"
    using del d1 by (auto simp: deleteTranscriptionCheckpoints_def tx_elims checkpoint_effect_def set_stopped_simps)
  show ?thesis
  proof (cases "j_status r = Running")
    case True
    then show ?thesis
      using close_good [OF inv r _ _ d'(1-4) _ _ chk, of fence e oc m None "()"] fin oc by (simp add: set_stopped_simps)
  next
    case False
    with act have pend: "j_status r = Pending" by (simp add: active_status_def)
    have "explains st (map a_outcome (attempts_of d (j_id r)))"
      using jobs_invD(5) [OF inv r] st pend
      by (auto simp: audit_ok_def explains_def split: if_splits outcome.splits)
    with False fin show ?thesis
      using touch_good [OF inv r act d'(1) _ d'(3,4) _ _ chk] d'(2) st by (auto simp: set_stopped_simps)
  qed
qed

lemma Cancel_good:
  assumes inv: "jobs_inv d" and "Cancel e i d = Inr (x, d')"
  shows "good d d'"
proof -
  obtain r where "find (\<lambda>r. j_id r = i) (jobs d) = Some r"
    using assms(2) by (auto simp: Cancel_def lockTranscriptionJobForUpdateManual_def tx_elims)
  then have r: "r \<in> set (jobs d)" and i: "j_id r = i" by (auto dest: find_Some_mem)
  show ?thesis
  proof (cases "j_status r = Canceled")
    case True
    with assms find_job_Some [OF inv r] i have "d' = d"
      by (auto simp: Cancel_def lockTranscriptionJobForUpdateManual_def tx_elims Let_def)
    with inv show ?thesis by (simp add: good_refl)
  next
    case False
    with assms(2) find_job_Some [OF inv r] i obtain fence d1 d2 n where act: "active_status (j_status r)"
      and fin: "if j_status r = Running
        then finishTranscriptionAttempt e fence OCanceled ''canceled by user'' None d = Inr ((), d1) \<and> JobID fence = j_id r
        else d1 = d"
      and upd: "cancelTranscriptionJobManual e (j_id r) d1 = Inr (1, d2)"
      and del: "deleteTranscriptionCheckpoints (j_id r) d2 = Inr (n, d')"
      by (cases "j_status r")
         (fastforce simp: Cancel_def lockTranscriptionJobForUpdateManual_def tx_elims Let_def active_status_def
                    dest: attemptFenceFromRow_Inr)+
    from stop_good [OF inv r act fin upd [unfolded cancelTranscriptionJobManual_def] del] show ?thesis
      by (simp add: closes_def)
  qed
qed

lemma supersede_good:
  assumes inv: "jobs_inv d" and r: "r \<in> set (jobs d)" and act: "active_status (j_status r)"
    and sup: "supersede_active e r d = Inr (x, d')"
  shows "good d d'"
proof -
  from sup obtain fence d1 d2 n where
    fin: "if j_status r = Running
        then finishTranscriptionAttempt e fence OSuperseded ''superseded by a newer transcription request'' None d = Inr ((), d1) \<and>
             JobID fence = j_id r
        else d1 = d"
    and upd: "supersedeTranscriptionJobByIDManual e (j_id r) d1 = Inr (1, d2)"
    and del: "deleteTranscriptionCheckpoints (j_id r) d2 = Inr (n, d')"
    by (fastforce simp: supersede_active_def tx_elims split: if_splits dest: attemptFenceFromRow_Inr)
  from stop_good [OF inv r act fin upd [unfolded supersedeTranscriptionJobByIDManual_def] del] show ?thesis
    by (simp add: closes_def)
qed

subsection \<open>Events leave the job tables alone\<close>

lemma insertEventOutboxManual_frame:
  "insertEventOutboxManual e i ty w s b d = Inr (x, d') \<Longrightarrow> job_frame d d'"
  by (auto simp: insertEventOutboxManual_def job_frame_def split: if_splits)

lemma insert_delivery_frame: "job_frame d (insert_delivery e i s d)"
  by (simp add: insert_delivery_def job_frame_def)

lemma foldl_insert_delivery_frame:
  "job_frame d (foldl (\<lambda>d (eid, sid). insert_delivery e eid sid d) d ps)"
proof (induction ps arbitrary: d)
  case (Cons p ps)
  show ?case
    using job_frame_trans [OF insert_delivery_frame Cons.IH, of d e "fst p" "snd p"]
    by (simp add: case_prod_beta)
qed simp

lemma InsertWorkspaceWebhookDeliveries_frame:
  "InsertWorkspaceWebhookDeliveries e i d = Inr (x, d') \<Longrightarrow> job_frame d d'"
  by (auto simp: InsertWorkspaceWebhookDeliveries_def lockWebhookDeliveryExpansionWorkspaceManual_def
        insertWorkspaceWebhookDeliveriesManual_def tx_elims foldl_insert_delivery_frame)

lemma eventWorkspaceID_state: "eventWorkspaceID s d = Inr (w, d') \<Longrightarrow> d' = d"
  by (auto simp: eventWorkspaceID_def getWorkspaceIDForItemImageManual_def tx_elims split: option.splits)

subsection \<open>Failing, deferring and completing\<close>

text \<open>
  A fenced transition: the running attempt is closed, then the row is rewritten under the same
  fence, then checkpoints go or stay.
\<close>

lemma fenced_close_good:
  assumes inv: "jobs_inv d" and val: "validateTranscriptionFence fence"
    and fin: "finishTranscriptionAttempt e fence oc m res d = Inr (x, d1)"
    and upd: "update_jobs (lease_held t (JobID fence) (int (AttemptNumber fence)) (InputRevision fence) tok) f d1 = Inr (1, d2)"
    and f: "\<And>r. same_job r (f r) \<and> j_attempt_count (f r) = j_attempt_count r"
    and c: "\<And>r. r \<in> set (jobs d) \<Longrightarrow> j_id r = JobID fence \<Longrightarrow> closes oc (j_status (f r))"
    and del: "if active then active_status (j_status (f r')) \<and> d' = d2 else deleteTranscriptionCheckpoints (JobID fence) d2 = Inr (n, d')"
    and r': "r' \<in> set (jobs d)" "j_id r' = JobID fence"
  shows "good d d'"
proof -
  have d1: "jobs d1 = jobs d" "next_job_id d1 = next_job_id d" "checkpoints d1 = checkpoints d"
    using finishTranscriptionAttempt_jobs [OF fin] by auto
  obtain r where "r \<in> set (jobs d)" "j_id r = JobID fence" and chk: "job_row_check (f r)"
    and d2: "d2 = d1\<lparr>jobs := sql_update (\<lambda>x. j_id x = j_id r) (\<lambda>_. f r) (jobs d)\<rparr>"
    using update_jobs_one [OF upd, of "JobID fence"] jobs_inv_distinct [OF inv] d1(1) by (auto simp: lease_held_def)
  moreover from this have "r = r'" using jobs_inv_unique [OF inv _ r'(1)] r'(2) by simp
  moreover have "j_id (f r') = j_id r'" using f by (simp add: same_job_def)
  ultimately have d': "jobs d' = sql_update (\<lambda>x. j_id x = j_id r') (\<lambda>_. f r') (jobs d)" "attempts d' = attempts d1"
      "next_job_id d' = next_job_id d" "checkpoint_effect (f r') d d'" and chk: "job_row_check (f r')"
    using del d1 r'(2)
    by (auto simp: deleteTranscriptionCheckpoints_def tx_elims checkpoint_effect_def split: if_splits)
  show ?thesis
    by (rule close_good [OF inv r'(1) r'(2) [symmetric] fin d'(1-4)]) (use f c r' chk in auto)
qed

lemma fail_set_simps:
  "same_job r (set_deferred t u m r)" "j_attempt_count (set_deferred t u m r) = j_attempt_count r"
  "j_status (set_deferred t u m r) = Pending"
  "same_job r (set_retry_or_failed t m r)" "j_attempt_count (set_retry_or_failed t m r) = j_attempt_count r"
  "j_status (set_retry_or_failed t m r) = (if j_attempt_count r < j_max_attempts r then Pending else Failed)"
  "same_job r (set_completed t r)" "j_attempt_count (set_completed t r) = j_attempt_count r"
  "j_status (set_completed t r) = Completed"
  by (simp_all add: set_deferred_def set_retry_or_failed_def set_completed_def clear_lease_def clear_progress_def same_job_def)

text \<open>The row update that \<^verbatim>\<open>failWithWebhookEvent\<close> selects.\<close>

definition fail_set :: "nat \<Rightarrow> string option \<Rightarrow> bool \<Rightarrow> bool \<Rightarrow> nat option \<Rightarrow> job_row \<Rightarrow> job_row" where
  "fail_set t m permanent terminal retryAfter6 =
     (if permanent \<or> (terminal \<and> retryAfter6 \<noteq> None) then set_stopped t Failed m
      else case retryAfter6 of Some t6 \<Rightarrow> set_deferred t (datetime_of t6) m
           | None \<Rightarrow> set_retry_or_failed t m)"

lemma fail_set_simps':
  "same_job r (fail_set t m p term6 ra r) \<and> j_attempt_count (fail_set t m p term6 ra r) = j_attempt_count r"
  "j_status (fail_set t m p (p \<or> j_attempt_count r \<ge> j_max_attempts r) ra r) =
     (if p \<or> j_attempt_count r \<ge> j_max_attempts r then Failed else Pending)"
  by (auto simp: fail_set_def set_stopped_simps fail_set_simps split: option.splits)

lemma fail_transition_eq:
  "fail_transition e fence n m p term6 ra =
     update_jobs (lease_held (now e) (JobID fence) n (InputRevision fence) (nullableString (LeaseToken fence)))
       (fail_set (now e) (nullableString m) p term6 ra)"
  by (simp add: fail_transition_def fail_set_def permanentlyFailTranscriptionJobManual_def
      deferTranscriptionJobLeaseManual_def retryOrFailTranscriptionJobManual_def Let_def split: option.split)

lemma write_event_frame: "write_event e i ty w s b d = Inr (x, d') \<Longrightarrow> job_frame d d'"
  by (auto simp: write_event_def tx_elims
      intro: job_frame_trans [OF insertEventOutboxManual_frame InsertWorkspaceWebhookDeliveries_frame])

lemma event_when_frame:
  "tx_when b (tx_bind (eventWorkspaceID s) (\<lambda>w. write_event e i ty w s body)) d = Inr (x, d') \<Longrightarrow> job_frame d d'"
  by (auto simp: tx_elims dest!: eventWorkspaceID_state intro: write_event_frame split: if_splits)

text \<open>The stages of a failure that commits: the locked row, the closed attempt, the row update, the event.\<close>

lemma failWithWebhookEvent_stages:
  assumes fw: "failWithWebhookEvent e fence errMsg eid ety subj body permanent ra d = Inr (term6, d')"
  obtains held job x d1 d2 y d3 where "validateTranscriptionFence fence"
    and "find (lease_held (now e) (JobID fence) (int (AttemptNumber fence)) (InputRevision fence)
           (nullableString (LeaseToken fence))) (jobs d) = Some held"
    and "find (\<lambda>r. j_id r = JobID fence) (jobs d) = Some job"
    and "term6 \<longleftrightarrow> permanent \<or> j_attempt_count job \<ge> j_max_attempts job"
    and "finishTranscriptionAttempt e fence (if term6 then OFailed else ORetryableFailed)
           (safeTranscriptionErrorMessage errMsg) None d = Inr (x, d1)"
    and "update_jobs (lease_held (now e) (JobID fence) (int (AttemptNumber fence)) (InputRevision fence)
           (nullableString (LeaseToken fence)))
           (fail_set (now e) (nullableString (safeTranscriptionErrorMessage errMsg)) permanent term6 ra) d1 = Inr (1, d2)"
    and "tx_when term6 (tx_bind (deleteTranscriptionCheckpoints (JobID fence)) (\<lambda>_. tx_return ())) d2 = Inr (y, d3)"
    and "tx_when (term6 \<and> trim_space eid \<noteq> [] \<and> trim_space body \<noteq> [])
           (tx_bind (eventWorkspaceID subj) (\<lambda>w. write_event e eid ety w subj body)) d3 = Inr ((), d')"
  using fw
  unfolding failWithWebhookEvent_def Let_def lockActiveTranscriptionJobLeaseManual_def getTranscriptionJobManual_def
    fail_transition_eq tx_bind_Inr tx_lift_Inr tx_row_Inr tx_no_rows_as_Inr tx_return_Inr requireFenceAffected_Inr
    transcriptionAttemptNumberToDB_Inr option.map_sel
  by clarify (rule that, (assumption | rule refl | simp)+)

lemma failWithWebhookEvent_good:
  assumes inv: "jobs_inv d"
    and fw: "failWithWebhookEvent e fence errMsg eid ety subj body permanent ra d = Inr (term6, d')"
  shows "good d d'"
proof (rule failWithWebhookEvent_stages [OF fw])
  let ?held = "lease_held (now e) (JobID fence) (int (AttemptNumber fence)) (InputRevision fence) (nullableString (LeaseToken fence))"
  let ?f = "fail_set (now e) (nullableString (safeTranscriptionErrorMessage errMsg)) permanent term6 ra"
  fix job x d1 d2 y d3
  assume val: "validateTranscriptionFence fence"
    and fj: "find (\<lambda>r. j_id r = JobID fence) (jobs d) = Some job"
    and T: "term6 \<longleftrightarrow> permanent \<or> j_attempt_count job \<ge> j_max_attempts job"
    and fin: "finishTranscriptionAttempt e fence (if term6 then OFailed else ORetryableFailed)
           (safeTranscriptionErrorMessage errMsg) None d = Inr (x, d1)"
    and upd: "update_jobs ?held ?f d1 = Inr (1, d2)"
    and del: "tx_when term6 (tx_bind (deleteTranscriptionCheckpoints (JobID fence)) (\<lambda>_. tx_return ())) d2 = Inr (y, d3)"
    and ev: "tx_when (term6 \<and> trim_space eid \<noteq> [] \<and> trim_space body \<noteq> [])
           (tx_bind (eventWorkspaceID subj) (\<lambda>w. write_event e eid ety w subj body)) d3 = Inr ((), d')"
  from fj have job: "job \<in> set (jobs d)" "j_id job = JobID fence" by (auto dest: find_Some_mem)
  have st: "j_status (?f job) = (if term6 then Failed else Pending)"
    using fail_set_simps'(2) [of _ _ permanent job ra] by (simp add: T)
  then have act: "\<not> term6 \<Longrightarrow> active_status (j_status (?f job))" by (simp add: active_status_def)
  from del act obtain n where del': "if \<not> term6 then active_status (j_status (?f job)) \<and> d3 = d2
      else deleteTranscriptionCheckpoints (JobID fence) d2 = Inr (n, d3)"
    by (cases term6) (auto simp: tx_elims)
  have "good d d3"
  proof (rule fenced_close_good [OF inv val fin upd _ _ del' job])
    show "same_job r (?f r) \<and> j_attempt_count (?f r) = j_attempt_count r" for r by (rule fail_set_simps'(1))
    show "closes (if term6 then OFailed else ORetryableFailed) (j_status (?f r))"
      if "r \<in> set (jobs d)" "j_id r = JobID fence" for r
      using st jobs_inv_unique [OF inv that(1) job(1)] that(2) job(2) by (simp add: closes_def)
  qed
  from this event_when_frame [OF ev] show ?thesis by (rule good_frame)
qed

lemma commitTranscriptionCompletion_good:
  assumes inv: "jobs_inv d" and cc: "commitTranscriptionCompletion e cp w v d = Inr (x, d')"
  shows "good d d'"
proof -
  let ?fence = "cp_fence cp"
  from cc obtain d1 d2 d3 n where val: "validateTranscriptionFence ?fence"
    and fin: "finishTranscriptionAttempt e ?fence OCompleted [] (Some v) d = Inr ((), d1)"
    and upd: "update_jobs (lease_held (now e) (JobID ?fence) (int (AttemptNumber ?fence)) (InputRevision ?fence)
        (nullableString (LeaseToken ?fence))) (set_completed (now e)) d1 = Inr (1, d2)"
    and del: "deleteTranscriptionCheckpoints (JobID ?fence) d2 = Inr (n, d3)" and fr: "job_frame d3 d'"
    unfolding commitTranscriptionCompletion_def Let_def completeTranscriptionJobLeasedManual_def
    by (auto simp: tx_bind_Inr tx_lift_Inr tx_fence_as_Inr requireFenceAffected_Inr tx_when_Inr
        transcriptionAttemptNumberToDB_Inr dest!: write_event_frame split: if_splits)
  obtain r where r: "r \<in> set (jobs d)" "j_id r = JobID ?fence"
    using update_jobs_one [OF upd, of "JobID ?fence"] finishTranscriptionAttempt_jobs(1) [OF fin] jobs_inv_distinct [OF inv]
    by (metis lease_held_pins)
  have "good d d3"
    by (rule fenced_close_good [OF inv val fin upd _ _ _ r, where active = False])
       (use del in \<open>auto simp: fail_set_simps closes_def\<close>)
  from this fr show ?thesis by (rule good_frame)
qed

subsection \<open>Claiming\<close>

lemma claim_select_row:
  assumes "claim_select e i c d = Inr (row, d1)"
  shows "row \<in> set (jobs d)" "claimable (now e) row" "\<not> row_locked e (j_id row)"
proof -
  from assms have "row \<in> set (jobs d) \<and> claimable (now e) row \<and> \<not> row_locked e (j_id row)"
    by (auto simp: claim_select_def claimLeasedTranscriptionJobByIDManual_def claimNextLeasedTranscriptionJobManual_def
        claimNextLeasedTranscriptionJobOlderThanManual_def tx_elims split: if_splits option.splits
        dest!: find_Some_mem first_by_mem)
  then show "row \<in> set (jobs d)" "claimable (now e) row" "\<not> row_locked e (j_id row)" by auto
qed

lemma claimable_active: "claimable t r \<Longrightarrow> active_status (j_status r)"
  by (auto simp: claimable_def pending_due_def lease_expired_def active_status_def)

lemma map_ids_point_update:
  "j_id r' = i \<Longrightarrow> map j_id (sql_update (\<lambda>x. j_id x = i) (\<lambda>_. r') rows) = map j_id rows"
  by (rule map_key_sql_update) simp

lemma claim_exhausted_good:
  assumes inv: "jobs_inv d" and r: "r \<in> set (jobs d)" and id: "JobID fence = j_id r"
    and fin: "finishTranscriptionAttempt e fence OLeaseExpired m None d = Inr (x, d1)"
    and ex: "claim_fail_exhausted e r d1 = Inr (n, d')"
  shows "good d d'" "map j_id (jobs d') = map j_id (jobs d)"
proof -
  let ?f = "set_stopped (now e) Failed (Some ''worker lease expired after maximum attempts'')"
  have d1: "jobs d1 = jobs d" "next_job_id d1 = next_job_id d" "checkpoints d1 = checkpoints d"
    using finishTranscriptionAttempt_jobs [OF fin] by auto
  from ex obtain d2 where
    upd: "update_jobs (exhausted (now e) (j_id r) (j_attempt_count r) (j_input_revision r) (j_locked_by r)) ?f d1 = Inr (1, d2)"
    and del: "deleteTranscriptionCheckpoints (j_id r) d2 = Inr (n, d')"
    by (auto simp: claim_fail_exhausted_def failExpiredTranscriptionJobManual_def tx_elims simp del: update_jobs_Inr)
  obtain r0 where "r0 \<in> set (jobs d)" "j_id r0 = j_id r" and chk: "job_row_check (?f r0)"
    and d2: "d2 = d1\<lparr>jobs := sql_update (\<lambda>x. j_id x = j_id r0) (\<lambda>_. ?f r0) (jobs d)\<rparr>"
    using update_jobs_one [OF upd, of "j_id r"] jobs_inv_distinct [OF inv] d1(1) by (auto simp: exhausted_def)
  moreover from this have "r0 = r" using jobs_inv_unique [OF inv _ r] by simp
  ultimately have d': "jobs d' = sql_update (\<lambda>x. j_id x = j_id r) (\<lambda>_. ?f r) (jobs d)" "attempts d' = attempts d1"
      "next_job_id d' = next_job_id d" "checkpoint_effect (?f r) d d'" and chk: "job_row_check (?f r)"
    using del d1 by (auto simp: deleteTranscriptionCheckpoints_def tx_elims checkpoint_effect_def set_stopped_simps)
  show "good d d'"
    by (rule close_good [OF inv r id fin d'(1-4) _ _ chk]) (simp_all add: set_stopped_simps closes_def)
  show "map j_id (jobs d') = map j_id (jobs d)"
    unfolding d'(1) by (rule map_ids_point_update) (simp add: set_stopped_simps)
qed

lemma claim_renew_good:
  assumes inv: "jobs_inv d" and r: "r \<in> set (jobs d)" and id: "JobID fence = j_id r"
    and fin: "finishTranscriptionAttempt e fence OLeaseExpired m None d = Inr (x, d1)"
    and u: "uuid_text (uuid e)" and lease: "claim_lease e r d1 = Inr (j, d')"
  shows "good d d'" "jobs d' = sql_update (\<lambda>x. j_id x = j_id r) (\<lambda>_. lease_row e r) (jobs d)"
proof -
  note j1 = finishTranscriptionAttempt_jobs(1) [OF fin] and f = finishTranscriptionAttempt_jobs(2,3) [OF fin]
  show "jobs d' = sql_update (\<lambda>x. j_id x = j_id r) (\<lambda>_. lease_row e r) (jobs d)"
    using claim_lease_effect(5) [OF inv r j1 u lease] by simp
  show "good d d'"
  proof (rule finish_effect [OF inv r id fin])
    fix as a
    let ?a = "close_attempt OLeaseExpired (nullableString (trim_space m)) None (now6 e) a"
    assume L: "attempts_of d (j_id r) = as @ [a]" and run: "j_status r = Running"
      and L1: "attempts_of d1 (j_id r) = as @ [?a]"
      and chk: "attempt_row_check ?a" and oth: "\<And>k. k \<noteq> j_id r \<Longrightarrow> attempts_of d1 k = attempts_of d k"
      and tok: "map a_lease_token (attempts d1) = map a_lease_token (attempts d)"
    have audit: "audit_ok r (as @ [a])" using jobs_invD(5) [OF inv r] L by simp
    have "list_all2 attempt_evolves (as @ [a]) (as @ [?a])"
      by (rule list_all2_evolves_snoc [OF attempt_evolves_close [OF audit_last_running [OF audit run]]])
    moreover have "attempt_row_check b \<and> (a_outcome b = ORetryableFailed \<or> a_outcome b = OLeaseExpired)"
      if "b \<in> set (as @ [?a])" for b
      using that audit chk by (auto simp: audit_ok_def explains_snoc list_all_iff close_attempt_def)
    ultimately show ?thesis
      using lease_good [OF inv r _ j1 f tok oth _ _ _ u lease] run by (auto simp: L L1 active_status_def)
  qed
qed

lemma claim_pending_good:
  assumes inv: "jobs_inv d" and r: "r \<in> set (jobs d)" and st: "j_status r = Pending"
    and u: "uuid_text (uuid e)" and lease: "claim_lease e r d = Inr (j, d')"
  shows "good d d'" "jobs d' = sql_update (\<lambda>x. j_id x = j_id r) (\<lambda>_. lease_row e r) (jobs d)"
proof -
  show "jobs d' = sql_update (\<lambda>x. j_id x = j_id r) (\<lambda>_. lease_row e r) (jobs d)"
    using claim_lease_effect(5) [OF inv r refl u lease] by simp
  let ?L = "attempts_of d (j_id r)"
  have audit: "audit_ok r ?L" by (rule jobs_invD(5) [OF inv r])
  have "a_outcome a = ORetryableFailed \<or> a_outcome a = OLeaseExpired" if "a \<in> set ?L" for a
  proof (cases ?L rule: rev_cases)
    case (snoc as b)
    with audit st that show ?thesis
      by (auto simp: audit_ok_def explains_snoc list_all_iff split: outcome.splits)
  qed (use that in simp)
  moreover have "attempt_row_check a" if "a \<in> set ?L" for a
    using audit that by (simp add: audit_ok_def list_all_iff)
  ultimately show "good d d'"
    using lease_good [OF inv r _ refl refl refl refl refl _ _ _ u lease] st
    by (simp add: active_status_def list_all2_refl)
qed

text \<open>The three ways a round of the claim loop commits.\<close>

lemma claim_round_cases:
  assumes "claim_round e i c d = Inr (res, d')"
  obtains (none) "claim_select e i c d = Inl ErrNoRows" and "res = Claimed None" and "d' = d"
  | (pending) row x j where "claim_select e i c d = Inr (row, x)" and "j_status row = Pending"
      and "claim_lease e row d = Inr (j, d')" and "res = Claimed (Some j)"
  | (renewed) row x fence d1 j where "claim_select e i c d = Inr (row, x)" and "j_status row = Running"
      and "JobID fence = j_id row" and "j_attempt_count row < j_max_attempts row"
      and "finishTranscriptionAttempt e fence OLeaseExpired ''worker lease expired'' None d = Inr ((), d1)"
      and "claim_lease e row d1 = Inr (j, d')" and "res = Claimed (Some j)"
  | (spent) row x fence d1 n where "claim_select e i c d = Inr (row, x)" and "j_status row = Running"
      and "JobID fence = j_id row" and "j_attempt_count row \<ge> j_max_attempts row"
      and "finishTranscriptionAttempt e fence OLeaseExpired ''worker lease expired'' None d = Inr ((), d1)"
      and "claim_fail_exhausted e row d1 = Inr (n, d')" and "res = (if i > 0 then Claimed None else Continue)"
proof (cases "claim_select e i c d")
  case (Inl err)
  with assms none show thesis by (auto simp: claim_round_def split: if_splits)
next
  case (Inr p)
  obtain row x where p: "p = (row, x)" by (cases p)
  note sel = Inr [unfolded p]
  show thesis
  proof (cases "j_status row = Running")
    case True
    with assms sel obtain fence d1 where fence: "attemptFenceFromRow row = Inr fence"
      and fin: "finishTranscriptionAttempt e fence OLeaseExpired ''worker lease expired'' None d = Inr ((), d1)"
      and rest: "(if j_attempt_count row \<ge> j_max_attempts row then
               tx_bind (claim_fail_exhausted e row) (\<lambda>_. tx_return (if i > 0 then Claimed None else Continue))
             else tx_bind (claim_lease e row) (\<lambda>j. tx_return (Claimed (Some j)))) d1 = Inr (res, d')"
      by (auto simp: claim_round_def tx_bind_Inr tx_lift_Inr)
    note id = attemptFenceFromRow_Inr(1) [OF fence]
    show thesis
    proof (cases "j_attempt_count row \<ge> j_max_attempts row")
      case le: True
      with rest obtain n where "claim_fail_exhausted e row d1 = Inr (n, d')" "res = (if i > 0 then Claimed None else Continue)"
        by (auto simp: tx_elims)
      then show thesis by (rule spent [OF sel True id le fin])
    next
      case False
      with rest obtain j where "claim_lease e row d1 = Inr (j, d')" "res = Claimed (Some j)" by (auto simp: tx_elims)
      with False renewed [OF sel True id _ fin] show thesis by simp
    qed
  next
    case False
    with claim_select_row(2) [OF sel] have "j_status row = Pending" by (auto dest: claimable_active simp: active_status_def)
    moreover from assms sel False obtain j where "claim_lease e row d = Inr (j, d')" "res = Claimed (Some j)"
      by (auto simp: claim_round_def tx_elims)
    ultimately show thesis by (rule pending [OF sel])
  qed
qed

lemma lease_row_id [simp]: "j_id (lease_row e r) = j_id r"
  by (simp add: lease_row_def set_leased_def clear_progress_def)

lemma claim_round_good:
  assumes inv: "jobs_inv d" and u: "uuid_text (uuid e)" and cr: "claim_round e i c d = Inr (res, d')"
  shows "good d d' \<and> map j_id (jobs d') = map j_id (jobs d)"
  using cr
proof (cases rule: claim_round_cases)
  case none
  with inv show ?thesis by (simp add: good_refl)
next
  case (pending row x j)
  note r = claim_select_row(1) [OF pending(1)]
  from claim_pending_good [OF inv r pending(2) u pending(3)] show ?thesis by (simp add: map_ids_point_update)
next
  case (renewed row x fence d1 j)
  note r = claim_select_row(1) [OF renewed(1)]
  from claim_renew_good [OF inv r renewed(3,5) u renewed(6)] show ?thesis by (simp add: map_ids_point_update)
next
  case (spent row x fence d1 n)
  note r = claim_select_row(1) [OF spent(1)]
  from claim_exhausted_good [OF inv r spent(3,5,6)] show ?thesis by simp
qed

lemma claim_good:
  assumes "jobs_inv d" and "uuid_text (uuid e)" and "claim e i c d = Inr (j, d')"
  shows "good d d'" "map j_id (jobs d') = map j_id (jobs d)"
proof -
  have "good d d' \<and> map j_id (jobs d') = map j_id (jobs d)"
    using assms
  proof (induction e i c d rule: claim.induct)
    case (1 e i c d)
    from "1.prems"(3) obtain res d1 where rd: "claim_round e i c d = Inr (res, d1)"
      by (subst (asm) claim.simps) (auto split: sum.splits)
    note g = claim_round_good [OF "1.prems"(1,2) rd]
    show ?case
    proof (cases res)
      case (Claimed k)
      with rd "1.prems"(3) have "d' = d1" by (subst (asm) claim.simps) simp
      with g show ?thesis by simp
    next
      case Continue
      with rd "1.prems"(3) have rest: "claim e i c d1 = Inr (j, d')" by (subst (asm) claim.simps) simp
      from g have inv1: "jobs_inv d1" by (simp add: good_def)
      from "1.IH" [OF rd refl Continue inv1 "1.prems"(2) rest]
      have g': "good d1 d'" and ids: "map j_id (jobs d') = map j_id (jobs d1)" by auto
      have "good d d'"
      proof (rule good_trans [OF "1.prems"(1) conjunct1 [OF g] g'])
        fix r assume "r \<in> set (jobs d1)"
        then have "j_id r \<in> set (map j_id (jobs d'))" by (simp add: ids)
        then show "\<exists>r'' \<in> set (jobs d'). j_id r'' = j_id r" by auto
      qed
      with g ids show ?thesis by simp
    qed
  qed
  then show "good d d'" "map j_id (jobs d') = map j_id (jobs d)" by auto
qed

subsection \<open>Checkpoints\<close>

lemma sql_update_self:
  assumes "jobs_inv d" and "r \<in> set (jobs d)"
  shows "sql_update (\<lambda>x. j_id x = j_id r) (\<lambda>_. r) (jobs d) = jobs d"
  unfolding sql_update_def by (rule map_idI) (use jobs_inv_unique [OF assms(1) _ assms(2)] in auto)

lemma withCheckpointLease_row:
  assumes "withCheckpointLease e fence op d = Inr (x, d')"
  obtains r where "validateTranscriptionFence fence" and "r \<in> set (jobs d)" and "j_id r = JobID fence"
    and "lease_held (now e) (JobID fence) (int (AttemptNumber fence)) (InputRevision fence) (nullableString (LeaseToken fence)) r"
    and "op d = Inr (x, d')"
  using assms
  by (auto simp: withCheckpointLease_def lockActiveTranscriptionJobLeaseManual_def tx_elims
      transcriptionAttemptNumberToDB_Inr lease_held_def dest!: find_Some_mem)

text \<open>A change of the checkpoints of one running job.\<close>

lemma checkpoints_good:
  assumes inv: "jobs_inv d" and r: "r \<in> set (jobs d)" and act: "active_status (j_status r)"
    and d': "jobs d' = jobs d" "attempts d' = attempts d" "next_job_id d' = next_job_id d"
    and oth: "\<And>k. k \<noteq> j_id r \<Longrightarrow> checkpoints_of d' k = checkpoints_of d k"
  shows "good d d'"
proof -
  have att: "attempts_of d' = attempts_of d" using d' by (simp add: attempts_of_def fun_eq_iff)
  have upd: "point_update r r d d'"
    using sql_update_self [OF inv r] d' oth att inv by (simp add: point_update_def jobs_inv_def)
  have evo: "job_evolves r (attempts_of d (j_id r)) r (attempts_of d' (j_id r))" by (simp add: att)
  have "job_ok r (attempts_of d' (j_id r)) (checkpoints_of d' (j_id r))"
    using jobs_invD(3) [OF inv r] act by (simp add: job_ok_def att)
  with point_update_inv [OF inv r upd evo] point_update_evolves [OF inv r upd evo] show ?thesis by (simp add: good_def)
qed

lemma SaveCheckpoint_good: "jobs_inv d \<Longrightarrow> SaveCheckpoint e fence l p d = Inr (x, d') \<Longrightarrow> good d d'"
  unfolding SaveCheckpoint_def
  by (erule withCheckpointLease_row, rule checkpoints_good)
     (auto simp: lease_held_def active_status_def saveTranscriptionCheckpoint_def checkpoints_of_def
        split: if_splits intro!: filter_sql_update_other)

lemma ClearCheckpoints_good: "jobs_inv d \<Longrightarrow> ClearCheckpoints e fence d = Inr (x, d') \<Longrightarrow> good d d'"
  unfolding ClearCheckpoints_def
  by (erule withCheckpointLease_row, rule checkpoints_good)
     (auto simp: lease_held_def active_status_def deleteTranscriptionCheckpoints_def checkpoints_of_def tx_elims sql_delete_def
        intro: filter_cong)

end
