(* ===== verification/Job_Retention.thy ===== *)
theory Job_Retention
  imports Job_Invariant
begin

section \<open>Retention of terminal jobs\<close>

text \<open>
  Retention removes whole jobs. The theorems show that it always succeeds, that it removes
  exactly the excess over its target, oldest first, from one workspace, and nothing else.
\<close>

subsection \<open>Removing a set of jobs\<close>

text \<open>The tables retention never touches.\<close>

definition base_frame :: "db \<Rightarrow> db \<Rightarrow> bool" where
  "base_frame d d' \<longleftrightarrow>
     workspaces d' = workspaces d \<and> items d' = items d \<and> images d' = images d \<and> pages d' = pages d \<and>
     contexts d' = contexts d \<and> events d' = events d \<and> deliveries d' = deliveries d \<and>
     subscriptions d' = subscriptions d \<and> ocr_runs d' = ocr_runs d"

lemma base_frame_refl [simp]: "base_frame d d"
  by (simp add: base_frame_def)

lemma base_frame_trans: "base_frame d d' \<Longrightarrow> base_frame d' d'' \<Longrightarrow> base_frame d d''"
  by (simp add: base_frame_def)

definition prunes :: "nat \<Rightarrow> nat set \<Rightarrow> db \<Rightarrow> db \<Rightarrow> bool" where
  "prunes w S d d' \<longleftrightarrow>
     jobs d' = filter (\<lambda>r. j_id r \<notin> S) (jobs d) \<and>
     attempts d' = filter (\<lambda>a. a_job_id a \<notin> S) (attempts d) \<and>
     checkpoints d' = filter (\<lambda>c. c_job_id c \<notin> S) (checkpoints d) \<and>
     next_job_id d' = next_job_id d \<and> base_frame d d' \<and>
     (\<forall>r \<in> set (jobs d). j_id r \<in> S \<longrightarrow> terminal_status (j_status r) \<and> j_workspace_id r = w)"

lemma prunes_empty: "prunes w {} d d"
  by (simp add: prunes_def)

lemma prunes_trans: "prunes w S d d' \<Longrightarrow> prunes w T d' d'' \<Longrightarrow> prunes w (S \<union> T) d d''"
  by (auto simp: prunes_def base_frame_def intro!: filter_cong)

lemma prunes_of:
  assumes "prunes w S d d'" and "i \<notin> S"
  shows "attempts_of d' i = attempts_of d i" "checkpoints_of d' i = checkpoints_of d i"
  using assms by (auto simp: prunes_def attempts_of_def checkpoints_of_def intro!: filter_cong)

lemma prunes_good:
  assumes inv: "jobs_inv d" and p: "prunes w S d d'"
  shows "good d d'"
proof -
  have sub: "set (jobs d') \<subseteq> set (jobs d)" and next': "next_job_id d' = next_job_id d" using p by (auto simp: prunes_def)
  have out: "j_id r \<notin> S" if "r \<in> set (jobs d')" for r using p that by (simp add: prunes_def)
  have kept: "r \<in> set (jobs d')" if "r \<in> set (jobs d)" "j_id r \<notin> S" for r using p that by (simp add: prunes_def)
  have "distinct (map j_id (jobs d'))" using inv p by (simp add: prunes_def jobs_inv_def distinct_map_filter)
  moreover have "distinct (map a_lease_token (attempts d'))"
    using inv p by (simp add: prunes_def jobs_inv_def distinct_map_filter)
  moreover have "\<exists>r \<in> set (jobs d'). j_id r = a_job_id a" if "a \<in> set (attempts d')" for a
  proof -
    from that p have "a \<in> set (attempts d)" "a_job_id a \<notin> S" by (auto simp: prunes_def)
    with inv kept show ?thesis unfolding jobs_inv_def by metis
  qed
  moreover have "\<exists>r \<in> set (jobs d'). j_id r = c_job_id c" if "c \<in> set (checkpoints d')" for c
  proof -
    from that p have "c \<in> set (checkpoints d)" "c_job_id c \<notin> S" by (auto simp: prunes_def)
    with inv kept show ?thesis unfolding jobs_inv_def by metis
  qed
  moreover have "job_ok r (attempts_of d' (j_id r)) (checkpoints_of d' (j_id r))" if "r \<in> set (jobs d')" for r
    using that sub out [OF that] prunes_of [OF p] jobs_invD(3) [OF inv] by auto
  ultimately have inv': "jobs_inv d'"
    using inv sub next' unfolding jobs_inv_def by (simp add: subset_iff)
  moreover have "db_evolves d d'"
    unfolding db_evolves_def
  proof (intro conjI ballI impI)
    fix r assume r: "r \<in> set (jobs d)"
    show "(\<exists>r' \<in> set (jobs d'). j_id r' = j_id r \<and> job_evolves r (attempts_of d (j_id r)) r' (attempts_of d' (j_id r))) \<or>
        (\<forall>r' \<in> set (jobs d'). j_id r' \<noteq> j_id r)"
      using out kept [OF r] prunes_of(1) [OF p, of "j_id r"] job_evolves_refl by (cases "j_id r \<in> S") metis+
  qed (use sub next' in auto)
  moreover have "removes_terminal d d'"
    using p kept unfolding removes_terminal_def prunes_def by blast
  ultimately show ?thesis by (simp add: good_def)
qed

subsection \<open>One job\<close>

lemma nullableUint64_detach:
  "\<exists>n d'. detachExternalRequestsFromRetainedJobManual e w i d = Inr (n, d') \<and> job_frame d d' \<and> base_frame d d'"
  "\<exists>n d'. detachUploadBatchFilesFromRetainedJobManual e w i d = Inr (n, d') \<and> job_frame d d' \<and> base_frame d d'"
  by (simp_all add: detachExternalRequestsFromRetainedJobManual_def detachUploadBatchFilesFromRetainedJobManual_def
      exec_update_def job_frame_def base_frame_def list_ex_iff)

lemma retain_job_runs:
  assumes inv: "jobs_inv d" and r: "r \<in> set (jobs d)" "terminal_status (j_status r)" "j_workspace_id r = w"
  shows "\<exists>d'. retain_job e w (j_id r) d = Inr ((), d') \<and> prunes w {j_id r} d d'"
proof -
  obtain n1 d1 where 1: "detachExternalRequestsFromRetainedJobManual e w (nullableUint64 (j_id r)) d = Inr (n1, d1)"
    "job_frame d d1" "base_frame d d1" using nullableUint64_detach(1) by blast
  obtain n2 d2 where 2: "detachUploadBatchFilesFromRetainedJobManual e w (nullableUint64 (j_id r)) d1 = Inr (n2, d2)"
    "job_frame d1 d2" "base_frame d1 d2" using nullableUint64_detach(2) by blast
  from 1 2 have j: "jobs d2 = jobs d" "attempts d2 = attempts d" "checkpoints d2 = checkpoints d"
    "next_job_id d2 = next_job_id d" and base: "base_frame d d2"
    by (auto simp: job_frame_def intro: base_frame_trans)
  let ?P = "\<lambda>x. j_id x = j_id r \<and> j_workspace_id x = w \<and> terminal_status (j_status x)"
  have P: "?P x \<longleftrightarrow> j_id x = j_id r" if "x \<in> set (jobs d)" for x
    using that r jobs_inv_unique [OF inv that r(1)] by auto
  then have "filter ?P (jobs d) = filter (\<lambda>x. j_id x = j_id r) (jobs d)" by (intro filter_cong) auto
  then have one: "sql_count ?P (jobs d) = 1"
    by (simp add: sql_count_def filter_key_unique [OF jobs_inv_distinct [OF inv] r(1)])
  let ?d = "d2\<lparr>checkpoints := sql_delete (\<lambda>c. c_job_id c = j_id r) (checkpoints d),
              attempts := sql_delete (\<lambda>a. a_job_id a = j_id r) (attempts d), jobs := sql_delete ?P (jobs d)\<rparr>"
  have "retain_job e w (j_id r) d = Inr ((), ?d)"
    using 1(1) 2(1) one j
    by (simp add: retain_job_def tx_simps deleteTranscriptionCheckpoints_def deleteRetainedTranscriptionJobAttemptsManual_def
        deleteRetainedTerminalTranscriptionJobManual_def exec_delete_def requireOneAffected_def)
  moreover have "sql_delete ?P (jobs d) = filter (\<lambda>x. j_id x \<notin> {j_id r}) (jobs d)"
    unfolding sql_delete_def using P by (intro filter_cong) auto
  then have "prunes w {j_id r} d ?d"
    using j base P r by (auto simp: prunes_def base_frame_def sql_delete_def)
  ultimately show ?thesis by blast
qed

lemma retain_jobs_run:
  assumes "jobs_inv d" and "distinct ids"
    and "\<And>i. i \<in> set ids \<Longrightarrow> \<exists>r \<in> set (jobs d). j_id r = i \<and> terminal_status (j_status r) \<and> j_workspace_id r = w"
  shows "\<exists>d'. tx_iter (retain_job e w) ids d = Inr ((), d') \<and> prunes w (set ids) d d'"
  using assms
proof (induction ids arbitrary: d)
  case Nil
  then show ?case by (auto simp: tx_simps prunes_empty)
next
  case (Cons i ids)
  then obtain r where r: "r \<in> set (jobs d)" "j_id r = i" "terminal_status (j_status r)" "j_workspace_id r = w" by auto
  obtain d1 where d1: "retain_job e w i d = Inr ((), d1)" "prunes w {i} d d1"
    using retain_job_runs [OF Cons.prems(1) r(1,3,4)] r(2) by auto
  have inv1: "jobs_inv d1" using prunes_good [OF Cons.prems(1) d1(2)] by (simp add: good_def)
  have "\<exists>r \<in> set (jobs d1). j_id r = k \<and> terminal_status (j_status r) \<and> j_workspace_id r = w" if "k \<in> set ids" for k
  proof -
    from that Cons.prems(2) have "k \<noteq> i" by auto
    with that Cons.prems(3) [of k] d1(2) show ?thesis by (auto simp: prunes_def)
  qed
  with Cons.IH [OF inv1] Cons.prems(2) obtain d' where "tx_iter (retain_job e w) ids d1 = Inr ((), d')" "prunes w (set ids) d1 d'"
    by auto
  with d1 prunes_trans [OF d1(2)] show ?case by (auto simp: tx_simps)
qed

subsection \<open>Oldest first\<close>

definition terminal_rows :: "nat \<Rightarrow> db \<Rightarrow> job_row list" where
  "terminal_rows w d = filter (\<lambda>r. j_workspace_id r = w \<and> terminal_status (j_status r)) (jobs d)"

definition age_key :: "job_row \<Rightarrow> nat \<times> nat" where
  "age_key r = (j_updated_at r, j_id r)"

definition oldest_first :: "nat \<Rightarrow> nat set \<Rightarrow> db \<Rightarrow> bool" where
  "oldest_first w S d \<longleftrightarrow>
     (\<forall>r \<in> set (terminal_rows w d). \<forall>s \<in> set (terminal_rows w d). j_id r \<in> S \<and> j_id s \<notin> S \<longrightarrow> age_key r \<le> age_key s)"

lemma terminal_rows_prunes:
  "prunes w S d d' \<Longrightarrow> terminal_rows w d' = filter (\<lambda>r. j_id r \<notin> S) (terminal_rows w d)"
  by (auto simp: prunes_def terminal_rows_def intro!: filter_cong)

lemma oldest_first_trans:
  assumes "oldest_first w S d" and "prunes w S d d'" and "oldest_first w T d'"
  shows "oldest_first w (S \<union> T) d"
  using assms unfolding oldest_first_def terminal_rows_prunes [OF assms(2)] by auto

lemma sorted_take_drop:
  assumes "sorted (map k xs)" and "x \<in> set (take n xs)" and "y \<in> set (drop n xs)"
  shows "k x \<le> k y"
proof -
  from assms(1) have "sorted (map k (take n xs) @ map k (drop n xs))" by (metis append_take_drop_id map_append)
  with assms(2,3) show ?thesis by (auto simp: sorted_append)
qed

lemma take_keys:
  assumes "distinct (map f xs)"
  shows "y \<in> set xs \<Longrightarrow> f y \<notin> set (map f (take n xs)) \<longleftrightarrow> y \<in> set (drop n xs)"
    and "filter (\<lambda>x. f x \<notin> set (map f (take n xs))) xs = drop n xs"
proof -
  have xs: "set xs = set (take n xs) \<union> set (drop n xs)" by (metis append_take_drop_id set_append)
  have "distinct (map f (take n xs) @ map f (drop n xs))" using assms by (metis append_take_drop_id map_append)
  then have d: "f y \<notin> set (map f (take n xs))" if "y \<in> set (drop n xs)" for y using that by auto
  then show "y \<in> set xs \<Longrightarrow> f y \<notin> set (map f (take n xs)) \<longleftrightarrow> y \<in> set (drop n xs)" unfolding xs by auto
  have "filter (\<lambda>x. f x \<notin> set (map f (take n xs))) (take n xs @ drop n xs) = [] @ drop n xs"
    unfolding filter_append using d by (intro arg_cong2 [where f = "(@)"] filter_True) (auto simp: filter_empty_conv)
  then show "filter (\<lambda>x. f x \<notin> set (map f (take n xs))) xs = drop n xs" by simp
qed

lemma oldest_batch:
  assumes inv: "jobs_inv d" and ids: "ids = lockOldestTerminalTranscriptionJobsForWorkspaceManual w n d"
  shows "distinct ids" and "length ids = min n (length (terminal_rows w d))"
    and "\<And>i. i \<in> set ids \<Longrightarrow> \<exists>r \<in> set (jobs d). j_id r = i \<and> terminal_status (j_status r) \<and> j_workspace_id r = w"
    and "oldest_first w (set ids) d"
    and "length (filter (\<lambda>r. j_id r \<notin> set ids) (terminal_rows w d)) = length (terminal_rows w d) - length ids"
proof -
  define xs where "xs = sort_key age_key (terminal_rows w d)"
  have ids': "ids = map j_id (take n xs)"
    using ids by (simp add: lockOldestTerminalTranscriptionJobsForWorkspaceManual_def xs_def terminal_rows_def
        age_key_def [abs_def] take_map)
  have mset: "mset xs = mset (terminal_rows w d)" and set: "set xs = set (terminal_rows w d)" by (simp_all add: xs_def)
  have "distinct (map j_id (terminal_rows w d))"
    using inv by (simp add: terminal_rows_def jobs_inv_def distinct_map_filter)
  moreover have "mset (map j_id xs) = mset (map j_id (terminal_rows w d))" by (simp add: mset)
  ultimately have dist: "distinct (map j_id xs)" by (metis mset_eq_imp_distinct_iff)
  note keys = take_keys [OF dist, where n = n, folded ids']
  from dist show "distinct ids" unfolding ids' by (metis append_take_drop_id distinct_append map_append)
  show len: "length ids = min n (length (terminal_rows w d))" by (simp add: ids' xs_def)
  show "\<exists>r \<in> set (jobs d). j_id r = i \<and> terminal_status (j_status r) \<and> j_workspace_id r = w" if "i \<in> set ids" for i
  proof -
    from that obtain r where "r \<in> set xs" "j_id r = i" by (auto simp: ids' dest: in_set_takeD)
    with set show ?thesis by (auto simp: terminal_rows_def)
  qed
  show "oldest_first w (set ids) d"
    unfolding oldest_first_def
  proof (intro ballI impI)
    fix r s assume rs: "r \<in> set (terminal_rows w d)" "s \<in> set (terminal_rows w d)" "j_id r \<in> set ids \<and> j_id s \<notin> set ids"
    then have "s \<in> set (drop n xs)" "r \<notin> set (drop n xs)" using keys(1) set by blast+
    moreover from this rs(1) set have "r \<in> set (take n xs)" by (metis append_take_drop_id Un_iff set_append)
    ultimately show "age_key r \<le> age_key s" using sorted_take_drop [of age_key xs r n s] by (simp add: xs_def)
  qed
  have "length (filter (\<lambda>r. j_id r \<notin> set ids) (terminal_rows w d)) = length (filter (\<lambda>r. j_id r \<notin> set ids) xs)"
    using mset by (metis mset_filter size_mset)
  then show "length (filter (\<lambda>r. j_id r \<notin> set ids) (terminal_rows w d)) = length (terminal_rows w d) - length ids"
    using len keys(2) by (simp add: xs_def)
qed

subsection \<open>The loop\<close>

lemma retain_loop_runs:
  assumes "jobs_inv d" and "0 \<le> target"
  shows "\<exists>d' S. retain_loop e w target (int (length (terminal_rows w d))) d = Inr ((), d') \<and> prunes w S d d' \<and>
    length (terminal_rows w d') = min (length (terminal_rows w d)) (nat target) \<and> oldest_first w S d"
  using assms
proof (induction "length (terminal_rows w d)" arbitrary: d rule: less_induct)
  case less
  let ?n = "length (terminal_rows w d)"
  show ?case
  proof (cases "int ?n \<le> target")
    case True
    then have "retain_loop e w target (int ?n) d = Inr ((), d)" by (subst retain_loop.simps) simp
    moreover have "oldest_first w {} d" by (simp add: oldest_first_def)
    ultimately show ?thesis using True prunes_empty [of w d] by (intro exI [of _ d] exI [of _ "{}"]) auto
  next
    case False
    define k where "k = nat (min (int ?n - target) terminalTranscriptionRetentionBatch)"
    define ids where "ids = lockOldestTerminalTranscriptionJobsForWorkspaceManual w k d"
    note batch = oldest_batch [OF less.prems(1) ids_def]
    have k: "0 < k" "int k \<le> int ?n - target"
      using False by (auto simp: k_def terminalTranscriptionRetentionBatch_def)
    with less.prems(2) have len: "length ids = k" using batch(2) by simp
    obtain d1 where d1: "tx_iter (retain_job e w) ids d = Inr ((), d1)" "prunes w (set ids) d d1"
      using retain_jobs_run [OF less.prems(1) batch(1,3)] by blast
    have inv1: "jobs_inv d1" using prunes_good [OF less.prems(1) d1(2)] by (simp add: good_def)
    have n1: "length (terminal_rows w d1) = ?n - k" using batch(5) len by (simp add: terminal_rows_prunes [OF d1(2)])
    with k less.prems(2) have lt: "length (terminal_rows w d1) < ?n" by linarith
    obtain d' S where d': "retain_loop e w target (int (length (terminal_rows w d1))) d1 = Inr ((), d')"
      "prunes w S d1 d'" "length (terminal_rows w d') = min (length (terminal_rows w d1)) (nat target)" "oldest_first w S d1"
      using less.hyps [OF lt inv1 less.prems(2)] by blast
    have "int ?n - int (length ids) = int (length (terminal_rows w d1))" using k len n1 less.prems(2) by linarith
    then have "retain_loop e w target (int ?n) d = Inr ((), d')"
      using False d1(1) d'(1) k(1) len unfolding ids_def k_def
      by (subst retain_loop.simps) (auto simp: Let_def)
    moreover have "length (terminal_rows w d') = min ?n (nat target)" using d'(3) n1 k less.prems(2) False by linarith
    ultimately show ?thesis using prunes_trans [OF d1(2) d'(2)] oldest_first_trans [OF batch(4) d1(2) d'(4)] by blast
  qed
qed


end
