(* ===== verification/Job_Creation.thy ===== *)
theory Job_Creation
  imports Job_Lifecycle Job_Retention
begin

section \<open>Creating jobs\<close>

text \<open>
  \<^verbatim>\<open>Create\<close> keeps the invariant, never exceeds the workspace's queue limit, leaves exactly one active
  job for the image, which carries the requested context and the canonical revision, and is
  idempotent.
\<close>

subsection \<open>A new row\<close>

lemma attempts_of_fresh: "jobs_inv d \<Longrightarrow> next_job_id d \<le> i \<Longrightarrow> attempts_of d i = []"
  unfolding attempts_of_def filter_empty_conv jobs_inv_def by (metis leD)

lemma checkpoints_of_fresh: "jobs_inv d \<Longrightarrow> next_job_id d \<le> i \<Longrightarrow> checkpoints_of d i = []"
  unfolding checkpoints_of_def filter_empty_conv jobs_inv_def by (metis leD)

lemma append_good:
  assumes inv: "jobs_inv d" and row: "job_row_check row" "j_id row = next_job_id d" "j_status row = Pending" "j_attempt_count row = 0"
    and free: "\<And>r. r \<in> set (jobs d) \<Longrightarrow> active_status (j_status r) \<Longrightarrow> j_item_image_id r \<noteq> j_item_image_id row"
    and d': "d' = d\<lparr>jobs := jobs d @ [row], next_job_id := next_job_id d + 1\<rparr>"
  shows "good d d'"
proof -
  have lt: "j_id r < next_job_id d" if "r \<in> set (jobs d)" for r using inv that by (simp add: jobs_inv_def)
  have att: "attempts_of d' = attempts_of d" "checkpoints_of d' = checkpoints_of d"
    by (simp_all add: d' attempts_of_def checkpoints_of_def fun_eq_iff)
  have "job_ok row (attempts_of d (j_id row)) (checkpoints_of d (j_id row))"
    using row attempts_of_fresh [OF inv, of "j_id row"] by (simp add: job_ok_def audit_ok_def explains_def active_status_def)
  then have "job_ok r (attempts_of d (j_id r)) (checkpoints_of d (j_id r))" if "r \<in> set (jobs d')" for r
    using that jobs_invD(3) [OF inv] by (auto simp: d')
  moreover have "next_job_id d \<notin> j_id ` set (jobs d)" using lt by force
  then have "distinct (map j_id (jobs d'))" using inv row(2) by (simp add: d' jobs_inv_def)
  moreover have "0 < j_id r \<and> j_id r < next_job_id d'" if "r \<in> set (jobs d')" for r
    using that inv lt row(2) by (auto simp: d' jobs_inv_def less_SucI)
  moreover have "r = s" if "r \<in> set (jobs d')" "s \<in> set (jobs d')" "active_status (j_status r)" "active_status (j_status s)"
      "j_item_image_id r = j_item_image_id s" for r s
  proof (cases "r = row \<or> s = row")
    case True
    with that free show ?thesis unfolding d' by auto metis+
  next
    case False
    with that inv show ?thesis by (auto simp: d' jobs_inv_def)
  qed
  ultimately have "jobs_inv d'"
    using inv unfolding jobs_inv_def [of d'] att by (auto simp: d' jobs_inv_def)
  moreover have "db_evolves d d'"
    unfolding db_evolves_def att
  proof (intro conjI ballI impI disjI1)
    fix r assume "r \<in> set (jobs d)"
    then have "r \<in> set (jobs d')" by (simp add: d')
    then show "\<exists>r' \<in> set (jobs d'). j_id r' = j_id r \<and> job_evolves r (attempts_of d (j_id r)) r' (attempts_of d (j_id r))"
      using job_evolves_refl by blast
  qed (use row(2) in \<open>auto simp: d'\<close>)
  moreover have "removes_terminal d d'" by (auto simp: removes_terminal_def d')
  ultimately show ?thesis by (simp add: good_def)
qed

lemma new_job_row_simps [simp]:
  "j_id (new_job_row e i w img c sc sn v) = i" "j_workspace_id (new_job_row e i w img c sc sn v) = w"
  "j_item_image_id (new_job_row e i w img c sc sn v) = img" "j_context_id (new_job_row e i w img c sc sn v) = c"
  "j_context_snapshot (new_job_row e i w img c sc sn v) = sn" "j_input_revision (new_job_row e i w img c sc sn v) = v"
  "j_status (new_job_row e i w img c sc sn v) = Pending" "j_attempt_count (new_job_row e i w img c sc sn v) = 0"
  by (simp_all add: new_job_row_def)

text \<open>What the insert does: nothing, the existing active job, or a new pending row.\<close>

lemma createTranscriptionJobManual_cases:
  assumes inv: "jobs_inv d" and ins: "createTranscriptionJobManual e img cid snap d = Inr (i, d')" and "i \<noteq> 0"
  obtains (existing) r where "r \<in> set (jobs d)" and "active_status (j_status r)" and "j_item_image_id r = img"
      and "j_id r = i" and "d' = d"
  | (new) w sc v where "i = next_job_id d" and "job_row_check (new_job_row e i w img cid (Some sc) snap v)"
      and "\<And>r. r \<in> set (jobs d) \<Longrightarrow> active_status (j_status r) \<Longrightarrow> j_item_image_id r \<noteq> img"
      and "d' = d\<lparr>jobs := jobs d @ [new_job_row e i w img cid (Some sc) snap v], next_job_id := next_job_id d + 1\<rparr>"
      and "\<exists>ii i' ap. ii \<in> set (images d) \<and> im_id ii = img \<and> i' \<in> set (items d) \<and> it_id i' = im_item_id ii \<and>
            ap \<in> set (pages d) \<and> pg_item_image_id ap = img \<and> pg_workspace_id ap = it_workspace_id i' \<and>
            w = it_workspace_id i' \<and> v = pg_revision ap"
proof -
  let ?rows = "[(it_workspace_id i, cx_scope_id c, pg_revision ap).
             ii \<leftarrow> images d, im_id ii = img, i \<leftarrow> items d, it_id i = im_item_id ii,
             ap \<leftarrow> pages d, pg_item_image_id ap = im_id ii \<and> pg_workspace_id ap = it_workspace_id i,
             c \<leftarrow> contexts d, null_eq (Some (cx_id c)) cid \<and>
               (cx_workspace_id c = None \<or> cx_workspace_id c = Some (it_workspace_id i))]"
  from ins \<open>i \<noteq> 0\<close> obtain w sc v rest where rows: "?rows = (w, sc, v) # rest"
    and ij: "insert_job (\<lambda>jid. new_job_row e jid w img cid (Some sc) snap v) d = Inr (i, d')"
    by (auto simp: createTranscriptionJobManual_def split: list.splits)
  have mem: "(w, sc, v) \<in> set ?rows" unfolding rows by simp
  let ?row = "new_job_row e (next_job_id d) w img cid (Some sc) snap v"
  let ?find = "find (\<lambda>r. null_eq (j_active_item_image_id r) (Some img)) (jobs d)"
  have act: "j_active_item_image_id ?row = Some img" by (simp add: j_active_item_image_id_def active_status_def)
  have chk: "job_row_check ?row" using ij by (auto simp: insert_job_def Let_def split: if_splits)
  show thesis
  proof (cases ?find)
    case (Some r)
    with ij chk act have "i = j_id r" "d' = d" by (auto simp: insert_job_def Let_def)
    moreover from Some have "r \<in> set (jobs d)" "null_eq (j_active_item_image_id r) (Some img)" by (auto dest: find_Some_mem)
    ultimately show thesis
      using existing by (auto simp: null_eq_def j_active_item_image_id_def split: if_splits)
  next
    case None
    with ij chk act have "i = next_job_id d" "d' = d\<lparr>jobs := jobs d @ [?row], next_job_id := next_job_id d + 1\<rparr>"
      by (auto simp: insert_job_def Let_def)
    moreover have "j_item_image_id r \<noteq> img" if "r \<in> set (jobs d)" "active_status (j_status r)" for r
      using None that by (auto simp: find_None_iff null_eq_def j_active_item_image_id_def)
    moreover have "\<exists>ii i' ap. ii \<in> set (images d) \<and> im_id ii = img \<and> i' \<in> set (items d) \<and> it_id i' = im_item_id ii \<and>
            ap \<in> set (pages d) \<and> pg_item_image_id ap = img \<and> pg_workspace_id ap = it_workspace_id i' \<and>
            w = it_workspace_id i' \<and> v = pg_revision ap"
      using mem by (auto split: if_splits)
    ultimately show thesis using new chk by simp
  qed
qed

subsection \<open>Rounds\<close>

lemma create_round_cases:
  assumes "create_round e policy w img cid snap err ins d = Inr (res, d')"
  obtains (matched) a v where "lockActiveTranscriptionJobForUpdateManual (nullableUint64 img) d = Some a"
      and "lockCanonicalRevisionForTranscriptionJobManual img d = Some v" and "v \<noteq> 0"
      and "activeTranscriptionJobMatches a cid snap v" and "res = Some (j_id a)" and "d' = d"
  | (superseded) a v d1 i c where "lockActiveTranscriptionJobForUpdateManual (nullableUint64 img) d = Some a"
      and "lockCanonicalRevisionForTranscriptionJobManual img d = Some v" and "v \<noteq> 0"
      and "\<not> activeTranscriptionJobMatches a cid snap v" and "supersede_active e a d = Inr ((), d1)"
      and "ins d1 = Inr (i, d')" and "i \<noteq> 0" and "find (\<lambda>r. j_id r = i) (jobs d') = Some c"
      and "res = (if activeTranscriptionJobMatches c cid snap v then Some i else None)"
  | (admitted) v i c where "lockActiveTranscriptionJobForUpdateManual (nullableUint64 img) d = None"
      and "lockCanonicalRevisionForTranscriptionJobManual img d = Some v" and "v \<noteq> 0"
      and "int (countActiveTranscriptionJobsByWorkspaceManual w d) < policy"
      and "ins d = Inr (i, d')" and "i \<noteq> 0" and "find (\<lambda>r. j_id r = i) (jobs d') = Some c"
      and "res = (if activeTranscriptionJobMatches c cid snap v then Some i else None)"
proof (cases "lockActiveTranscriptionJobForUpdateManual (nullableUint64 img) d")
  case None
  with assms obtain v i c where "lockCanonicalRevisionForTranscriptionJobManual img d = Some v" "v \<noteq> 0"
      "int (countActiveTranscriptionJobsByWorkspaceManual w d) < policy"
      "ins d = Inr (i, d')" "i \<noteq> 0" "find (\<lambda>r. j_id r = i) (jobs d') = Some c"
      "res = (if activeTranscriptionJobMatches c cid snap v then Some i else None)"
    by (auto simp: create_round_def Let_def tx_elims enforceTranscriptionJobAdmission_def getTranscriptionJobManual_def)
  then show thesis by (rule admitted [OF None])
next
  case (Some a)
  with assms obtain v where v: "lockCanonicalRevisionForTranscriptionJobManual img d = Some v" "v \<noteq> 0"
    by (auto simp: create_round_def Let_def tx_elims)
  show thesis
  proof (cases "activeTranscriptionJobMatches a cid snap v")
    case True
    with assms Some v have "res = Some (j_id a)" "d' = d" by (auto simp: create_round_def Let_def tx_elims)
    then show thesis by (rule matched [OF Some v True])
  next
    case False
    with assms Some v obtain d1 i c where "supersede_active e a d = Inr ((), d1)"
      "ins d1 = Inr (i, d')" "i \<noteq> 0" "find (\<lambda>r. j_id r = i) (jobs d') = Some c"
      "res = (if activeTranscriptionJobMatches c cid snap v then Some i else None)"
      by (auto simp: create_round_def Let_def tx_elims getTranscriptionJobManual_def)
    then show thesis by (rule superseded [OF Some v False])
  qed
qed

lemma lockActive_row:
  assumes "lockActiveTranscriptionJobForUpdateManual (nullableUint64 img) d = Some a"
  shows "a \<in> set (jobs d)" "active_status (j_status a)" "j_item_image_id a = img"
  using assms
  by (auto simp: lockActiveTranscriptionJobForUpdateManual_def null_eq_def nullableUint64_def j_active_item_image_id_def
      split: option.splits if_splits dest!: find_Some_mem)

definition keeps_ids :: "db \<Rightarrow> db \<Rightarrow> bool" where
  "keeps_ids d d' \<longleftrightarrow> (\<forall>r \<in> set (jobs d). \<exists>r' \<in> set (jobs d'). j_id r' = j_id r)"

lemma keeps_ids_trans: "keeps_ids d d' \<Longrightarrow> keeps_ids d' d'' \<Longrightarrow> keeps_ids d d''"
  unfolding keeps_ids_def by metis

lemma good_keeps_trans: "jobs_inv d \<Longrightarrow> good d d' \<Longrightarrow> good d' d'' \<Longrightarrow> keeps_ids d' d'' \<Longrightarrow> good d d''"
  by (rule good_trans) (auto simp: keeps_ids_def)

lemma supersede_active_jobs:
  assumes "supersede_active e a d = Inr (x, d')"
  shows "jobs d' = sql_update (\<lambda>x. j_id x = j_id a \<and> active_status (j_status x))
      (set_stopped (now e) Superseded (Some ''superseded by a newer transcription request'')) (jobs d)"
    and "base_frame d d'" and "next_job_id d' = next_job_id d"
    and "sql_changed (\<lambda>x. j_id x = j_id a \<and> active_status (j_status x))
      (set_stopped (now e) Superseded (Some ''superseded by a newer transcription request'')) (jobs d) = 1"
proof -
  from assms obtain d1 d2 k where d1: "d1 = d \<or> (\<exists>as. d1 = d\<lparr>attempts := as\<rparr>)"
    and sup: "supersedeTranscriptionJobByIDManual e (j_id a) d1 = Inr (1, d2)"
    and del: "deleteTranscriptionCheckpoints (j_id a) d2 = Inr (k, d')"
    unfolding supersede_active_def
    by (auto simp: tx_bind_Inr tx_when_Inr tx_lift_Inr tx_return_Inr requireOneAffected_Inr split: if_splits
        dest!: finishTranscriptionAttempt_only)
  from sup del d1 show "jobs d' = sql_update (\<lambda>x. j_id x = j_id a \<and> active_status (j_status x))
      (set_stopped (now e) Superseded (Some ''superseded by a newer transcription request'')) (jobs d)"
    and "base_frame d d'" and "next_job_id d' = next_job_id d"
    and "sql_changed (\<lambda>x. j_id x = j_id a \<and> active_status (j_status x))
      (set_stopped (now e) Superseded (Some ''superseded by a newer transcription request'')) (jobs d) = 1"
    by (auto simp: supersedeTranscriptionJobByIDManual_def deleteTranscriptionCheckpoints_def tx_elims base_frame_def)
qed

lemma sql_update_keeps_key:
  assumes "r \<in> set rows" and "\<And>x. P x \<Longrightarrow> k (f x) = k x"
  shows "\<exists>r' \<in> set (sql_update P f rows). k r' = k r"
proof -
  from assms(1) have "k r \<in> set (map k (sql_update P f rows))" by (simp add: map_key_sql_update [of P k f, OF assms(2)])
  then show ?thesis by auto
qed

lemma supersede_keeps: "supersede_active e a d = Inr (x, d') \<Longrightarrow> keeps_ids d d'"
  unfolding keeps_ids_def supersede_active_jobs(1)
  by (intro ballI sql_update_keeps_key) (auto simp: set_stopped_simps)

lemma insert_good:
  assumes inv: "jobs_inv d" and ins: "createTranscriptionJobManual e img cid snap d = Inr (i, d')" and "i \<noteq> 0"
  shows "good d d'" "keeps_ids d d'" "base_frame d d'"
proof -
  have "good d d' \<and> keeps_ids d d' \<and> base_frame d d'"
    using inv ins \<open>i \<noteq> 0\<close>
  proof (cases rule: createTranscriptionJobManual_cases)
    case existing
    then show ?thesis using inv by (auto simp: good_refl keeps_ids_def)
  next
    case (new w sc v)
    with append_good [OF inv new(2) _ _ _ _ new(4)] show ?thesis by (auto simp: keeps_ids_def base_frame_def)
  qed
  then show "good d d'" "keeps_ids d d'" "base_frame d d'" by auto
qed

lemma create_round_good:
  assumes inv: "jobs_inv d"
    and cr: "create_round e policy w img cid snap err (createTranscriptionJobManual e img cid snap) d = Inr (res, d')"
  shows "good d d' \<and> keeps_ids d d' \<and> base_frame d d'"
  using cr
proof (cases rule: create_round_cases)
  case matched
  then show ?thesis using inv by (auto simp: good_refl keeps_ids_def)
next
  case (superseded a v d1 i c)
  have g1: "good d d1" by (rule supersede_good [OF inv lockActive_row(1,2) [OF superseded(1)] superseded(5)])
  then have inv1: "jobs_inv d1" by (simp add: good_def)
  note g2 = insert_good [OF inv1 superseded(6,7)]
  from good_keeps_trans [OF inv g1 g2(1,2)] keeps_ids_trans [OF supersede_keeps [OF superseded(5)] g2(2)]
    base_frame_trans [OF supersede_active_jobs(2) [OF superseded(5)] g2(3)]
  show ?thesis by simp
next
  case (admitted v i c)
  from insert_good [OF inv admitted(5,6)] show ?thesis by simp
qed

lemma createLocked_good:
  assumes "jobs_inv d"
    and "create_rounds n (create_round e policy w img cid snap err (createTranscriptionJobManual e img cid snap)) d = Inr (i, d')"
  shows "good d d' \<and> keeps_ids d d' \<and> base_frame d d'"
  using assms
proof (induction n arbitrary: d)
  case 0
  then show ?case by (simp add: tx_simps)
next
  case (Suc n)
  let ?body = "create_round e policy w img cid snap err (createTranscriptionJobManual e img cid snap)"
  from Suc.prems(2) obtain res d1 where r: "?body d = Inr (res, d1)"
    and rest: "(case res of Some i \<Rightarrow> if i = 0 then tx_raise (ErrInvalid ''concurrent active job did not converge'') else tx_return i
        | None \<Rightarrow> create_rounds n ?body) d1 = Inr (i, d')"
    by (auto simp: tx_bind_Inr)
  note g = create_round_good [OF Suc.prems(1) r]
  show ?case
  proof (cases res)
    case (Some k)
    with rest have "d' = d1" by (auto simp: tx_simps split: if_splits)
    with g show ?thesis by simp
  next
    case None
    with rest have "create_rounds n ?body d1 = Inr (i, d')" by simp
    from Suc.IH [OF _ this] g have "good d1 d' \<and> keeps_ids d1 d' \<and> base_frame d1 d'" by (simp add: good_def)
    with g good_keeps_trans [OF Suc.prems(1)] keeps_ids_trans base_frame_trans show ?thesis by blast
  qed
qed

text \<open>The stages of \<^verbatim>\<open>Create\<close>: the workspace of the image, retention, the context snapshot, the loop.\<close>

lemma Create_stages:
  assumes inv: "jobs_inv d" and cr: "Create e policy img ctx d = Inr (i, d')"
  obtains w S d1 snap where "img \<noteq> 0" and "ctx \<noteq> 0" and "w \<noteq> 0"
    and "lockTranscriptionJobWorkspaceByItemImageManual img d = Inr (w, d)"
    and "prunes w S d d1" and "length (terminal_rows w d1) \<le> 99"
    and "lockContextSnapshotForWorkspace ctx w img d1 = Inr ((ctx, snap), d1)"
    and "createLocked e policy w img (nullableUint64 ctx) snap ErrTranscriptionCanonicalPageRequired
           (createTranscriptionJobManual e img (nullableUint64 ctx) snap) d1 = Inr (i, d')"
proof -
  from cr obtain w d1 cid snap where w: "img \<noteq> 0" "ctx \<noteq> 0" "w \<noteq> 0" "lockTranscriptionJobWorkspaceByItemImageManual img d = Inr (w, d)"
    and ret: "retainTerminalTranscriptionHistory e w 99 d = Inr ((), d1)"
    and ctx: "lockContextSnapshotForWorkspace ctx w img d1 = Inr ((cid, snap), d1)"
    and lck: "createLocked e policy w img (nullableUint64 cid) snap ErrTranscriptionCanonicalPageRequired
           (createTranscriptionJobManual e img (nullableUint64 cid) snap) d1 = Inr (i, d')"
    by (auto simp: Create_def lockTranscriptionAdmissionWorkspace_def MaxTerminalTranscriptionJobsPerWorkspace_def
        lockTranscriptionJobWorkspaceByItemImageManual_def lockContextSnapshotForWorkspace_def lockContextForUseManual_def
        getDocumentTypeForItemImage_def Let_def tx_elims split: if_splits)
  have "cid = ctx"
    using ctx by (auto simp: lockContextSnapshotForWorkspace_def lockContextForUseManual_def Let_def tx_elims dest!: find_Some_mem)
  obtain d2 S where "retain_loop e w 99 (int (length (terminal_rows w d))) d = Inr ((), d2)" "prunes w S d d2"
    "length (terminal_rows w d2) = min (length (terminal_rows w d)) (nat 99)"
    using retain_loop_runs [OF inv, of 99 e w] by auto
  moreover from this ret have "d2 = d1"
    by (simp add: retainTerminalTranscriptionHistory_def countTerminalTranscriptionJobsForWorkspaceManual_def sql_count_def
        terminal_rows_def split: if_splits)
  ultimately have "prunes w S d d1" "length (terminal_rows w d1) \<le> 99" by simp_all
  from that [OF w this ctx [unfolded \<open>cid = ctx\<close>] lck [unfolded \<open>cid = ctx\<close>]] show thesis .
qed

lemma Create_good:
  assumes inv: "jobs_inv d" and cr: "Create e policy img ctx d = Inr (i, d')"
  shows "good d d'" "base_frame d d'"
proof -
  have "good d d' \<and> base_frame d d'"
    using inv cr
  proof (cases rule: Create_stages)
    case (1 w S d1 snap)
    have g1: "good d d1" by (rule prunes_good [OF inv 1(5)])
    then have "good d1 d' \<and> keeps_ids d1 d' \<and> base_frame d1 d'"
      using createLocked_good [of d1 3] 1(8) by (simp add: good_def createLocked_def)
    with good_keeps_trans [OF inv g1] base_frame_trans 1(5) show ?thesis unfolding prunes_def by blast
  qed
  then show "good d d'" "base_frame d d'" by auto
qed

subsection \<open>The first round settles it\<close>

text \<open>The primary keys of the tables a job is created from.\<close>

definition schema_ok :: "db \<Rightarrow> bool" where
  "schema_ok d \<longleftrightarrow>
     distinct (map im_id (images d)) \<and> distinct (map it_id (items d)) \<and>
     distinct (map (\<lambda>p. (pg_workspace_id p, pg_item_image_id p)) (pages d))"

lemma distinct_map_eq: "distinct (map f xs) \<Longrightarrow> x \<in> set xs \<Longrightarrow> y \<in> set xs \<Longrightarrow> f x = f y \<Longrightarrow> x = y"
  by (auto simp: distinct_map dest: inj_onD)

text \<open>The canonical page of an image: its item, its workspace and its page row.\<close>

definition canonical :: "db \<Rightarrow> nat \<Rightarrow> nat \<Rightarrow> nat \<Rightarrow> bool" where
  "canonical d img w v \<longleftrightarrow>
     (\<exists>ii i ap. ii \<in> set (images d) \<and> im_id ii = img \<and> i \<in> set (items d) \<and> it_id i = im_item_id ii \<and>
        ap \<in> set (pages d) \<and> pg_item_image_id ap = img \<and> pg_workspace_id ap = it_workspace_id i \<and>
        w = it_workspace_id i \<and> v = pg_revision ap)"

lemma canonical_unique:
  assumes "schema_ok d" and "canonical d img w v" and "canonical d img w' v'"
  shows "w' = w" "v' = v"
proof -
  from assms(2) obtain ii i ap where 1: "ii \<in> set (images d)" "im_id ii = img" "i \<in> set (items d)" "it_id i = im_item_id ii"
    "ap \<in> set (pages d)" "pg_item_image_id ap = img" "pg_workspace_id ap = it_workspace_id i" "w = it_workspace_id i" "v = pg_revision ap"
    by (auto simp: canonical_def)
  from assms(3) obtain ii' i' ap' where 2: "ii' \<in> set (images d)" "im_id ii' = img" "i' \<in> set (items d)" "it_id i' = im_item_id ii'"
    "ap' \<in> set (pages d)" "pg_item_image_id ap' = img" "pg_workspace_id ap' = it_workspace_id i'" "w' = it_workspace_id i'" "v' = pg_revision ap'"
    by (auto simp: canonical_def)
  have "ii' = ii" using assms(1) 1 2 distinct_map_eq [of im_id "images d" ii' ii] by (simp add: schema_ok_def)
  then have "i' = i" using assms(1) 1 2 distinct_map_eq [of it_id "items d" i' i] by (simp add: schema_ok_def)
  moreover from this have "ap' = ap"
    using assms(1) 1 2 distinct_map_eq [of "\<lambda>p. (pg_workspace_id p, pg_item_image_id p)" "pages d" ap' ap]
    by (simp add: schema_ok_def)
  ultimately show "w' = w" "v' = v" using 1 2 by auto
qed

lemma lockCanonical_canonical:
  "lockCanonicalRevisionForTranscriptionJobManual img d = Some v \<Longrightarrow> \<exists>w. canonical d img w v"
proof -
  let ?l = "[pg_revision ap. ii \<leftarrow> images d, im_id ii = img, i \<leftarrow> items d, it_id i = im_item_id ii,
              ap \<leftarrow> pages d, pg_item_image_id ap = im_id ii \<and> pg_workspace_id ap = it_workspace_id i]"
  assume "lockCanonicalRevisionForTranscriptionJobManual img d = Some v"
  then obtain rest where l: "?l = v # rest"
    unfolding lockCanonicalRevisionForTranscriptionJobManual_def by (cases ?l) simp_all
  have "v \<in> set ?l" unfolding l by simp
  then show ?thesis by (auto simp: canonical_def split: if_splits)
qed

lemma canonical_base: "base_frame d d' \<Longrightarrow> canonical d' = canonical d"
  by (simp add: base_frame_def canonical_def fun_eq_iff)

lemma new_row_matches:
  assumes inv: "jobs_inv d" and free: "\<And>r. r \<in> set (jobs d) \<Longrightarrow> active_status (j_status r) \<Longrightarrow> j_item_image_id r \<noteq> img"
    and ins: "createTranscriptionJobManual e img (Some c) snap d = Inr (i, d')" "i \<noteq> 0" and c: "0 < c"
    and sch: "schema_ok d" and v: "canonical d img w0 v"
    and f: "find (\<lambda>r. j_id r = i) (jobs d') = Some r"
  shows "activeTranscriptionJobMatches r (Some c) snap v"
    and "j_status r = Pending" "j_item_image_id r = img" "j_context_id r = Some c" "j_input_revision r = v" "j_workspace_id r = w0"
    and "jobs d' = jobs d @ [r]" "j_id r = i"
proof -
  have all: "activeTranscriptionJobMatches r (Some c) snap v \<and> j_status r = Pending \<and> j_item_image_id r = img \<and>
      j_context_id r = Some c \<and> j_input_revision r = v \<and> j_workspace_id r = w0 \<and> jobs d' = jobs d @ [r] \<and> j_id r = i"
    using inv ins
  proof (cases rule: createTranscriptionJobManual_cases)
    case (existing r0)
    then show ?thesis using free by blast
  next
    case (new w sc v')
    have "canonical d img w v'" using new(5) by (simp add: canonical_def)
    from canonical_unique [OF sch v this] have "w = w0" "v' = v" by auto
    have "jobs_inv d'" using insert_good(1) [OF inv ins] by (simp add: good_def)
    moreover have "new_job_row e i w img (Some c) (Some sc) snap v' \<in> set (jobs d')" by (simp add: new(4))
    ultimately have "r = new_job_row e i w img (Some c) (Some sc) snap v'"
      using find_job_Some [of d' "new_job_row e i w img (Some c) (Some sc) snap v'"] f by simp
    with \<open>w = w0\<close> \<open>v' = v\<close> c new(4) show ?thesis by (simp add: activeTranscriptionJobMatches_def equivalentJSON_def)
  qed
  then show "activeTranscriptionJobMatches r (Some c) snap v" "j_status r = Pending" "j_item_image_id r = img" "j_context_id r = Some c"
    "j_input_revision r = v" "j_workspace_id r = w0" "jobs d' = jobs d @ [r]" "j_id r = i" by auto
qed

lemma lockActive_None:
  assumes "lockActiveTranscriptionJobForUpdateManual (nullableUint64 img) d = None" and "0 < img" "img < 2 ^ 63"
    and "r \<in> set (jobs d)" and "active_status (j_status r)"
  shows "j_item_image_id r \<noteq> img"
  using assms
  by (auto simp: lockActiveTranscriptionJobForUpdateManual_def find_None_iff nullableUint64_def null_eq_def j_active_item_image_id_def)

lemma superseded_free:
  assumes inv: "jobs_inv d" and a: "a \<in> set (jobs d)" "active_status (j_status a)" "j_item_image_id a = img"
    and sup: "supersede_active e a d = Inr (x, d1)"
    and r: "r \<in> set (jobs d1)" "active_status (j_status r)"
  shows "j_item_image_id r \<noteq> img" and "r \<in> set (jobs d)" and "r \<noteq> a"
proof -
  from r have "r \<in> set (jobs d) \<and> \<not> (j_id r = j_id a \<and> active_status (j_status r))"
    unfolding supersede_active_jobs(1) [OF sup] set_sql_update
    by (auto simp: set_stopped_simps active_status_def)
  with r show "r \<in> set (jobs d)" "r \<noteq> a" by auto
  with inv a r(2) show "j_item_image_id r \<noteq> img" unfolding jobs_inv_def by blast
qed

text \<open>What a round that returns leaves behind, and that it always returns.\<close>

definition created :: "db \<Rightarrow> nat \<Rightarrow> nat \<Rightarrow> nat \<Rightarrow> json \<Rightarrow> nat \<Rightarrow> bool" where
  "created d i img c snap v \<longleftrightarrow>
     (\<exists>r \<in> set (jobs d). j_id r = i \<and> active_status (j_status r) \<and> j_item_image_id r = img \<and>
        activeTranscriptionJobMatches r (Some c) snap v)"

lemma create_round_first:
  assumes inv: "jobs_inv d" and sch: "schema_ok d" and img: "0 < img" "img < 2 ^ 63" and c: "0 < c"
    and cr: "create_round e policy w img (Some c) snap err (createTranscriptionJobManual e img (Some c) snap) d = Inr (res, d')"
  obtains i v w0 where "res = Some i" and "canonical d img w0 v" and "created d' i img c snap v"
  using cr
proof (cases rule: create_round_cases)
  case (matched a v)
  obtain w0 where v: "canonical d img w0 v" using lockCanonical_canonical [OF matched(2)] by blast
  have "created d' (j_id a) img c snap v"
    using lockActive_row [OF matched(1)] matched(4,6) by (auto simp: created_def)
  with that matched(5) v show thesis by blast
next
  case (superseded a v d1 i cr)
  obtain w0 where v: "canonical d img w0 v" using lockCanonical_canonical [OF superseded(2)] by blast
  note a = lockActive_row [OF superseded(1)] and sup = superseded(5)
  note base = supersede_active_jobs(2) [OF sup]
  have inv1: "jobs_inv d1" using supersede_good [OF inv a(1,2) sup] by (simp add: good_def)
  have sch1: "schema_ok d1" using sch base by (simp add: schema_ok_def base_frame_def)
  have v1: "canonical d1 img w0 v" using v by (simp add: canonical_base [OF base])
  note m = new_row_matches [OF inv1 superseded_free(1) [OF inv a sup] superseded(6,7) c sch1 v1 superseded(8)]
  have "created d' i img c snap v" using m by (auto simp: created_def active_status_def)
  with that superseded(9) m(1) v show thesis by simp
next
  case (admitted v i cr)
  obtain w0 where v: "canonical d img w0 v" using lockCanonical_canonical [OF admitted(2)] by blast
  note m = new_row_matches [OF inv lockActive_None [OF admitted(1) img] admitted(5,6) c sch v admitted(7)]
  have "created d' i img c snap v" using m by (auto simp: created_def active_status_def)
  with that admitted(8) m(1) v show thesis by simp
qed

lemma createLocked_first:
  assumes inv: "jobs_inv d" and sch: "schema_ok d" and img: "0 < img" "img < 2 ^ 63" and c: "0 < c"
    and cl: "createLocked e policy w img (Some c) snap err (createTranscriptionJobManual e img (Some c) snap) d = Inr (i, d')"
  shows "create_round e policy w img (Some c) snap err (createTranscriptionJobManual e img (Some c) snap) d = Inr (Some i, d')"
    and "i \<noteq> 0"
proof -
  let ?body = "create_round e policy w img (Some c) snap err (createTranscriptionJobManual e img (Some c) snap)"
  have "createLocked e policy w img (Some c) snap err (createTranscriptionJobManual e img (Some c) snap) = create_rounds (Suc 2) ?body"
    by (simp add: createLocked_def numeral_3_eq_3 numeral_2_eq_2)
  from cl [unfolded this create_rounds.simps(2)] obtain res d1 where r: "?body d = Inr (res, d1)"
    and rest: "(case res of Some i \<Rightarrow> if i = 0 then tx_raise (ErrInvalid ''concurrent active job did not converge'') else tx_return i
        | None \<Rightarrow> create_rounds 2 ?body) d1 = Inr (i, d')"
    unfolding tx_bind_Inr by blast
  obtain k where "res = Some k" using create_round_first [OF inv sch img c r] by blast
  with r rest show "?body d = Inr (Some i, d')" "i \<noteq> 0" by (auto simp: tx_simps split: if_splits)
qed

subsection \<open>Properties of creation\<close>

lemma Create_round:
  assumes inv: "jobs_inv d" and sch: "schema_ok d" and img: "img < 2 ^ 63" and ctx: "ctx < 2 ^ 63"
    and cr: "Create e policy img ctx d = Inr (i, d')"
  obtains w S d1 snap where "lockTranscriptionJobWorkspaceByItemImageManual img d = Inr (w, d)" and "prunes w S d d1"
    and "jobs_inv d1" and "schema_ok d1" and "0 < img" and "0 < ctx" and "w \<noteq> 0"
    and "lockContextSnapshotForWorkspace ctx w img d1 = Inr ((ctx, snap), d1)"
    and "create_round e policy w img (Some ctx) snap ErrTranscriptionCanonicalPageRequired
           (createTranscriptionJobManual e img (Some ctx) snap) d1 = Inr (Some i, d')"
  using inv cr
proof (cases rule: Create_stages)
  case (1 w S d1 snap)
  have inv1: "jobs_inv d1" using prunes_good [OF inv 1(5)] by (simp add: good_def)
  have sch1: "schema_ok d1" using sch 1(5) by (simp add: prunes_def base_frame_def schema_ok_def)
  have n: "nullableUint64 ctx = Some ctx" using 1(2) ctx by (simp add: nullableUint64_def)
  have "create_round e policy w img (Some ctx) snap ErrTranscriptionCanonicalPageRequired
           (createTranscriptionJobManual e img (Some ctx) snap) d1 = Inr (Some i, d')"
    using createLocked_first(1) [OF inv1 sch1 _ img _ 1(8) [unfolded n]] 1(1,2) by simp
  with that [OF 1(4,5) inv1 sch1 _ _ 1(3,7)] 1(1,2) show thesis by simp
qed

text \<open>
  C24: A successful \<^verbatim>\<open>Create\<close> returns the one active job of the image: it is pending or running, it
  carries the requested context and the revision of the image's canonical page, and no other
  job of the image is active.
\<close>

theorem Create_returns_the_active_job:
  assumes "jobs_inv d" and "schema_ok d" and "img < 2 ^ 63" and "ctx < 2 ^ 63"
    and "Create e policy img ctx d = Inr (i, d')"
  shows "\<exists>r \<in> set (jobs d'). j_id r = i \<and> active_status (j_status r) \<and> j_item_image_id r = img \<and>
     j_context_id r = Some ctx \<and> (\<exists>w. canonical d img w (j_input_revision r)) \<and>
     (\<forall>s \<in> set (jobs d'). active_status (j_status s) \<and> j_item_image_id s = img \<longrightarrow> s = r)"
  using assms
proof (cases rule: Create_round)
  case (1 w S d1 snap)
  obtain v w0 where v: "canonical d1 img w0 v" and "created d' i img ctx snap v"
    by (rule create_round_first [OF 1(3,4,5) assms(3) 1(6,9)]) auto
  then obtain r where r: "r \<in> set (jobs d')" "j_id r = i" "active_status (j_status r)" "j_item_image_id r = img"
    "activeTranscriptionJobMatches r (Some ctx) snap v" by (auto simp: created_def)
  from r(5) have c: "j_context_id r = Some ctx" and rev: "j_input_revision r = v"
    by (auto simp: activeTranscriptionJobMatches_def split: option.splits)
  have can: "canonical d = canonical d1" using 1(2) canonical_base [of d d1] by (simp add: prunes_def)
  have "jobs_inv d'" using Create_good(1) [OF assms(1,5)] by (simp add: good_def)
  then have uniq: "s = r" if "s \<in> set (jobs d')" "active_status (j_status s) \<and> j_item_image_id s = img" for s
    using that r unfolding jobs_inv_def by blast
  from r(2,3,4) c v show ?thesis
    by (intro bexI [OF _ r(1)] conjI exI [of _ w0] ballI impI uniq) (simp_all add: rev can)
qed

lemma base_lookups:
  assumes "base_frame d d'"
  shows "lockTranscriptionJobWorkspaceByItemImageManual img d = Inr (w, d) \<Longrightarrow>
           lockTranscriptionJobWorkspaceByItemImageManual img d' = Inr (w, d')"
    and "lockContextSnapshotForWorkspace ctx w img d = Inr (p, d) \<Longrightarrow>
           lockContextSnapshotForWorkspace ctx w img d' = Inr (p, d')"
    and "lockCanonicalRevisionForTranscriptionJobManual img d' = lockCanonicalRevisionForTranscriptionJobManual img d"
proof -
  from assms have eq: "images d' = images d" "items d' = items d" "workspaces d' = workspaces d" "pages d' = pages d"
    "contexts d' = contexts d" by (simp_all add: base_frame_def)
  show "lockTranscriptionJobWorkspaceByItemImageManual img d = Inr (w, d) \<Longrightarrow>
           lockTranscriptionJobWorkspaceByItemImageManual img d' = Inr (w, d')"
    unfolding lockTranscriptionJobWorkspaceByItemImageManual_def tx_row_def eq by (auto split: option.splits)
  have c: "lockContextForUseManual ctx ws d = Inr (row, s) \<Longrightarrow> s = d \<and> lockContextForUseManual ctx ws d' = Inr (row, d')" for ws row s
    unfolding lockContextForUseManual_def tx_row_def eq by (auto split: option.splits)
  have t: "getDocumentTypeForItemImage img w d = Inr (v, s) \<Longrightarrow> s = d \<and> getDocumentTypeForItemImage img w d' = Inr (v, d')" for v s
    unfolding getDocumentTypeForItemImage_def tx_row_def eq by (auto split: option.splits)
  show "lockContextSnapshotForWorkspace ctx w img d' = Inr (p, d')" if l: "lockContextSnapshotForWorkspace ctx w img d = Inr (p, d)"
  proof -
    from l obtain row v where "lockContextForUseManual ctx (nullableUint64 w) d = Inr (row, d)" "getDocumentTypeForItemImage img w d = Inr (v, d)"
      unfolding lockContextSnapshotForWorkspace_def tx_bind_Inr using c t by blast
    with l c t show ?thesis by (simp add: lockContextSnapshotForWorkspace_def tx_simps Let_def)
  qed
  show "lockCanonicalRevisionForTranscriptionJobManual img d' = lockCanonicalRevisionForTranscriptionJobManual img d"
    unfolding lockCanonicalRevisionForTranscriptionJobManual_def eq ..
qed

lemma create_round_revision:
  assumes "create_round e policy w img cid snap err ins d = Inr (res, d')"
  obtains v where "lockCanonicalRevisionForTranscriptionJobManual img d = Some v" and "v \<noteq> 0"
  using assms by (cases rule: create_round_cases) auto

lemma matching_round:
  assumes inv: "jobs_inv d" and img: "0 < img" "img < 2 ^ 63" and r: "r \<in> set (jobs d)" "active_status (j_status r)" "j_item_image_id r = img"
    and m: "activeTranscriptionJobMatches r cid snap v"
    and v: "lockCanonicalRevisionForTranscriptionJobManual img d = Some v" "v \<noteq> 0"
  shows "createLocked e policy w img cid snap err ins d = Inr (j_id r, d)"
proof -
  have "find (\<lambda>x. null_eq (j_active_item_image_id x) (Some img)) (jobs d) = Some r"
  proof -
    obtain x where x: "find (\<lambda>x. null_eq (j_active_item_image_id x) (Some img)) (jobs d) = Some x"
      using r by (cases "find (\<lambda>x. null_eq (j_active_item_image_id x) (Some img)) (jobs d)")
        (auto simp: find_None_iff null_eq_def j_active_item_image_id_def)
    then have "x \<in> set (jobs d)" "active_status (j_status x)" "j_item_image_id x = img"
      by (auto dest!: find_Some_mem simp: null_eq_def j_active_item_image_id_def split: if_splits)
    with inv r have "x = r" unfolding jobs_inv_def by blast
    with x show ?thesis by simp
  qed
  then have "lockActiveTranscriptionJobForUpdateManual (nullableUint64 img) d = Some r"
    using img by (simp add: lockActiveTranscriptionJobForUpdateManual_def nullableUint64_def)
  then have "create_round e policy w img cid snap err ins d = Inr (Some (j_id r), d)"
    using m v by (simp add: create_round_def tx_simps tx_no_rows_as_def)
  moreover have "j_id r \<noteq> 0" using jobs_invD(1) [OF inv r(1)] by simp
  ultimately show ?thesis by (simp add: createLocked_def numeral_3_eq_3 tx_simps)
qed

text \<open>
  C25: Creation is idempotent: repeating a successful \<^verbatim>\<open>Create\<close> for the same image and context,
  under any later clock and policy, succeeds with the same job and changes nothing but
  retention.
\<close>

theorem Create_idempotent:
  assumes "jobs_inv d" and "schema_ok d" and "img < 2 ^ 63" and "ctx < 2 ^ 63"
    and "Create e policy img ctx d = Inr (i, d')"
  shows "\<exists>w S d''. Create e' policy' img ctx d' = Inr (i, d'') \<and> prunes w S d' d''"
  using assms
proof (cases rule: Create_round)
  case (1 w S d1 snap)
  have inv': "jobs_inv d'" using Create_good(1) [OF assms(1,5)] by (simp add: good_def)
  have base: "base_frame d d'" by (rule Create_good(2) [OF assms(1,5)])
  have base1: "base_frame d1 d'" and "base_frame d d1" using base 1(2) by (auto simp: base_frame_def prunes_def)
  obtain v where v: "lockCanonicalRevisionForTranscriptionJobManual img d1 = Some v" "v \<noteq> 0"
    by (rule create_round_revision [OF 1(9)])
  obtain w1 where v1: "canonical d1 img w1 v" using lockCanonical_canonical [OF v(1)] by blast
  have "created d' i img ctx snap v"
  proof (rule create_round_first [OF 1(3,4,5) assms(3) 1(6,9)])
    fix i0 v0 w0 assume "Some i = Some i0" "canonical d1 img w0 v0" "created d' i0 img ctx snap v0"
    with canonical_unique [OF 1(4) v1] show ?thesis by auto
  qed
  then obtain r where r: "r \<in> set (jobs d')" "j_id r = i" "active_status (j_status r)" "j_item_image_id r = img"
    "activeTranscriptionJobMatches r (Some ctx) snap v" by (auto simp: created_def)
  obtain d2 T where ret: "retain_loop e' w 99 (int (length (terminal_rows w d'))) d' = Inr ((), d2)" and p: "prunes w T d' d2"
    using retain_loop_runs [OF inv', of 99 e' w] by auto
  have inv2: "jobs_inv d2" using prunes_good [OF inv' p] by (simp add: good_def)
  have base2: "base_frame d' d2" using p by (simp add: prunes_def)
  have "r \<in> set (jobs d2)" using p r(1,3) by (auto simp: prunes_def not_active_iff_terminal [symmetric])
  then have lck: "createLocked e' policy' w img (Some ctx) snap ErrTranscriptionCanonicalPageRequired ins d2 = Inr (i, d2)" for ins
    using matching_round [OF inv2 1(5) assms(3), of r "Some ctx" snap v] r v base_lookups(3) [OF base1] base_lookups(3) [OF base2] by simp
  have ctx: "lockContextSnapshotForWorkspace ctx w img d2 = Inr ((ctx, snap), d2)"
    using base_lookups(2) [OF base_frame_trans [OF base1 base2]] 1(8) by blast
  have "retainTerminalTranscriptionHistory e' w 99 d' = Inr ((), d2)"
    using ret 1(7) by (simp add: retainTerminalTranscriptionHistory_def countTerminalTranscriptionJobsForWorkspaceManual_def
        sql_count_def terminal_rows_def)
  then have "Create e' policy' img ctx d' = Inr (i, d2)"
    using 1(5,6,7) base_lookups(1) [OF base 1(1)] ctx lck assms(4)
    by (simp add: Create_def lockTranscriptionAdmissionWorkspace_def MaxTerminalTranscriptionJobsPerWorkspace_def tx_simps nullableUint64_def)
  with p show ?thesis by blast
qed

lemma insert_count:
  assumes "jobs_inv d" and "createTranscriptionJobManual e img cid snap d = Inr (i, d')" and "i \<noteq> 0"
  shows "countActiveTranscriptionJobsByWorkspaceManual w d' \<le> countActiveTranscriptionJobsByWorkspaceManual w d + 1"
  using assms
proof (cases rule: createTranscriptionJobManual_cases)
  case existing
  then show ?thesis by simp
next
  case (new w' sc v)
  show ?thesis unfolding countActiveTranscriptionJobsByWorkspaceManual_def sql_count_def new(4) by simp
qed

lemma prunes_count:
  "prunes w S d d' \<Longrightarrow> countActiveTranscriptionJobsByWorkspaceManual w' d' = countActiveTranscriptionJobsByWorkspaceManual w' d"
  unfolding prunes_def countActiveTranscriptionJobsByWorkspaceManual_def sql_count_def not_active_iff_terminal [symmetric]
  by (intro arg_cong [where f = length]) (auto intro: filter_cong)

text \<open>
  C26: Creation respects the queue limit: when the active job of the image, if any, belongs to the
  image's workspace, \<^verbatim>\<open>Create\<close> never leaves more pending and running jobs in the workspace than the
  policy allows, unless there already were; then it does not add to them.
\<close>

theorem Create_admission_bound:
  assumes "jobs_inv d" and "schema_ok d" and "img < 2 ^ 63" and "ctx < 2 ^ 63"
    and "Create e policy img ctx d = Inr (i, d')"
    and ws: "lockTranscriptionJobWorkspaceByItemImageManual img d = Inr (w, d)"
    and own: "\<And>r. r \<in> set (jobs d) \<Longrightarrow> active_status (j_status r) \<Longrightarrow> j_item_image_id r = img \<Longrightarrow> j_workspace_id r = w"
  shows "int (countActiveTranscriptionJobsByWorkspaceManual w d') \<le>
     max policy (int (countActiveTranscriptionJobsByWorkspaceManual w d))"
  using assms(1-5)
proof (cases rule: Create_round)
  case (1 w' S d1 snap)
  from ws 1(1) have "w' = w" by simp
  have cnt: "countActiveTranscriptionJobsByWorkspaceManual w d1 = countActiveTranscriptionJobsByWorkspaceManual w d"
    by (rule prunes_count [OF 1(2)])
  from 1(9) show ?thesis
  proof (cases rule: create_round_cases)
    case matched
    with cnt show ?thesis by simp
  next
    case (superseded a v d2 k c)
    note a = lockActive_row [OF superseded(1)]
    have "a \<in> set (jobs d)" using a(1) 1(2) by (simp add: prunes_def)
    then have "j_workspace_id a = w" using own a by simp
    then have aw: "r \<in> set (jobs d1) \<Longrightarrow> j_id r = j_id a \<Longrightarrow> j_workspace_id r = w" for r
      using jobs_inv_unique [OF 1(3) _ a(1)] by blast
    have "countActiveTranscriptionJobsByWorkspaceManual w d2 < countActiveTranscriptionJobsByWorkspaceManual w d1"
      unfolding countActiveTranscriptionJobsByWorkspaceManual_def supersede_active_jobs(1) [OF superseded(5)]
      by (rule sql_count_update_less [OF supersede_active_jobs(4) [OF superseded(5)]])
         (auto simp: aw set_stopped_simps active_status_def)
    moreover have "jobs_inv d2" using supersede_good [OF 1(3) a(1,2) superseded(5)] by (simp add: good_def)
    then have "countActiveTranscriptionJobsByWorkspaceManual w d' \<le> countActiveTranscriptionJobsByWorkspaceManual w d2 + 1"
      by (rule insert_count [OF _ superseded(6,7)])
    ultimately show ?thesis using cnt by simp
  next
    case (admitted v k c)
    from admitted(4) insert_count [OF 1(3) admitted(5,6), of w] \<open>w' = w\<close> show ?thesis by simp
  qed
qed

end
