(* ===== verification/Job_System.thy ===== *)
theory Job_System
  imports Job_Creation
begin

section \<open>The job store as a transition system\<close>

text \<open>
  A step is one committed operation of any actor: a worker's claim, progress report, lease
  renewal, failure, deferral or completion, a checkpoint, a user's cancellation, a creation, or
  a write of another component that leaves the job tables alone. A rolled-back operation is no
  step. The theorems hold in every state a sequence of steps reaches.
\<close>

subsection \<open>Steps\<close>

inductive job_step :: "db \<Rightarrow> db \<Rightarrow> bool" where
  claimed: "uuid_text (uuid e) \<Longrightarrow> claim e i c d = Inr (j, d') \<Longrightarrow> job_step d d'"
| counted: "SetTotalSegments e fence k d = Inr ((), d') \<Longrightarrow> job_step d d'"
| progressed: "UpdateProgress e fence n m i1 i2 i3 d = Inr ((), d') \<Longrightarrow> job_step d d'"
| extended: "ExtendLease e fence t6 d = Inr ((), d') \<Longrightarrow> job_step d d'"
| failed: "failWithWebhookEvent e fence msg eid ety subj body p ra d = Inr (b, d') \<Longrightarrow> job_step d d'"
| completed: "commitTranscriptionCompletion e cp w v d = Inr ((), d') \<Longrightarrow> job_step d d'"
| canceled: "Cancel e i d = Inr ((), d') \<Longrightarrow> job_step d d'"
| saved: "SaveCheckpoint e fence l p d = Inr ((), d') \<Longrightarrow> job_step d d'"
| cleared: "ClearCheckpoints e fence d = Inr ((), d') \<Longrightarrow> job_step d d'"
| created_step: "Create e policy img ctx d = Inr (i, d') \<Longrightarrow> job_step d d'"
| other: "job_frame d d' \<Longrightarrow> job_step d d'"

lemma step_good: "job_step d d' \<Longrightarrow> jobs_inv d \<Longrightarrow> good d d'"
  by (induction rule: job_step.induct)
     (auto intro: claim_good(1) SetTotalSegments_good UpdateProgress_good ExtendLease_good failWithWebhookEvent_good
        commitTranscriptionCompletion_good Cancel_good SaveCheckpoint_good ClearCheckpoints_good Create_good(1) frame_good)

interpretation jobsys: transition_system job_step jobs_inv
  by unfold_locales (auto dest: step_good simp: good_def)

definition initial :: "db \<Rightarrow> bool" where
  "initial d \<longleftrightarrow> jobs d = [] \<and> attempts d = [] \<and> checkpoints d = [] \<and> next_job_id d = 1"

lemma initial_inv: "initial d \<Longrightarrow> jobs_inv d"
  by (simp add: initial_def jobs_inv_def)

lemma steps_evolve:
  assumes "job_step\<^sup>*\<^sup>* d d'" and "jobs_inv d"
  shows "db_evolves d d'"
proof -
  have "jobs_inv d \<and> jobs_inv d' \<and> db_evolves d d'"
  proof (rule jobsys.steps_rel [OF assms])
    show "jobs_inv x \<and> jobs_inv x \<and> db_evolves x x" if "jobs_inv x" for x using that by simp
    show "jobs_inv x \<and> jobs_inv y \<and> db_evolves x y" if "job_step x y" "jobs_inv x" for x y
      using step_good [OF that] that(2) by (simp add: good_def)
    show "jobs_inv x \<and> jobs_inv z \<and> db_evolves x z"
      if "jobs_inv x \<and> jobs_inv y \<and> db_evolves x y" "jobs_inv y \<and> jobs_inv z \<and> db_evolves y z" for x y z
      using that db_evolves_trans by blast
  qed
  then show ?thesis by simp
qed

text \<open>What became of a job that is still there.\<close>

lemma steps_job:
  assumes "job_step\<^sup>*\<^sup>* d d'" and "jobs_inv d" and "r \<in> set (jobs d)" and "r' \<in> set (jobs d')" and "j_id r' = j_id r"
  shows "job_evolves r (attempts_of d (j_id r)) r' (attempts_of d' (j_id r))"
proof -
  have inv': "jobs_inv d'" by (rule jobsys.steps_inv [OF assms(1,2)])
  from steps_evolve [OF assms(1,2)] assms(3-5) obtain r2 where "r2 \<in> set (jobs d')" "j_id r2 = j_id r"
    "job_evolves r (attempts_of d (j_id r)) r2 (attempts_of d' (j_id r))"
    unfolding db_evolves_def by blast
  moreover from this have "r2 = r'" using jobs_inv_unique [OF inv' _ assms(4)] assms(5) by simp
  ultimately show ?thesis by simp
qed

subsection \<open>Invariants of every reachable state\<close>

text \<open>
  C1: In every state that operations can reach from empty job tables, job identifiers and lease
  tokens are unique, every attempt and checkpoint belongs to an existing job, terminal jobs
  have no checkpoints, and every job row satisfies the table's CHECK constraints.
\<close>

theorem reachable_invariant:
  assumes "initial d0" and "job_step\<^sup>*\<^sup>* d0 d"
  shows "jobs_inv d"
  by (rule jobsys.steps_inv [OF assms(2) initial_inv [OF assms(1)]])

text \<open>
  In every reachable state an image has at most one pending or running job.
\<close>

theorem one_active_job_per_image:
  assumes "initial d0" and "job_step\<^sup>*\<^sup>* d0 d"
    and "r \<in> set (jobs d)" and "active_status (j_status r)"
    and "s \<in> set (jobs d)" and "active_status (j_status s)" and "j_item_image_id r = j_item_image_id s"
  shows "r = s"
  using jobsys.steps_inv [OF assms(2) initial_inv [OF assms(1)]] assms(3-7) unfolding jobs_inv_def by blast

text \<open>
  C2: In every reachable state the audit log of a job is complete: its attempts are numbered 1 to
  the attempt count without gaps, within the attempt budget, each with the job's revision and
  context snapshot; all but the last ended in a retryable failure or an expired lease; and an
  attempt is open exactly when the job is running, under the job's lease token.
\<close>

theorem audit_log_complete:
  assumes "initial d0" and "job_step\<^sup>*\<^sup>* d0 d" and "r \<in> set (jobs d)"
  shows "map a_attempt_number (attempts_of d (j_id r)) = [1..j_attempt_count r] \<and>
     int (length (attempts_of d (j_id r))) \<le> j_max_attempts r \<and>
     (\<forall>a \<in> set (attempts_of d (j_id r)).
        a_input_revision a = j_input_revision r \<and> a_context_snapshot a = j_context_snapshot r \<and>
        (a_outcome a = ORunning \<longleftrightarrow> j_status r = Running \<and> j_locked_by r = Some (a_lease_token a))) \<and>
     explains (j_status r) (map a_outcome (attempts_of d (j_id r)))"
proof -
  have inv: "jobs_inv d" by (rule jobsys.steps_inv [OF assms(2) initial_inv [OF assms(1)]])
  let ?L = "attempts_of d (j_id r)"
  note ok = jobs_invD(5) [OF inv assms(3)] and chk = jobs_invD(4) [OF inv assms(3)]
  have num: "map a_attempt_number ?L = [1..j_attempt_count r]" using ok by (simp add: audit_ok_def)
  from arg_cong [OF num, of length] chk have "int (length ?L) \<le> j_max_attempts r"
    by (simp add: job_row_check_def)
  moreover have "a_outcome a = ORunning \<longleftrightarrow> j_status r = Running \<and> j_locked_by r = Some (a_lease_token a)"
    if a: "a \<in> set ?L" for a
  proof
    assume "a_outcome a = ORunning"
    then show "j_status r = Running \<and> j_locked_by r = Some (a_lease_token a)" by (rule audit_running [OF ok a]) simp
  next
    assume run: "j_status r = Running \<and> j_locked_by r = Some (a_lease_token a)"
    from a have ne: "?L \<noteq> []" by auto
    with ok run have tok: "a_lease_token a = a_lease_token (last ?L)" by (simp add: audit_ok_def)
    have "distinct (map a_lease_token ?L)" using inv by (simp add: jobs_inv_def attempts_of_def distinct_map_filter)
    with tok a ne have "a = last ?L" by (simp add: distinct_map inj_on_def)
    moreover have "a_outcome (last ?L) = ORunning"
      using ne ok run audit_last_running [of r "butlast ?L" "last ?L"] by simp
    ultimately show "a_outcome a = ORunning" by simp
  qed
  ultimately show ?thesis using ok num by (auto simp: audit_ok_def list_all_iff)
qed


text \<open>
  C20: The audit log is append-only: whatever operations follow, an attempt keeps its number, input
  revision, context snapshot, lease owner, token and start time, and a closed attempt keeps
  every field.
\<close>

theorem audit_log_append_only:
  assumes "jobs_inv d" and "job_step\<^sup>*\<^sup>* d d'" and "r \<in> set (jobs d)" and "r' \<in> set (jobs d')" and "j_id r' = j_id r"
  shows "length (attempts_of d (j_id r)) \<le> length (attempts_of d' (j_id r)) \<and>
     list_all2 attempt_evolves (attempts_of d (j_id r))
       (take (length (attempts_of d (j_id r))) (attempts_of d' (j_id r))) \<and>
     j_attempt_count r \<le> j_attempt_count r' \<and> same_job r r'"
  using steps_job [OF assms(2,1,3,4,5)] by (simp add: job_evolves_def)

end
