(* ===== verification/Job_Fencing.thy ===== *)
theory Job_Fencing
  imports Job_System
begin

section \<open>Fencing: who may act on a job\<close>

text \<open>
  A worker names its attempt by a fence: job, attempt number, input revision and lease token.
  The theorems show that every worker operation is refused without the matching unexpired
  lease, that two workers never hold one job, that the fence of a closed attempt stays dead in
  every later state, and which job a claim hands out.
\<close>

subsection \<open>The lease a fence claims\<close>

definition holds :: "nat \<Rightarrow> TranscriptionAttemptFence \<Rightarrow> db \<Rightarrow> bool" where
  "holds t fence d \<longleftrightarrow>
     list_ex (lease_held t (JobID fence) (int (AttemptNumber fence)) (InputRevision fence)
                (nullableString (LeaseToken fence))) (jobs d)"

lemma holds_iff:
  "holds t fence d \<longleftrightarrow>
     (\<exists>r \<in> set (jobs d). lease_held t (JobID fence) (int (AttemptNumber fence)) (InputRevision fence)
        (nullableString (LeaseToken fence)) r)"
  by (simp add: holds_def list_ex_iff)

definition in_int32 :: "int \<Rightarrow> bool" where
  "in_int32 v \<longleftrightarrow> - (2 ^ 31) \<le> v \<and> v \<le> 2 ^ 31 - 1"

lemma int32FromInt_ok: "in_int32 v \<Longrightarrow> int32FromInt v = Inr v"
  by (auto simp: in_int32_def int32FromInt_def)

lemma transcriptionAttemptNumberToDB_cases:
  "transcriptionAttemptNumberToDB fence =
     (if validateTranscriptionFence fence then Inr (int (AttemptNumber fence)) else Inl ErrTranscriptionJobFence)"
  by (auto simp: transcriptionAttemptNumberToDB_def int32FromUint32_def validateTranscriptionFence_def)

lemma update_jobs_nobody:
  assumes "\<And>r. r \<in> set (jobs d) \<Longrightarrow> \<not> P r"
  shows "requireFenceAffected (update_jobs P f) d = Inl ErrTranscriptionJobFence"
proof -
  from assms have "update_jobs P f d = Inr (0, d)"
    by (auto simp: update_jobs_def exec_update_def list_ex_iff sql_changed_def sql_update_none filter_empty_conv)
  then show ?thesis
    by (simp add: requireFenceAffected_def requireOneAffected_def tx_no_rows_as_def tx_simps)
qed

lemma not_holds_rows:
  assumes "\<not> holds t fence d"
  shows "find (lease_held t (JobID fence) (int (AttemptNumber fence)) (InputRevision fence)
                (nullableString (LeaseToken fence))) (jobs d) = None"
    and "\<And>r. r \<in> set (jobs d) \<Longrightarrow>
           \<not> lease_held t (JobID fence) (int (AttemptNumber fence)) (InputRevision fence)
                (nullableString (LeaseToken fence)) r"
  using assms by (auto simp: holds_iff find_None_iff)

lemma update_jobs_not_held:
  assumes "\<not> holds t fence d"
  shows "requireFenceAffected (update_jobs (lease_held t (JobID fence) (int (AttemptNumber fence))
           (InputRevision fence) (nullableString (LeaseToken fence))) f) d = Inl ErrTranscriptionJobFence"
  by (rule update_jobs_nobody) (rule not_holds_rows(2) [OF assms])

lemma lock_not_held:
  assumes "\<not> holds (now e) fence d"
  shows "tx_no_rows_as ErrTranscriptionJobFence (lockActiveTranscriptionJobLeaseManual e (JobID fence)
           (int (AttemptNumber fence)) (InputRevision fence) (nullableString (LeaseToken fence))) d =
         Inl ErrTranscriptionJobFence"
  using not_holds_rows(1) [OF assms]
  by (simp add: lockActiveTranscriptionJobLeaseManual_def tx_no_rows_as_def tx_simps)

lemma withCheckpointLease_not_held:
  "\<not> holds (now e) fence d \<Longrightarrow> withCheckpointLease e fence m d = Inl ErrTranscriptionJobFence"
  by (simp add: withCheckpointLease_def transcriptionAttemptNumberToDB_cases lock_not_held tx_simps)

lemma null_eq_coalesce: "null_eq a (Some t) \<Longrightarrow> coalesce_eq a (Some t)"
  by (auto simp: null_eq_def coalesce_eq_def split: option.splits)

lemma Checkpoint_not_held:
  assumes "\<not> holds (now e) fence d"
  shows "Checkpoint e fence d = Inl ErrTranscriptionJobFence"
proof -
  have "find (\<lambda>r. j_id r = JobID fence \<and> j_status r = Running \<and> j_attempt_count r = int (AttemptNumber fence) \<and>
          j_input_revision r = InputRevision fence \<and> null_eq (j_locked_by r) (nullableString (LeaseToken fence)) \<and>
          (case j_lease_until r of None \<Rightarrow> False | Some u \<Rightarrow> now e < u)) (jobs d) = None"
  proof (subst find_None_iff, safe)
    fix r assume r: "r \<in> set (jobs d)" "null_eq (j_locked_by r) (nullableString (LeaseToken fence))"
      and eq: "j_id r = JobID fence" "j_status r = Running" "j_attempt_count r = int (AttemptNumber fence)"
        "j_input_revision r = InputRevision fence"
      and u: "case j_lease_until r of None \<Rightarrow> False | Some u \<Rightarrow> now e < u"
    then have "coalesce_eq (j_locked_by r) (nullableString (LeaseToken fence))"
      by (cases "nullableString (LeaseToken fence)") (auto simp: null_eq_def coalesce_eq_def split: option.splits)
    with r eq u not_holds_rows(2) [OF assms r(1)] show False by (simp add: lease_held_def)
  qed
  then show ?thesis
    by (simp add: Checkpoint_def getTranscriptionCheckpoint_def transcriptionAttemptNumberToDB_cases
        tx_no_rows_as_def tx_simps)
qed

text \<open>Completion closes the attempt first; whatever that does is rolled back.\<close>

lemma finish_completed_cases:
  assumes val: "validateTranscriptionFence fence" and v: "0 < v" "v \<le> 2 ^ 63 - 1"
  shows "finishTranscriptionAttempt e fence OCompleted [] (Some v) d = Inl ErrTranscriptionJobFence \<or>
         (\<exists>as. finishTranscriptionAttempt e fence OCompleted [] (Some v) d = Inr ((), d\<lparr>attempts := as\<rparr>))"
proof -
  let ?P = "\<lambda>a. a_job_id a = JobID fence \<and> a_attempt_number a = int (AttemptNumber fence) \<and>
            a_input_revision a = InputRevision fence \<and> a_lease_token a = LeaseToken fence \<and> a_outcome a = ORunning"
  let ?f = "\<lambda>a. a\<lparr>a_outcome := OCompleted, a_safe_error_message := None, a_result_revision := Some v,
            a_finished_at := Some (max (a_started_at a) (now6 e))\<rparr>"
  from val have "attempt_row_check (?f a)" if "?P a" for a
    using that by (auto simp: attempt_row_check_def validateTranscriptionFence_def)
  then have "\<not> list_ex (\<lambda>a. ?P a \<and> \<not> attempt_row_check (?f a)) (attempts d)" unfolding list_ex_iff by blast
  then have "finishTranscriptionJobAttemptManual e OCompleted None (Some v) (JobID fence) (int (AttemptNumber fence))
      (InputRevision fence) (LeaseToken fence) d =
      Inr (sql_changed ?P ?f (attempts d), d\<lparr>attempts := sql_update ?P ?f (attempts d)\<rparr>)"
    unfolding finishTranscriptionJobAttemptManual_def exec_update_def by (rule if_not_P)
  with val v show ?thesis
    by (auto simp: finishTranscriptionAttempt_def nullableString_def requireFenceAffected_def requireOneAffected_def
        tx_no_rows_as_def tx_simps)
qed

lemma completion_not_held:
  assumes "\<not> holds (now e) (cp_fence cp) d" and "0 < v" and "v \<le> 2 ^ 63 - 1"
  shows "commitTranscriptionCompletion e cp w v d = Inl ErrAnnotationJobFence"
proof (cases "validateTranscriptionFence (cp_fence cp)")
  case True
  have *: "requireFenceAffected (completeTranscriptionJobLeasedManual e (JobID (cp_fence cp)) (int (AttemptNumber (cp_fence cp)))
      (InputRevision (cp_fence cp)) (nullableString (LeaseToken (cp_fence cp)))) (d\<lparr>attempts := as\<rparr>) =
      Inl ErrTranscriptionJobFence" for as
    unfolding completeTranscriptionJobLeasedManual_def
    by (rule update_jobs_not_held) (use assms(1) in \<open>simp add: holds_def\<close>)
  from finish_completed_cases [OF True assms(2,3), of e d] show ?thesis
    by (elim disjE exE)
       (simp_all add: commitTranscriptionCompletion_def Let_def transcriptionAttemptNumberToDB_cases True
         tx_fence_as_def tx_simps *)
qed (simp add: commitTranscriptionCompletion_def Let_def transcriptionAttemptNumberToDB_cases tx_fence_as_def tx_simps)

subsection \<open>The fence is required\<close>

text \<open>
  C4: Without the lease its fence names, a worker can do nothing: when no running job row carries
  the fence's job, attempt, revision and token with a lease that has not expired, every fenced
  operation returns the fence error and commits nothing.
\<close>

theorem fence_guards_every_operation:
  assumes "\<not> holds (now e) fence d"
  shows "(in_int32 k \<longrightarrow> SetTotalSegments e fence k d = Inl ErrTranscriptionJobFence) \<and>
     (in_int32 n \<and> in_int32 m \<longrightarrow> UpdateProgress e fence n m i1 i2 i3 d = Inl ErrTranscriptionJobFence) \<and>
     ExtendLease e fence t6 d = Inl ErrTranscriptionJobFence \<and>
     failWithWebhookEvent e fence msg eid ety subj body permanent ra d = Inl ErrTranscriptionJobFence \<and>
     SaveCheckpoint e fence l p d = Inl ErrTranscriptionJobFence \<and>
     ClearCheckpoints e fence d = Inl ErrTranscriptionJobFence \<and>
     Checkpoint e fence d = Inl ErrTranscriptionJobFence \<and>
     LineCheckpoints e fence d = Inl ErrTranscriptionJobFence \<and>
     (cp_fence cp = fence \<and> 0 < v \<and> v \<le> 2 ^ 63 - 1 \<longrightarrow>
        commitTranscriptionCompletion e cp w v d = Inl ErrAnnotationJobFence)"
  using assms
  by (auto simp: SetTotalSegments_def UpdateProgress_def ExtendLease_def failWithWebhookEvent_def Let_def
      setTranscriptionJobTotalSegmentsManual_def updateTranscriptionJobProgressManual_def extendTranscriptionJobLeaseManual_def
      SaveCheckpoint_def ClearCheckpoints_def LineCheckpoints_def withCheckpointLease_not_held Checkpoint_not_held
      transcriptionAttemptNumberToDB_cases update_jobs_not_held lock_not_held int32FromInt_ok completion_not_held tx_simps)

lemma holder_unique:
  assumes "jobs_inv d" and "holds t f1 d" and "holds t' f2 d" and "JobID f1 = JobID f2"
  shows "AttemptNumber f1 = AttemptNumber f2 \<and> InputRevision f1 = InputRevision f2 \<and>
         nullableString (LeaseToken f1) = nullableString (LeaseToken f2)"
proof -
  from assms(2) obtain r where r: "r \<in> set (jobs d)" and h1: "lease_held t (JobID f1) (int (AttemptNumber f1))
      (InputRevision f1) (nullableString (LeaseToken f1)) r" unfolding holds_iff by blast
  from assms(3) obtain s where s: "s \<in> set (jobs d)" and h2: "lease_held t' (JobID f2) (int (AttemptNumber f2))
      (InputRevision f2) (nullableString (LeaseToken f2)) s" unfolding holds_iff by blast
  have "r = s" using jobs_inv_unique [OF assms(1) r s] lease_heldD(1) [OF h1] lease_heldD(1) [OF h2] assms(4) by simp
  moreover have "j_locked_by r \<noteq> None"
    using jobs_invD(4) [OF assms(1) r] lease_heldD(4) [OF h1] by (simp add: job_row_check_def)
  ultimately show ?thesis
    using h1 h2 by (auto simp: lease_held_def coalesce_eq_def split: option.splits)
qed

text \<open>
  Two workers never hold the same job: any two fences of one job that are accepted, at
  whatever times, agree on attempt number, input revision and lease token.
\<close>

theorem one_holder_per_job:
  assumes "jobs_inv d" and "holds t f1 d" and "holds t' f2 d" and "JobID f1 = JobID f2"
  shows "AttemptNumber f1 = AttemptNumber f2 \<and> InputRevision f1 = InputRevision f2 \<and>
         nullableString (LeaseToken f1) = nullableString (LeaseToken f2)"
  by (rule holder_unique [OF assms])

subsection \<open>A dead fence stays dead\<close>

lemma running_attempt:
  assumes inv: "jobs_inv d" and r: "r \<in> set (jobs d)" and run: "j_status r = Running"
  shows "0 < j_attempt_count r \<and> length (attempts_of d (j_id r)) = nat (j_attempt_count r) \<and>
         a_outcome (attempts_of d (j_id r) ! nat (j_attempt_count r - 1)) = ORunning"
proof -
  let ?L = "attempts_of d (j_id r)"
  note ok = jobs_invD(5) [OF inv r]
  have pos: "0 < j_attempt_count r" using jobs_invD(4) [OF inv r] run by (simp add: job_row_check_def)
  have "map a_attempt_number ?L = [1..j_attempt_count r]" using ok by (simp add: audit_ok_def)
  from arg_cong [OF this, of length] have len: "length ?L = nat (j_attempt_count r)" by simp
  with pos have ne: "?L \<noteq> []" by auto
  then have "audit_ok r (butlast ?L @ [last ?L])" using ok by simp
  from audit_last_running [OF this run] ne len pos show ?thesis
    by (simp add: last_conv_nth nat_diff_distrib)
qed

lemma attempt_position:
  assumes inv: "jobs_inv d" and r: "r \<in> set (jobs d)" and a: "a \<in> set (attempts_of d (j_id r))"
  shows "nat (a_attempt_number a - 1) < length (attempts_of d (j_id r)) \<and>
         attempts_of d (j_id r) ! nat (a_attempt_number a - 1) = a"
proof -
  let ?L = "attempts_of d (j_id r)"
  from a obtain i where i: "i < length ?L" "?L ! i = a" by (auto simp: in_set_conv_nth)
  have m: "map a_attempt_number ?L = [1..j_attempt_count r]"
    using jobs_invD(5) [OF inv r] by (simp add: audit_ok_def)
  from i have "a_attempt_number a = map a_attempt_number ?L ! i" by simp
  also have "\<dots> = 1 + int i" unfolding m using i arg_cong [OF m, of length] by (simp add: nth_upto)
  finally show ?thesis using i by simp
qed

text \<open>
  C3: Once the attempt that a fence names is closed (completed, failed, canceled, superseded,
  given back or expired), the fence is never accepted again: in no later state, at no time and
  with no lease token does that attempt hold the job.
\<close>

theorem closed_attempt_never_holds:
  assumes "jobs_inv d" and "job_step\<^sup>*\<^sup>* d d'"
    and "a \<in> set (attempts d)" and "a_job_id a = JobID fence"
    and "a_attempt_number a = int (AttemptNumber fence)" and "a_outcome a \<noteq> ORunning"
  shows "\<not> holds t fence d'"
proof
  assume "holds t fence d'"
  then obtain r' where r': "r' \<in> set (jobs d')" and h: "j_id r' = JobID fence" "j_status r' = Running"
    "j_attempt_count r' = int (AttemptNumber fence)" by (auto simp: holds_iff lease_held_def)
  from assms(1,3,4) obtain r where r: "r \<in> set (jobs d)" "j_id r = JobID fence" unfolding jobs_inv_def by metis
  let ?A = "attempts_of d (j_id r)" and ?A' = "attempts_of d' (j_id r)" and ?i = "nat (a_attempt_number a - 1)"
  have i: "?i < length ?A" "?A ! ?i = a"
    using attempt_position [OF assms(1) r(1), of a] assms(3,4) r(2) by (auto simp: attempts_of_mem)
  have ev: "job_evolves r ?A r' ?A'" using steps_job [OF assms(2,1) r(1) r'] h(1) r(2) by simp
  then have "attempt_evolves (?A ! ?i) (take (length ?A) ?A' ! ?i)"
    using i(1) unfolding job_evolves_def list_all2_conv_all_nth by blast
  with i assms(6) have "?A' ! ?i = a" by (simp add: attempt_evolves_def)
  moreover have "a_outcome (?A' ! ?i) = ORunning"
    using running_attempt [OF jobsys.steps_inv [OF assms(2,1)] r' h(2)] h r(2) assms(5) by simp
  ultimately show False using assms(6) by simp
qed

end
