(* ===== verification/Job_Claims.thy ===== *)
theory Job_Claims
  imports Job_Fencing
begin

section \<open>Claims: which job a worker gets\<close>

text \<open>
  \<^verbatim>\<open>ClaimNextPending\<close> as its callers rely on it: it hands out the oldest job that may run, under a
  new attempt whose fence is accepted until the lease ends, and reports an empty queue only when
  nothing may run. Jobs whose last lease expired are failed on the way.
\<close>

subsection \<open>Jobs that may run\<close>

definition eligible :: "env \<Rightarrow> job_row \<Rightarrow> bool" where
  "eligible e r \<longleftrightarrow> claimable (now e) r \<and> \<not> row_locked e (j_id r) \<and> j_attempt_count r < j_max_attempts r"

lemma claim_fail_exhausted_jobs:
  assumes inv: "jobs_inv d" and r: "r \<in> set (jobs d)" and j1: "jobs d1 = jobs d"
    and ex: "claim_fail_exhausted e r d1 = Inr (n, d')"
  shows "jobs d' = sql_update (\<lambda>x. j_id x = j_id r)
           (\<lambda>_. set_stopped (now e) Failed (Some ''worker lease expired after maximum attempts'') r) (jobs d)"
proof -
  let ?f = "set_stopped (now e) Failed (Some ''worker lease expired after maximum attempts'')"
  from ex obtain d2 where
    upd: "update_jobs (exhausted (now e) (j_id r) (j_attempt_count r) (j_input_revision r) (j_locked_by r)) ?f d1 = Inr (1, d2)"
    and del: "deleteTranscriptionCheckpoints (j_id r) d2 = Inr (n, d')"
    by (auto simp: claim_fail_exhausted_def failExpiredTranscriptionJobManual_def tx_elims simp del: update_jobs_Inr)
  obtain r0 where r0: "r0 \<in> set (jobs d)" "j_id r0 = j_id r"
    and d2: "d2 = d1\<lparr>jobs := sql_update (\<lambda>x. j_id x = j_id r0) (\<lambda>_. ?f r0) (jobs d)\<rparr>"
    using update_jobs_one [OF upd, of "j_id r"] jobs_inv_distinct [OF inv] j1 by (auto simp: exhausted_def)
  from r0 have "r0 = r" using jobs_inv_unique [OF inv _ r] by simp
  with d2 del show ?thesis by (auto simp: deleteTranscriptionCheckpoints_def tx_elims)
qed

lemma eligible_after_spent:
  assumes j: "jobs d' = sql_update (\<lambda>x. j_id x = j_id r) (\<lambda>_. set_stopped t Failed m r) (jobs d)"
    and r: "r \<in> set (jobs d)" and inv: "jobs_inv d" and no: "\<not> eligible e r"
  shows "s \<in> set (jobs d') \<and> eligible e s \<longleftrightarrow> s \<in> set (jobs d) \<and> eligible e s"
proof -
  have "\<not> eligible e (set_stopped t Failed m r)"
    by (simp add: eligible_def claimable_def pending_due_def lease_expired_def set_stopped_simps)
  moreover have "x = r" if "x \<in> set (jobs d)" "j_id x = j_id r" for x
    using jobs_inv_unique [OF inv that(1) r that(2)] .
  ultimately show ?thesis using no unfolding j set_sql_update by auto
qed

lemma claim_select_next:
  assumes "claim_select e 0 None d = Inr (row, x)" and "s \<in> set (jobs d)" and "claimable (now e) s"
    and "\<not> row_locked e (j_id s)"
  shows "j_created_at row \<le> j_created_at s"
  using assms first_by_min [of j_created_at _ row s]
  by (auto simp: claim_select_def claimNextLeasedTranscriptionJobManual_def tx_elims)

lemma claim_select_empty:
  assumes "claim_select e 0 None d = Inl ErrNoRows" and "s \<in> set (jobs d)" and "\<not> row_locked e (j_id s)"
  shows "\<not> claimable (now e) s"
  using assms
  by (auto simp: claim_select_def claimNextLeasedTranscriptionJobManual_def tx_row_def filter_empty_conv
      split: option.splits)

text \<open>What a round that hands out a job does.\<close>

lemma claim_round_some:
  assumes inv: "jobs_inv d" and u: "uuid_text (uuid e)" and rd: "claim_round e 0 None d = Inr (Claimed (Some j), d')"
  obtains row where "row \<in> set (jobs d)" and "eligible e row"
    and "\<And>s. s \<in> set (jobs d) \<Longrightarrow> eligible e s \<Longrightarrow> j_created_at row \<le> j_created_at s"
    and "jobs d' = sql_update (\<lambda>x. j_id x = j_id row) (\<lambda>_. lease_row e row) (jobs d)"
    and "j = with_attempts (lease_row e row) d'"
  using rd
proof (cases rule: claim_round_cases)
  case (pending row x k)
  note sel = claim_select_row [OF pending(1)]
  have "eligible e row" using sel pending(2) by (simp add: eligible_def claimable_def pending_due_def lease_expired_def)
  moreover from pending(4) have "k = j" by simp
  ultimately show thesis
    using that [of row] sel claim_lease_effect(5,6) [OF inv sel(1) refl u pending(3)] claim_select_next [OF pending(1)]
    by (simp add: eligible_def)
next
  case (renewed row x fence d1 k)
  note sel = claim_select_row [OF renewed(1)]
  have "eligible e row" using sel renewed(4) by (simp add: eligible_def)
  moreover from renewed(7) have "k = j" by simp
  moreover have "jobs d1 = jobs d" by (rule finishTranscriptionAttempt_jobs(1) [OF renewed(5)])
  ultimately show thesis
    using that [of row] sel claim_lease_effect(5,6) [OF inv sel(1) _ u renewed(6)] claim_select_next [OF renewed(1)]
    by (simp add: eligible_def)
qed simp_all

text \<open>A round that goes on fails a job without attempts left and changes no other.\<close>

lemma claim_round_continue_eligible:
  assumes inv: "jobs_inv d" and rd: "claim_round e 0 None d = Inr (Continue, d')"
  shows "s \<in> set (jobs d') \<and> eligible e s \<longleftrightarrow> s \<in> set (jobs d) \<and> eligible e s"
  using rd
proof (cases rule: claim_round_cases)
  case (spent row x fence d1 n)
  note sel = claim_select_row [OF spent(1)]
  from spent(4) have "\<not> eligible e row" by (simp add: eligible_def)
  from eligible_after_spent [OF claim_fail_exhausted_jobs [OF inv sel(1) finishTranscriptionAttempt_jobs(1) [OF spent(5)]
      spent(6)] sel(1) inv this] show ?thesis .
qed simp_all

lemma claim_cases:
  assumes "jobs_inv d" and "uuid_text (uuid e)" and "claim e 0 None d = Inr (res, d')"
  obtains dm where "jobs_inv dm" and "claim_round e 0 None dm = Inr (Claimed res, d')"
    and "\<And>s. s \<in> set (jobs dm) \<and> eligible e s \<longleftrightarrow> s \<in> set (jobs d) \<and> eligible e s"
proof -
  have "\<exists>dm. jobs_inv dm \<and> claim_round e 0 None dm = Inr (Claimed res, d') \<and>
      (\<forall>s. s \<in> set (jobs dm) \<and> eligible e s \<longleftrightarrow> s \<in> set (jobs d) \<and> eligible e s)"
    using assms
  proof (induction e "0::nat" "None::nat option" d rule: claim.induct)
    case (1 e d)
    from "1.prems"(3) obtain st d1 where rd: "claim_round e 0 None d = Inr (st, d1)"
      by (subst (asm) claim.simps) (auto split: sum.splits)
    show ?case
    proof (cases st)
      case (Claimed k)
      with rd "1.prems" show ?thesis by (subst (asm) claim.simps) auto
    next
      case Continue
      with rd "1.prems"(3) have rest: "claim e 0 None d1 = Inr (res, d')" by (subst (asm) claim.simps) simp
      have "jobs_inv d1" using claim_round_good [OF "1.prems"(1,2) rd] by (simp add: good_def)
      from "1.hyps" [OF rd refl Continue this "1.prems"(2) rest]
      show ?thesis using claim_round_continue_eligible [OF "1.prems"(1) rd [unfolded Continue]] by simp
    qed
  qed
  with that show thesis by blast
qed

subsection \<open>The oldest job first\<close>

text \<open>
  C5: \<^verbatim>\<open>ClaimNextPending\<close> hands out the oldest eligible job: pending and due, or running under an
  expired lease, with attempts left and not locked by another transaction. The job's row then
  carries the next attempt number and the new lease, and progress fields are reset.
\<close>

theorem ClaimNextPending_oldest:
  assumes "jobs_inv d" and "uuid_text (uuid e)" and "ClaimNextPending e d = Inr (Some j, d')"
  shows "\<exists>r \<in> set (jobs d). eligible e r \<and> (\<forall>s \<in> set (jobs d). eligible e s \<longrightarrow> j_created_at r \<le> j_created_at s) \<and>
     lease_row e r \<in> set (jobs d') \<and> jb_id j = j_id r \<and> jb_status j = Running \<and>
     jb_attempt_count j = j_attempt_count r + 1 \<and> jb_attempt_count j \<le> j_max_attempts r \<and>
     jb_lease_token j = worker_token e \<and> jb_attempts j = listTranscriptionJobAttemptsManual (j_id r) d'"
proof -
  from assms(3) have "claim e 0 None d = Inr (Some j, d')" by (simp add: ClaimNextPending_def)
  from claim_cases [OF assms(1,2) this] obtain dm where dm: "jobs_inv dm"
    and rd: "claim_round e 0 None dm = Inr (Claimed (Some j), d')"
    and el: "\<And>s. s \<in> set (jobs dm) \<and> eligible e s \<longleftrightarrow> s \<in> set (jobs d) \<and> eligible e s" by blast
  from claim_round_some [OF dm assms(2) rd] obtain r where r: "r \<in> set (jobs dm)" "eligible e r"
    and old: "\<And>s. s \<in> set (jobs dm) \<Longrightarrow> eligible e s \<Longrightarrow> j_created_at r \<le> j_created_at s"
    and j': "jobs d' = sql_update (\<lambda>x. j_id x = j_id r) (\<lambda>_. lease_row e r) (jobs dm)"
    and j: "j = with_attempts (lease_row e r) d'" by blast
  from r(1) have "lease_row e r \<in> set (jobs d')" unfolding j' set_sql_update by auto
  moreover from r el have "r \<in> set (jobs d)" by blast
  moreover from old el have "\<forall>s \<in> set (jobs d). eligible e s \<longrightarrow> j_created_at r \<le> j_created_at s" by blast
  ultimately show ?thesis using r(2)
    by (intro bexI [of _ r])
       (simp_all add: j with_attempts_def rowToTranscriptionJob_def lease_row_def set_leased_def clear_progress_def
         opt_string_def eligible_def)
qed

text \<open>
  C6: An empty answer means an empty queue: when \<^verbatim>\<open>ClaimNextPending\<close> returns no job, no job was
  eligible, and none is left that is due or under an expired lease, other than rows locked by
  another transaction.
\<close>

theorem ClaimNextPending_none:
  assumes "jobs_inv d" and "uuid_text (uuid e)" and "ClaimNextPending e d = Inr (None, d')"
  shows "(\<forall>s \<in> set (jobs d). \<not> eligible e s) \<and>
         (\<forall>s \<in> set (jobs d'). \<not> row_locked e (j_id s) \<longrightarrow> \<not> claimable (now e) s)"
proof -
  from assms(3) have "claim e 0 None d = Inr (None, d')" by (simp add: ClaimNextPending_def)
  from claim_cases [OF assms(1,2) this] obtain dm where
    rd: "claim_round e 0 None dm = Inr (Claimed None, d')"
    and el: "\<And>s. s \<in> set (jobs dm) \<and> eligible e s \<longleftrightarrow> s \<in> set (jobs d) \<and> eligible e s" by blast
  from rd have sel: "claim_select e 0 None d' = Inl ErrNoRows" and "dm = d'"
    by (cases rule: claim_round_cases; simp)+
  with el claim_select_empty [OF sel] show ?thesis unfolding eligible_def by blast
qed

subsection \<open>The lease of a claim\<close>

lemma worker_token_trim: "uuid_text (uuid e) \<Longrightarrow> trim_space (worker_token e) = worker_token e \<and> worker_token e \<noteq> []"
  using worker_token(2) [of e] by (auto simp: nullableString_def Let_def worker_token_def split: if_splits)

lemma claimed_fence:
  assumes inv: "jobs_inv d'" and u: "uuid_text (uuid e)" and m: "lease_row e r \<in> set (jobs d')"
    and c: "j_attempt_count r + 1 \<le> 2 ^ 31 - 1" and t: "t < datetime_of (clock6 e + 600000000)"
  shows "\<exists>fence. job_Fence (with_attempts (lease_row e r) d') = Inr fence \<and> validateTranscriptionFence fence \<and>
           JobID fence = j_id r \<and> LeaseToken fence = worker_token e \<and> holds t fence d'"
proof -
  let ?f = "\<lparr>JobID = j_id r, AttemptNumber = nat (j_attempt_count r + 1), InputRevision = j_input_revision r,
             LeaseToken = worker_token e\<rparr>"
  note lr = lease_row_def set_leased_def clear_progress_def
  from jobs_invD(1,4) [OF inv m] have pos: "0 < j_id r" "0 < j_input_revision r" "0 < j_attempt_count r + 1"
    by (simp_all add: job_row_check_def lr)
  have "job_Fence (with_attempts (lease_row e r) d') = Inr ?f"
    using pos c worker_token_trim [OF u]
    by (simp add: job_Fence_def with_attempts_def rowToTranscriptionJob_def attemptNumberFromInt_def lr opt_string_def)
  moreover have "validateTranscriptionFence ?f"
    using pos c worker_token_trim [OF u] by (simp add: validateTranscriptionFence_def)
  moreover have "holds t ?f d'"
    unfolding holds_iff
    by (rule bexI [OF _ m]) (use pos t worker_token(2) [OF u] in \<open>simp add: lease_held_def lr coalesce_eq_def\<close>)
  ultimately show ?thesis by auto
qed

lemma withCheckpointLease_held:
  assumes "validateTranscriptionFence fence" and "holds (now e) fence d"
  shows "withCheckpointLease e fence (tx_return ()) d = Inr ((), d)"
proof -
  from assms(2) obtain r where "find (lease_held (now e) (JobID fence) (int (AttemptNumber fence)) (InputRevision fence)
      (nullableString (LeaseToken fence))) (jobs d) = Some r"
    by (cases "find (lease_held (now e) (JobID fence) (int (AttemptNumber fence)) (InputRevision fence)
      (nullableString (LeaseToken fence))) (jobs d)") (auto simp: holds_iff find_None_iff)
  with assms(1) show ?thesis
    by (simp add: withCheckpointLease_def transcriptionAttemptNumberToDB_cases lockActiveTranscriptionJobLeaseManual_def
        tx_no_rows_as_def tx_simps)
qed

text \<open>
  C7: The job a worker claims is its own: the fence derived from the claimed job is accepted at
  every time before the lease ends, ten minutes after the claim, unless another operation
  intervenes, and every other fence of this job is refused.
\<close>

theorem claimed_job_is_held:
  assumes "jobs_inv d" and "uuid_text (uuid e)" and "ClaimNextPending e d = Inr (Some j, d')"
    and "jb_attempt_count j \<le> 2 ^ 31 - 1" and "t < datetime_of (clock6 e + 600000000)"
  shows "\<exists>fence. job_Fence j = Inr fence \<and> JobID fence = jb_id j \<and> holds t fence d' \<and>
     (\<forall>e'. now e' = t \<longrightarrow> withCheckpointLease e' fence (tx_return ()) d' = Inr ((), d')) \<and>
     (\<forall>other t'. JobID other = jb_id j \<and> holds t' other d' \<longrightarrow>
        AttemptNumber other = AttemptNumber fence \<and> nullableString (LeaseToken other) = Some (worker_token e))"
proof -
  have cl: "claim e 0 None d = Inr (Some j, d')" using assms(3) by (simp add: ClaimNextPending_def)
  have inv': "jobs_inv d'" using claim_good(1) [OF assms(1,2) cl] by (simp add: good_def)
  from claim_cases [OF assms(1,2) cl] obtain dm where dm: "jobs_inv dm"
    and rd: "claim_round e 0 None dm = Inr (Claimed (Some j), d')" by blast
  from claim_round_some [OF dm assms(2) rd] obtain r where r: "r \<in> set (jobs dm)"
    and j': "jobs d' = sql_update (\<lambda>x. j_id x = j_id r) (\<lambda>_. lease_row e r) (jobs dm)"
    and j: "j = with_attempts (lease_row e r) d'" by blast
  from r have m: "lease_row e r \<in> set (jobs d')" unfolding j' set_sql_update by auto
  have id: "jb_id j = j_id r" by (simp add: j with_attempts_def rowToTranscriptionJob_def)
  have c: "j_attempt_count r + 1 \<le> 2 ^ 31 - 1"
    using assms(4) by (simp add: j with_attempts_def rowToTranscriptionJob_def lease_row_def set_leased_def clear_progress_def)
  from claimed_fence [OF inv' assms(2) m c assms(5)] obtain fence where f: "job_Fence j = Inr fence"
    "validateTranscriptionFence fence" "JobID fence = j_id r" "LeaseToken fence = worker_token e" "holds t fence d'" unfolding j by blast
  have "withCheckpointLease e' fence (tx_return ()) d' = Inr ((), d')" if "now e' = t" for e'
    by (rule withCheckpointLease_held) (use f(2,5) that in simp_all)
  moreover have "AttemptNumber other = AttemptNumber fence \<and> nullableString (LeaseToken other) = Some (worker_token e)"
    if o: "JobID other = jb_id j" "holds t' other d'" for other t'
    using holder_unique [OF inv' o(2) f(5)] o(1) id f(3,4) worker_token(2) [OF assms(2)] by simp
  moreover have "JobID fence = jb_id j" using f(3) id by simp
  ultimately show ?thesis using f(1,5) by blast
qed

end
