(* ===== verification/Job_Outcomes.thy ===== *)
theory Job_Outcomes
  imports Job_Claims
begin

section \<open>How attempts end\<close>

text \<open>
  The end of an attempt as its callers see it: what a failure, a deferral and a completion leave
  of the job, its attempt, its checkpoints and its event; that the holder of a lease can always
  end its attempt; and two places where the row the code leaves differs from what its comments
  or callers expect.
\<close>

subsection \<open>Failure\<close>

lemma retry_delay_bounds: "1 \<le> n \<Longrightarrow> 20 \<le> retry_delay n \<and> retry_delay n \<le> 300"
proof -
  assume "1 \<le> n"
  then have "(2::nat) ^ 1 \<le> 2 ^ nat n" by (intro power_increasing) auto
  then show ?thesis by (simp add: retry_delay_def)
qed

lemma fail_effect:
  assumes inv: "jobs_inv d"
    and fw: "failWithWebhookEvent e fence errMsg eid ety subj body permanent ra d = Inr (terminal, d')"
  obtains r as a where "r \<in> set (jobs d)" and "j_id r = JobID fence" and "0 < j_attempt_count r"
    and "holds (now e) fence d"
    and "terminal \<longleftrightarrow> permanent \<or> j_attempt_count r \<ge> j_max_attempts r"
    and "jobs d' = sql_update (\<lambda>x. j_id x = j_id r)
           (\<lambda>_. fail_set (now e) (nullableString (safeTranscriptionErrorMessage errMsg)) permanent terminal ra r) (jobs d)"
    and "attempts_of d (j_id r) = as @ [a]"
    and "attempts_of d' (j_id r) = as @ [close_attempt (if terminal then OFailed else ORetryableFailed)
           (Some (safeTranscriptionErrorMessage errMsg)) None (now6 e) a]"
    and "checkpoints_of d' (j_id r) = (if terminal then [] else checkpoints_of d (j_id r))"
proof (rule failWithWebhookEvent_stages [OF fw])
  let ?m = "safeTranscriptionErrorMessage errMsg"
  let ?held = "lease_held (now e) (JobID fence) (int (AttemptNumber fence)) (InputRevision fence) (nullableString (LeaseToken fence))"
  let ?f = "fail_set (now e) (nullableString ?m) permanent terminal ra"
  fix hr job x d1 d2 y d3
  assume hr: "find ?held (jobs d) = Some hr"
    and fj: "find (\<lambda>r. j_id r = JobID fence) (jobs d) = Some job"
    and T: "terminal \<longleftrightarrow> permanent \<or> j_attempt_count job \<ge> j_max_attempts job"
    and fin: "finishTranscriptionAttempt e fence (if terminal then OFailed else ORetryableFailed) ?m None d = Inr (x, d1)"
    and upd: "update_jobs ?held ?f d1 = Inr (1, d2)"
    and del: "tx_when terminal (tx_bind (deleteTranscriptionCheckpoints (JobID fence)) (\<lambda>_. tx_return ())) d2 = Inr (y, d3)"
    and ev: "tx_when (terminal \<and> trim_space eid \<noteq> [] \<and> trim_space body \<noteq> [])
           (tx_bind (eventWorkspaceID subj) (\<lambda>w. write_event e eid ety w subj body)) d3 = Inr ((), d')"
  from fj have job: "job \<in> set (jobs d)" "j_id job = JobID fence" by (auto dest: find_Some_mem)
  have "hr \<in> set (jobs d)" "?held hr" using find_Some_mem [OF hr] by auto
  then have h: "holds (now e) fence d" "hr = job"
    using jobs_inv_unique [OF inv _ job(1)] job(2) by (auto simp: holds_iff lease_held_def)
  have pos: "0 < j_attempt_count job"
    using jobs_invD(4) [OF inv job(1)] \<open>?held hr\<close> h(2) by (simp add: lease_held_def job_row_check_def)
  obtain r0 where "r0 \<in> set (jobs d)" "j_id r0 = JobID fence"
    and d2: "d2 = d1\<lparr>jobs := sql_update (\<lambda>x. j_id x = j_id r0) (\<lambda>_. ?f r0) (jobs d)\<rparr>"
    using update_jobs_one [OF upd, of "JobID fence"] jobs_inv_distinct [OF inv] finishTranscriptionAttempt_jobs(1) [OF fin]
    by (auto simp: lease_held_def)
  moreover from this have "r0 = job" using jobs_inv_unique [OF inv _ job(1)] job(2) by simp
  ultimately have j2: "jobs d2 = sql_update (\<lambda>x. j_id x = j_id job) (\<lambda>_. ?f job) (jobs d)"
    and o2: "attempts d2 = attempts d1" "checkpoints d2 = checkpoints d"
    using finishTranscriptionAttempt_jobs(3) [OF fin] by simp_all
  have o3: "jobs d3 = jobs d2" "attempts d3 = attempts d2"
    "checkpoints d3 = (if terminal then sql_delete (\<lambda>c. c_job_id c = JobID fence) (checkpoints d2) else checkpoints d2)"
    using del by (cases terminal; auto simp: deleteTranscriptionCheckpoints_def tx_elims)+
  from event_when_frame [OF ev] have fr: "jobs d' = jobs d3" "attempts d' = attempts d3" "checkpoints d' = checkpoints d3"
    by (simp_all add: job_frame_def)
  have ck: "checkpoints_of d' (j_id job) = (if terminal then [] else checkpoints_of d (j_id job))"
    by (simp add: checkpoints_of_def fr o3 o2 job(2) sql_delete_def)
  have msg: "nullableString (trim_space ?m) = Some ?m"
    using safeTranscriptionErrorMessage_trimmed [of errMsg] by (simp add: nullableString_def)
  from finish_effect [OF inv job(1) job(2) [symmetric] fin] obtain as a where
    L: "attempts_of d (j_id job) = as @ [a]" "attempts_of d1 (j_id job) = as @
         [close_attempt (if terminal then OFailed else ORetryableFailed) (Some ?m) None (now6 e) a]"
    unfolding msg by blast
  have "attempts_of d' (j_id job) = attempts_of d1 (j_id job)" by (simp add: attempts_of_def fr o3 o2)
  with L that [OF job pos h(1) T _ L(1) _ ck] show thesis by (simp add: j2 o3 fr)
qed

lemma fail_set_fields:
  "terminal \<longleftrightarrow> permanent \<or> j_attempt_count r \<ge> j_max_attempts r \<Longrightarrow>
   j_status (fail_set t m permanent terminal ra r) = (if terminal then Failed else Pending) \<and>
   j_error_message (fail_set t m permanent terminal ra r) = m \<and>
   j_locked_by (fail_set t m permanent terminal ra r) = None \<and>
   j_lease_until (fail_set t m permanent terminal ra r) = None \<and>
   j_retry_after (fail_set t m permanent terminal ra r) =
     (if terminal then None else case ra of Some t6 \<Rightarrow> Some (datetime_of t6) | None \<Rightarrow> Some (t + retry_delay (j_attempt_count r)))"
  by (auto simp: fail_set_def set_stopped_def set_deferred_def set_retry_or_failed_def clear_lease_def clear_progress_def
      split: option.splits)

text \<open>
  C21: A reported failure ends the attempt under the categorical message and frees the lease. The
  job fails for good exactly when the failure is permanent or the attempt was the last of the
  budget, and then its checkpoints are gone; otherwise it is pending again, with its checkpoints,
  from the requested time on, or 20 to 300 seconds later.
\<close>

theorem failure_outcome:
  assumes "jobs_inv d"
    and "failWithWebhookEvent e fence errMsg eid ety subj body permanent ra d = Inr (terminal, d')"
  shows "\<exists>r \<in> set (jobs d). \<exists>r' \<in> set (jobs d'). \<exists>as a a'. j_id r = JobID fence \<and> same_job r r' \<and>
     (terminal \<longleftrightarrow> permanent \<or> j_attempt_count r = j_max_attempts r) \<and>
     j_status r' = (if terminal then Failed else Pending) \<and> j_locked_by r' = None \<and>
     j_error_message r' = Some (safeTranscriptionErrorMessage errMsg) \<and>
     (if terminal then j_retry_after r' = None \<and> checkpoints_of d' (j_id r) = []
      else (case ra of Some t6 \<Rightarrow> j_retry_after r' = Some (datetime_of t6)
            | None \<Rightarrow> \<exists>u. j_retry_after r' = Some u \<and> now e + 20 \<le> u \<and> u \<le> now e + 300) \<and>
           checkpoints_of d' (j_id r) = checkpoints_of d (j_id r)) \<and>
     attempts_of d (j_id r) = as @ [a] \<and> attempts_of d' (j_id r) = as @ [a'] \<and>
     a_outcome a' = (if terminal then OFailed else ORetryableFailed) \<and>
     a_safe_error_message a' = Some (safeTranscriptionErrorMessage errMsg)"
proof (rule fail_effect [OF assms])
  let ?m = "safeTranscriptionErrorMessage errMsg"
  let ?f = "fail_set (now e) (nullableString ?m) permanent terminal ra"
  fix r as a
  assume r: "r \<in> set (jobs d)" "j_id r = JobID fence" "0 < j_attempt_count r"
    and T: "terminal \<longleftrightarrow> permanent \<or> j_attempt_count r \<ge> j_max_attempts r"
    and j: "jobs d' = sql_update (\<lambda>x. j_id x = j_id r) (\<lambda>_. ?f r) (jobs d)"
    and L: "attempts_of d (j_id r) = as @ [a]" "attempts_of d' (j_id r) = as @
         [close_attempt (if terminal then OFailed else ORetryableFailed) (Some ?m) None (now6 e) a]"
    and ck: "checkpoints_of d' (j_id r) = (if terminal then [] else checkpoints_of d (j_id r))"
  have m: "?f r \<in> set (jobs d')" using r(1) unfolding j set_sql_update by auto
  have "j_attempt_count r \<le> j_max_attempts r" using jobs_invD(4) [OF assms(1) r(1)] by (simp add: job_row_check_def)
  then have T': "terminal \<longleftrightarrow> permanent \<or> j_attempt_count r = j_max_attempts r" using T by auto
  have msg: "nullableString ?m = Some ?m"
    using safeTranscriptionErrorMessage_trimmed [of errMsg] by (simp add: nullableString_def)
  obtain r' where r': "r' \<in> set (jobs d')" "same_job r r'" "j_status r' = (if terminal then Failed else Pending)"
      "j_locked_by r' = None" "j_error_message r' = Some ?m" "j_retry_after r' = (if terminal then None else case ra of
        Some t6 \<Rightarrow> Some (datetime_of t6) | None \<Rightarrow> Some (now e + retry_delay (j_attempt_count r)))"
    using m fail_set_fields [OF T, of "now e" "nullableString ?m" ra] fail_set_simps'(1) unfolding msg by blast
  obtain a' where a': "attempts_of d' (j_id r) = as @ [a']" "a_outcome a' = (if terminal then OFailed else ORetryableFailed)"
    "a_safe_error_message a' = Some ?m" using L(2) by (simp add: close_attempt_def)
  have retry: "if terminal then j_retry_after r' = None \<and> checkpoints_of d' (j_id r) = []
      else (case ra of Some t6 \<Rightarrow> j_retry_after r' = Some (datetime_of t6)
            | None \<Rightarrow> \<exists>u. j_retry_after r' = Some u \<and> now e + 20 \<le> u \<and> u \<le> now e + 300) \<and>
           checkpoints_of d' (j_id r) = checkpoints_of d (j_id r)"
    using r'(6) ck retry_delay_bounds [of "j_attempt_count r"] r(3) by (cases ra) (simp_all split: if_split)
  show ?thesis
    by (intro bexI [OF _ r(1)] bexI [OF _ r'(1)] exI [of _ as] exI [of _ a] exI [of _ a'] conjI)
       (fact r r' T' retry L(1) a')+
qed

subsection \<open>Completion\<close>

lemma commitTranscriptionCompletion_stages:
  assumes "commitTranscriptionCompletion e cp w v d = Inr (x, d')"
  obtains d1 d2 d3 n where "validateTranscriptionFence (cp_fence cp)"
    and "finishTranscriptionAttempt e (cp_fence cp) OCompleted [] (Some v) d = Inr ((), d1)"
    and "update_jobs (lease_held (now e) (JobID (cp_fence cp)) (int (AttemptNumber (cp_fence cp)))
        (InputRevision (cp_fence cp)) (nullableString (LeaseToken (cp_fence cp)))) (set_completed (now e)) d1 = Inr (1, d2)"
    and "deleteTranscriptionCheckpoints (JobID (cp_fence cp)) d2 = Inr (n, d3)" and "job_frame d3 d'"
  using assms
  unfolding commitTranscriptionCompletion_def Let_def completeTranscriptionJobLeasedManual_def
  by (auto simp: tx_bind_Inr tx_lift_Inr tx_fence_as_Inr requireFenceAffected_Inr tx_when_Inr
      transcriptionAttemptNumberToDB_Inr dest!: write_event_frame split: if_splits)


subsection \<open>The holder can end its attempt\<close>

lemma finish_runs:
  assumes inv: "jobs_inv d" and val: "validateTranscriptionFence fence"
    and tok: "nullableString (LeaseToken fence) = Some (LeaseToken fence)" and h: "holds (now e) fence d"
    and oc: "(oc = OFailed \<or> oc = ORetryableFailed) \<and> m \<noteq> [] \<and> res = None \<or>
             oc = OCompleted \<and> m = [] \<and> (\<exists>v. res = Some v \<and> 0 < v \<and> v \<le> 2 ^ 63 - 1)"
    and m: "trim_space m = m"
  shows "\<exists>d1. finishTranscriptionAttempt e fence oc m res d = Inr ((), d1)"
proof -
  let ?P = "\<lambda>a. a_job_id a = JobID fence \<and> a_attempt_number a = int (AttemptNumber fence) \<and>
            a_input_revision a = InputRevision fence \<and> a_lease_token a = LeaseToken fence \<and> a_outcome a = ORunning"
  let ?f = "\<lambda>a. a\<lparr>a_outcome := oc, a_safe_error_message := nullableString m, a_result_revision := res,
            a_finished_at := Some (max (a_started_at a) (now6 e))\<rparr>"
  from h obtain r where r: "r \<in> set (jobs d)" and held: "j_id r = JobID fence" "j_status r = Running"
    "j_attempt_count r = int (AttemptNumber fence)" "j_input_revision r = InputRevision fence"
    "coalesce_eq (j_locked_by r) (Some (LeaseToken fence))" by (auto simp: holds_iff lease_held_def tok)
  let ?a = "attempts_of d (j_id r) ! nat (j_attempt_count r - 1)"
  note run = running_attempt [OF inv r held(2)] and ok = jobs_invD(5) [OF inv r]
  then have mem: "?a \<in> set (attempts_of d (j_id r))" by simp
  have "a_attempt_number ?a = map a_attempt_number (attempts_of d (j_id r)) ! nat (j_attempt_count r - 1)" using run by simp
  also have "\<dots> = j_attempt_count r" using run ok by (simp add: audit_ok_def nth_upto)
  finally have num: "a_attempt_number ?a = j_attempt_count r" .
  have "j_locked_by r = Some (a_lease_token ?a)" using audit_running [OF ok mem] run by metis
  then have "a_lease_token ?a = LeaseToken fence" using held(5) by (simp add: coalesce_eq_def)
  moreover have "a_input_revision ?a = j_input_revision r" using ok mem by (simp add: audit_ok_def list_all_iff)
  moreover from mem have in_d: "?a \<in> set (attempts d)" "a_job_id ?a = j_id r" by (simp_all add: attempts_of_mem)
  ultimately have P: "?P ?a" using held num run by simp
  have "a_outcome (?f ?a) \<noteq> a_outcome ?a" using oc run by auto
  then have ne: "?f ?a \<noteq> ?a" by metis
  have "distinct (map a_lease_token (attempts d))" using inv by (simp add: jobs_inv_def)
  from sql_changed_unique [OF this in_d(1), of ?P ?f, OF P] P ne have one: "sql_changed ?P ?f (attempts d) = 1"
    by (simp only: if_False)
  have "\<not> list_ex (\<lambda>a. ?P a \<and> \<not> attempt_row_check (?f a)) (attempts d)"
    using val oc m unfolding list_ex_iff by (auto simp: attempt_row_check_def validateTranscriptionFence_def nullableString_def)
  then have "finishTranscriptionJobAttemptManual e oc (nullableString m) res (JobID fence) (int (AttemptNumber fence))
      (InputRevision fence) (LeaseToken fence) d = Inr (1, d\<lparr>attempts := sql_update ?P ?f (attempts d)\<rparr>)"
    unfolding finishTranscriptionJobAttemptManual_def exec_update_def by (simp only: one if_False)
  with val oc m show ?thesis
    by (auto simp: finishTranscriptionAttempt_def requireFenceAffected_def requireOneAffected_def
        tx_no_rows_as_def tx_simps)
qed

lemma held_update_runs:
  assumes inv: "jobs_inv d" and h: "holds (now e) fence d" and j1: "jobs d1 = jobs d"
    and chk: "\<And>r. job_row_check r \<Longrightarrow> j_status r = Running \<Longrightarrow> job_row_check (f r)"
    and ch: "\<And>r. job_row_check r \<Longrightarrow> j_status r = Running \<Longrightarrow> f r \<noteq> r"
  shows "\<exists>d2. requireFenceAffected (update_jobs (lease_held (now e) (JobID fence) (int (AttemptNumber fence))
           (InputRevision fence) (nullableString (LeaseToken fence))) f) d1 = Inr ((), d2)"
proof -
  let ?P = "lease_held (now e) (JobID fence) (int (AttemptNumber fence)) (InputRevision fence) (nullableString (LeaseToken fence))"
  from h obtain r where r: "r \<in> set (jobs d)" "?P r" by (auto simp: holds_iff)
  then have pin: "j_id x = j_id r" if "?P x" for x using that by (simp add: lease_held_def)
  have "f r \<noteq> r" by (rule ch [OF jobs_invD(4) [OF inv r(1)]]) (use r(2) in \<open>simp add: lease_held_def\<close>)
  with sql_changed_unique [OF jobs_inv_distinct [OF inv] r(1), of ?P f, OF r(2) pin]
  have "sql_changed ?P f (jobs d1) = 1" by (simp add: j1)
  moreover have "\<not> list_ex (\<lambda>x. ?P x \<and> \<not> job_row_check (f x)) (jobs d1)"
    using chk jobs_invD(4) [OF inv] unfolding list_ex_iff j1 by (auto simp: lease_held_def)
  ultimately have "update_jobs ?P f d1 = Inr (1, d1\<lparr>jobs := sql_update ?P f (jobs d1)\<rparr>)"
    by (simp add: update_jobs_def exec_update_def)
  then show ?thesis
    by (simp add: requireFenceAffected_def requireOneAffected_def tx_no_rows_as_def tx_simps)
qed

lemma set_ends_run:
  assumes "job_row_check r" and "j_status r = Running"
  shows "job_row_check (set_completed t r)" "set_completed t r \<noteq> r"
    "job_row_check (fail_set t m p q ra r)" "fail_set t m p q ra r \<noteq> r"
proof -
  note d = set_completed_def fail_set_def set_stopped_def set_deferred_def set_retry_or_failed_def clear_lease_def clear_progress_def
  show "job_row_check (set_completed t r)" "job_row_check (fail_set t m p q ra r)"
    using assms by (auto simp: job_row_check_def d split: option.splits)
  have "j_status (set_completed t r) \<noteq> j_status r" "j_status (fail_set t m p q ra r) \<noteq> j_status r"
    using assms(2) by (auto simp: d split: option.splits)
  then show "set_completed t r \<noteq> r" "fail_set t m p q ra r \<noteq> r" by metis+
qed

lemma held_lookup:
  assumes inv: "jobs_inv d" and h: "holds (now e) fence d"
  obtains r where "find (lease_held (now e) (JobID fence) (int (AttemptNumber fence)) (InputRevision fence)
      (nullableString (LeaseToken fence))) (jobs d) = Some r" and "find (\<lambda>x. j_id x = JobID fence) (jobs d) = Some r"
proof -
  let ?P = "lease_held (now e) (JobID fence) (int (AttemptNumber fence)) (InputRevision fence) (nullableString (LeaseToken fence))"
  from h obtain r where r: "r \<in> set (jobs d)" "?P r" by (auto simp: holds_iff)
  have "find ?P (jobs d) = Some r"
    by (rule find_unique [where k = j_id, OF jobs_inv_distinct [OF inv] r(1)]) (use r in \<open>simp_all add: lease_held_def\<close>)
  moreover have "j_id r = JobID fence" using r by (simp add: lease_held_def)
  ultimately show thesis using that find_job_Some [OF inv r(1)] by simp
qed


subsection \<open>Where the row surprises its readers\<close>

text \<open>
  A progress report that changes no column is refused: the driver counts changed rows, so when
  the holder of a valid lease sets the segment count the row already has, in the second of the
  row's last update, the store answers with the error of a lost lease.
\<close>

theorem unchanged_report_looks_like_a_lost_lease:
  assumes "jobs_inv d" and "r \<in> set (jobs d)" and "validateTranscriptionFence fence" and "in_int32 (j_total_segments r)"
    and "lease_held (now e) (JobID fence) (int (AttemptNumber fence)) (InputRevision fence) (nullableString (LeaseToken fence)) r"
    and "j_updated_at r = now e"
  shows "holds (now e) fence d \<and> SetTotalSegments e fence (j_total_segments r) d = Inl ErrTranscriptionJobFence"
proof
  let ?P = "lease_held (now e) (JobID fence) (int (AttemptNumber fence)) (InputRevision fence) (nullableString (LeaseToken fence))"
  show "holds (now e) fence d" unfolding holds_iff using assms(2,5) by blast
  have pin: "j_id x = j_id r" if "?P x" for x using that assms(5) by (simp add: lease_held_def)
  have eq: "set_total (now e) (j_total_segments r) r = r" using assms(6) by (simp add: set_total_def)
  from sql_changed_unique [OF jobs_inv_distinct [OF assms(1)] assms(2), of ?P, OF assms(5) pin]
  have ch: "sql_changed ?P (set_total (now e) (j_total_segments r)) (jobs d) = 0" by (simp add: eq)
  have "job_row_check (set_total (now e) (j_total_segments r) x)" if "x \<in> set (jobs d)" "?P x" for x
    using jobs_inv_unique [OF assms(1) that(1) assms(2) pin [OF that(2)]] eq jobs_invD(4) [OF assms(1,2)] by simp
  then have "\<exists>d2. update_jobs ?P (set_total (now e) (j_total_segments r)) d = Inr (0, d2)"
    using ch by (auto simp: update_jobs_def exec_update_def list_ex_iff)
  then show "SetTotalSegments e fence (j_total_segments r) d = Inl ErrTranscriptionJobFence"
    using assms(3,4)
    by (auto simp: SetTotalSegments_def transcriptionAttemptNumberToDB_cases int32FromInt_ok tx_simps tx_no_rows_as_def
        setTranscriptionJobTotalSegmentsManual_def requireFenceAffected_def requireOneAffected_def)
qed

text \<open>
  A job that fails because its attempts are spent keeps its last progress result: unlike every
  other way to end, \<^verbatim>\<open>retryOrFailTranscriptionJobManual\<close> leaves
  \<^verbatim>\<open>last_result_annotation_json\<close> in the terminal row, although the retention comment says that
  terminal rows discard their transient annotation JSON.
\<close>

theorem spent_job_keeps_annotation_json:
  assumes "jobs_inv d" and "failWithWebhookEvent e fence errMsg eid ety subj body False None d = Inr (True, d')"
  shows "\<exists>r \<in> set (jobs d). \<exists>r' \<in> set (jobs d'). j_id r = JobID fence \<and> j_id r' = j_id r \<and> j_status r' = Failed \<and>
           j_last_result_annotation_json r' = j_last_result_annotation_json r"
proof (rule fail_effect [OF assms])
  fix r
  let ?r' = "fail_set (now e) (nullableString (safeTranscriptionErrorMessage errMsg)) False True None r"
  assume r: "r \<in> set (jobs d)" "j_id r = JobID fence" and T: "True \<longleftrightarrow> False \<or> j_max_attempts r \<le> j_attempt_count r"
    and j: "jobs d' = sql_update (\<lambda>x. j_id x = j_id r) (\<lambda>_. ?r') (jobs d)"
  have "?r' \<in> set (jobs d')" using r(1) unfolding j set_sql_update by auto
  moreover have "j_id ?r' = j_id r" "j_status ?r' = Failed" "j_last_result_annotation_json ?r' = j_last_result_annotation_json r"
    using T by (simp_all add: fail_set_def set_retry_or_failed_def clear_lease_def clear_progress_def)
  ultimately show ?thesis using r by blast
qed

end
