(* ===== verification/Scribe_Demo.thy ===== *)
theory Scribe_Demo
  imports Job_Outcomes
begin

section \<open>A concrete run\<close>

text \<open>
  A small database and a run of the operations on it: one workspace with an item of one image, its
  canonical page and a context; a job is created and claimed three times, and its attempts fail
  until the budget is spent. The theorems about the job store are applied to these states, so each of
  their hypotheses is seen to hold.
\<close>

subsection \<open>The states\<close>

definition demo_uuid :: "char \<Rightarrow> string" where
  "demo_uuid c = replicate 36 c"

definition demo_env :: "nat \<Rightarrow> char \<Rightarrow> env" where
  "demo_env t c =
     \<lparr>now = t, now6 = t * 1000000, clock6 = t * 1000000, uuid = demo_uuid c, hostname = Some ''host'',
      row_locked = (\<lambda>_. False), delivery_locked = (\<lambda>_. False), usage_locked = (\<lambda>_. False),
      reservation_locked = (\<lambda>_. False), cleanup_locked = (\<lambda>_. False)\<rparr>"

definition demo0 :: db where
  "demo0 =
     \<lparr>jobs = [], attempts = [], checkpoints = [], workspaces = [1],
      items = [\<lparr>it_id = ''item'', it_user_id = 1, it_workspace_id = 1, it_name = ''Letter'', it_document_type = Some ''letter'',
        it_source_type = SourceURL, it_source_url = Some ''https://img'', it_source_manifest = None, it_metadata = ''{}'',
        it_external_reference_id = [], it_caller_idempotency_key = [], it_created_at = 50\<rparr>],
      images = [\<lparr>im_id = 7, im_item_id = ''item'', im_workspace_id = 1, im_sequence = 0, im_image_url = ''https://img'', im_storage_bytes = 0,
        im_canvas_uri = Some ''https://canvas'', im_width = Some 100, im_height = Some 200, im_label = None, im_hocr_url = None\<rparr>],
      pages = [\<lparr>pg_item_image_id = 7, pg_workspace_id = 1, pg_page_id = ''https://page'', pg_canvas_uri = ''https://canvas'',
        pg_payload = ''{}'', pg_revision = 3, pg_updated_by_user_id = None\<rparr>],
      contexts = [\<lparr>cx_id = 5, cx_workspace_id = None, cx_document_type = [], cx_members = [(''name'', JStr ''default'')]\<rparr>],
      batch_files = [], requests = [], events = [], deliveries = [],
      subscriptions = [\<lparr>ws_id = 2, ws_workspace_id = 1, ws_target_url = ''https://hook'', ws_target_hash = ''h'',
        ws_signing_secret = replicate 32 (CHR ''s''), ws_created_at = 0, ws_updated_at = 0\<rparr>],
      ocr_runs = [], next_job_id = 1, next_request_id = 1, next_event_id = 1,
      next_delivery_id = 1, next_subscription_id = 3, usages = [], reservations = [], cleanups = [], next_cleanup_id = 1, next_image_id = 8,
      members = [\<lparr>wm_workspace_id = 1, wm_user_id = 1, wm_role = RoleAdmin\<rparr>], batches = [], page_index = [], published_pages = [],
      ground_truths = [], mirrors = [], tombstones = [], current_runs = [], audits = [], next_audit_id = 1,
      review_tokens = [], review_sessions = [], next_review_session_id = 1\<rparr>"

definition demo_fence :: "nat \<Rightarrow> char \<Rightarrow> TranscriptionAttemptFence" where
  "demo_fence n c = \<lparr>JobID = 1, AttemptNumber = n, InputRevision = 3, LeaseToken = ''worker-'' @ demo_uuid c\<rparr>"

definition demo_snapshot :: json where
  "demo_snapshot = JObj [(''document_type'', JStr ''letter''), (''name'', JStr ''default'')]"

definition demo_row ::
    "job_status \<Rightarrow> int \<Rightarrow> nat option \<Rightarrow> (nat \<times> char) option \<Rightarrow> string option \<Rightarrow> nat \<Rightarrow> job_row" where
  "demo_row st n retry lease msg t =
     \<lparr>j_id = 1, j_workspace_id = 1, j_item_image_id = 7, j_context_id = Some 5, j_context_scope_id = Some 0,
      j_context_snapshot = demo_snapshot, j_input_revision = 3, j_status = st, j_total_segments = 0,
      j_completed_segments = 0, j_failed_segments = 0, j_attempt_count = n, j_max_attempts = 3, j_retry_after = retry,
      j_lease_until = map_option fst lease, j_locked_by = map_option (\<lambda>l. ''worker-'' @ demo_uuid (snd l)) lease,
      j_current_annotation_id = None, j_current_annotation_json = None, j_last_result_annotation_json = None,
      j_error_message = msg, j_created_at = 100, j_updated_at = t\<rparr>"

definition demo_attempt :: "int \<Rightarrow> char \<Rightarrow> outcome \<Rightarrow> string option \<Rightarrow> nat \<Rightarrow> nat option \<Rightarrow> attempt_row" where
  "demo_attempt n c oc msg started finished =
     \<lparr>a_job_id = 1, a_attempt_number = n, a_context_snapshot = demo_snapshot, a_input_revision = 3,
      a_lease_owner = ''scribe-worker@host'', a_lease_token = ''worker-'' @ demo_uuid c, a_outcome = oc,
      a_safe_error_message = msg, a_result_revision = None, a_started_at = started, a_finished_at = finished\<rparr>"

definition demo_message :: string where
  "demo_message = ''transcription attempt failed''"

definition demo_closed_attempt :: "int \<Rightarrow> char \<Rightarrow> outcome \<Rightarrow> nat \<Rightarrow> nat \<Rightarrow> attempt_row" where
  "demo_closed_attempt n c oc started finished = demo_attempt n c oc (Some demo_message) started (Some finished)"

definition demo_state :: "job_row \<Rightarrow> attempt_row list \<Rightarrow> db" where
  "demo_state r as = demo0\<lparr>jobs := [r], attempts := as, next_job_id := 2\<rparr>"

definition demo_created :: db where
  "demo_created = demo_state (demo_row Pending 0 None None None 100) []"

definition demo_running :: db where
  "demo_running = demo_state (demo_row Running 1 None (Some (710, CHR ''b'')) None 110)
     [demo_attempt 1 (CHR ''b'') ORunning None 110000000 None]"

definition demo_waiting :: db where
  "demo_waiting = demo_state (demo_row Pending 1 (Some 140) None (Some demo_message) 120)
     [demo_closed_attempt 1 (CHR ''b'') ORetryableFailed 110000000 120000000]"

definition demo_second_run :: db where
  "demo_second_run = demo_state (demo_row Running 2 None (Some (800, CHR ''c'')) None 200)
     [demo_closed_attempt 1 (CHR ''b'') ORetryableFailed 110000000 120000000,
      demo_attempt 2 (CHR ''c'') ORunning None 200000000 None]"

definition demo_waiting_again :: db where
  "demo_waiting_again = demo_state (demo_row Pending 2 (Some 250) None (Some demo_message) 210)
     [demo_closed_attempt 1 (CHR ''b'') ORetryableFailed 110000000 120000000,
      demo_closed_attempt 2 (CHR ''c'') ORetryableFailed 200000000 210000000]"

definition demo_last_run :: db where
  "demo_last_run = demo_state (demo_row Running 3 None (Some (1000, CHR ''d'')) None 400)
     [demo_closed_attempt 1 (CHR ''b'') ORetryableFailed 110000000 120000000,
      demo_closed_attempt 2 (CHR ''c'') ORetryableFailed 200000000 210000000,
      demo_attempt 3 (CHR ''d'') ORunning None 400000000 None]"

definition demo_spent :: db where
  "demo_spent = demo_state (demo_row Failed 3 None None (Some demo_message) 410)
     [demo_closed_attempt 1 (CHR ''b'') ORetryableFailed 110000000 120000000,
      demo_closed_attempt 2 (CHR ''c'') ORetryableFailed 200000000 210000000,
      demo_closed_attempt 3 (CHR ''d'') OFailed 400000000 410000000]"

subsection \<open>The run\<close>

lemma demo_uuid_text:
  "uuid_text (uuid (demo_env t (CHR ''a'')))" "uuid_text (uuid (demo_env t (CHR ''b'')))"
  "uuid_text (uuid (demo_env t (CHR ''c'')))" "uuid_text (uuid (demo_env t (CHR ''d'')))"
  by (simp_all add: demo_env_def uuid_text_def demo_uuid_def list_all_iff)

lemma demo_create: "Create (demo_env 100 (CHR ''a'')) 1000 7 5 demo0 = Inr (1, demo_created)"
  by code_simp

lemma demo_claimed:
  "ClaimNextPending (demo_env 110 (CHR ''b'')) demo_created =
     Inr (Some (with_attempts (hd (jobs demo_running)) demo_running), demo_running)"
  "ClaimNextPending (demo_env 200 (CHR ''c'')) demo_waiting =
     Inr (Some (with_attempts (hd (jobs demo_second_run)) demo_second_run), demo_second_run)"
  "ClaimNextPending (demo_env 400 (CHR ''d'')) demo_waiting_again =
     Inr (Some (with_attempts (hd (jobs demo_last_run)) demo_last_run), demo_last_run)"
  "ClaimNextPending (demo_env 130 (CHR ''c'')) demo_waiting = Inr (None, demo_waiting)"
  by code_simp+

lemma demo_failed:
  "failWithWebhookEvent (demo_env 120 (CHR ''b'')) (demo_fence 1 (CHR ''b'')) ''x'' [] [] [] [] False None demo_running =
     Inr (False, demo_waiting)"
  "failWithWebhookEvent (demo_env 210 (CHR ''c'')) (demo_fence 2 (CHR ''c'')) ''x'' [] [] [] [] False None demo_second_run =
     Inr (False, demo_waiting_again)"
  "failWithWebhookEvent (demo_env 410 (CHR ''d'')) (demo_fence 3 (CHR ''d'')) ''x'' [] [] [] [] False None demo_last_run =
     Inr (True, demo_spent)"
  by code_simp+

lemma demo_steps:
  "job_step\<^sup>*\<^sup>* demo0 demo_created" "job_step\<^sup>*\<^sup>* demo_created demo_running" "job_step\<^sup>*\<^sup>* demo_running demo_waiting"
  "job_step\<^sup>*\<^sup>* demo_waiting demo_last_run" "job_step\<^sup>*\<^sup>* demo_last_run demo_spent"
proof -
  note claim = demo_claimed [unfolded ClaimNextPending_def]
  show "job_step\<^sup>*\<^sup>* demo0 demo_created" by (rule r_into_rtranclp) (rule job_step.created_step [OF demo_create])
  show "job_step\<^sup>*\<^sup>* demo_created demo_running" by (rule r_into_rtranclp) (rule job_step.claimed [OF demo_uuid_text(2) claim(1)])
  show "job_step\<^sup>*\<^sup>* demo_running demo_waiting" by (rule r_into_rtranclp) (rule job_step.failed [OF demo_failed(1)])
  show "job_step\<^sup>*\<^sup>* demo_waiting demo_last_run"
    using job_step.claimed [OF demo_uuid_text(3) claim(2)] job_step.failed [OF demo_failed(2)]
      job_step.claimed [OF demo_uuid_text(4) claim(3)]
    by (meson converse_rtranclp_into_rtranclp rtranclp.rtrancl_refl)
  show "job_step\<^sup>*\<^sup>* demo_last_run demo_spent" by (rule r_into_rtranclp) (rule job_step.failed [OF demo_failed(3)])
qed

lemma demo_initial: "initial demo0"
  by (simp add: initial_def demo0_def)

lemma demo_reach:
  "job_step\<^sup>*\<^sup>* demo0 demo_created" "job_step\<^sup>*\<^sup>* demo0 demo_running" "job_step\<^sup>*\<^sup>* demo0 demo_waiting"
  "job_step\<^sup>*\<^sup>* demo0 demo_last_run" "job_step\<^sup>*\<^sup>* demo0 demo_spent"
  using demo_steps rtranclp_trans [of job_step] by metis+

lemma demo_inv:
  "jobs_inv demo0" "jobs_inv demo_created" "jobs_inv demo_running" "jobs_inv demo_waiting"
  "jobs_inv demo_last_run" "jobs_inv demo_spent"
  using initial_inv [OF demo_initial] demo_reach [THEN jobsys.steps_inv] by blast+

end
