(* ===== verification/Webhook_Subscriptions.thy ===== *)
theory Webhook_Subscriptions
  imports Event_Outbox
begin

section \<open>Webhook subscriptions and the invariant of the outbox\<close>

text \<open>
  \<^verbatim>\<open>internal/store/webhook_subscriptions.go\<close> with the statements of
  \<^verbatim>\<open>internal/db/webhook_subscriptions.sql.go\<close>: creating, listing and deleting the targets of a
  workspace. The invariant \<open>outbox_inv\<close> ties subscriptions, events and deliveries together; the
  last part shows what a statement has to satisfy to keep it. SHA-256 with its hexadecimal
  encoding is the parameter \<open>sha\<close>.
\<close>

subsection \<open>Statements\<close>

definition lockWorkspaceManual :: "nat \<Rightarrow> (db, nat) tx" where
  "lockWorkspaceManual w = tx_row (\<lambda>d. find (\<lambda>x. x = w) (workspaces d))"

definition countWebhookSubscriptionsForWorkspaceManual :: "nat \<Rightarrow> db \<Rightarrow> nat" where
  "countWebhookSubscriptionsForWorkspaceManual w d = sql_count (\<lambda>s. ws_workspace_id s = w) (subscriptions d)"

text \<open>The identity of the inserted row; 0 when the \<^verbatim>\<open>SELECT\<close> behind the \<^verbatim>\<open>INSERT\<close> found no workspace.\<close>

definition createWebhookSubscriptionManual ::
    "env \<Rightarrow> string \<Rightarrow> string \<Rightarrow> string \<Rightarrow> nat \<Rightarrow> (db, nat) tx" where
  "createWebhookSubscriptionManual e target_url target_hash signing_secret w = (\<lambda>d.
     if \<not> list_ex (\<lambda>x. x = w) (workspaces d) then Inr (0, d)
     else if length signing_secret < 32 \<or> length signing_secret > 1024 then Inl ErrCheck
     else if list_ex (\<lambda>s. ws_workspace_id s = w \<and> ws_target_hash s = target_hash) (subscriptions d)
     then Inl ErrDuplicateKey
     else Inr (next_subscription_id d, d\<lparr>subscriptions := subscriptions d @
            [\<lparr>ws_id = next_subscription_id d, ws_workspace_id = w, ws_target_url = target_url,
              ws_target_hash = target_hash, ws_signing_secret = signing_secret,
              ws_created_at = now6 e, ws_updated_at = now6 e\<rparr>],
            next_subscription_id := next_subscription_id d + 1\<rparr>))"

definition getWebhookSubscriptionManual :: "nat \<Rightarrow> nat \<Rightarrow> (db, subscription_row) tx" where
  "getWebhookSubscriptionManual i w =
     tx_row (\<lambda>d. find (\<lambda>s. ws_id s = i \<and> ws_workspace_id s = w) (subscriptions d))"

definition listWebhookSubscriptionsManual :: "nat \<Rightarrow> db \<Rightarrow> subscription_row list" where
  "listWebhookSubscriptionsManual w d =
     sort_key (\<lambda>s. (ws_created_at s, ws_id s)) (filter (\<lambda>s. ws_workspace_id s = w) (subscriptions d))"

definition lockWebhookSubscriptionManual :: "nat \<Rightarrow> nat \<Rightarrow> (db, nat) tx" where
  "lockWebhookSubscriptionManual i w =
     tx_row (\<lambda>d. map_option ws_id (find (\<lambda>s. ws_id s = i \<and> ws_workspace_id s = w) (subscriptions d)))"

definition deleteWebhookDeliveriesForSubscriptionManual :: "nat \<Rightarrow> (db, nat) tx" where
  "deleteWebhookDeliveriesForSubscriptionManual i =
     exec_delete deliveries put_deliveries (\<lambda>w. wd_subscription_id w = i)"

definition deleteWebhookSubscriptionManual :: "nat \<Rightarrow> nat \<Rightarrow> (db, nat) tx" where
  "deleteWebhookSubscriptionManual i w =
     exec_delete subscriptions put_subscriptions (\<lambda>s. ws_id s = i \<and> ws_workspace_id s = w)"

subsection \<open>Operations\<close>

definition MaxWebhookSubscriptionsPerWorkspace :: nat where
  "MaxWebhookSubscriptionsPerWorkspace = 100"

definition MinWebhookSigningSecretBytes :: nat where
  "MinWebhookSigningSecretBytes = 32"

definition MaxWebhookSigningSecretBytes :: nat where
  "MaxWebhookSigningSecretBytes = 1024"

text \<open>What the store returns: the signing secret is loaded only for delivery, so the field stays empty.\<close>

record WebhookSubscription =
  sb_ID :: nat
  sb_WorkspaceID :: nat
  sb_TargetURL :: string
  sb_SigningSecret :: string
  sb_CreatedAt :: nat
  sb_UpdatedAt :: nat

definition webhookSubscriptionFromRow :: "subscription_row \<Rightarrow> WebhookSubscription" where
  "webhookSubscriptionFromRow r =
     \<lparr>sb_ID = ws_id r, sb_WorkspaceID = ws_workspace_id r, sb_TargetURL = ws_target_url r,
      sb_SigningSecret = [], sb_CreatedAt = ws_created_at r, sb_UpdatedAt = ws_updated_at r\<rparr>"

text \<open>\<^verbatim>\<open>errors.As(err, &mysqlErr) && mysqlErr.Number == 1062\<close>.\<close>

definition tx_duplicate_as :: "err \<Rightarrow> (db, 'a) tx \<Rightarrow> (db, 'a) tx" where
  "tx_duplicate_as e m = (\<lambda>s. case m s of Inl ErrDuplicateKey \<Rightarrow> Inl e | r \<Rightarrow> r)"

definition subscription_Create ::
    "(string \<Rightarrow> string) \<Rightarrow> env \<Rightarrow> nat \<Rightarrow> string \<Rightarrow> string \<Rightarrow> (db, WebhookSubscription) tx" where
  "subscription_Create sha e workspaceID rawURL secret =
     (let targetURL = trim_space rawURL in
      if workspaceID = 0 then tx_raise (ErrInvalid ''store and workspace are required'')
      else if targetURL = [] \<or> length targetURL > 2048 then tx_raise (ErrInvalid ''target URL is invalid'')
      else if trim_space secret \<noteq> secret \<or> length secret < MinWebhookSigningSecretBytes \<or>
        length secret > MaxWebhookSigningSecretBytes then tx_raise (ErrInvalid ''signing secret'')
      else
      tx_bind (lockWorkspaceManual workspaceID) (\<lambda>_.
      tx_bind (tx_read (countWebhookSubscriptionsForWorkspaceManual workspaceID)) (\<lambda>count.
      tx_bind (tx_guard (count < MaxWebhookSubscriptionsPerWorkspace) ErrWebhookSubscriptionLimit) (\<lambda>_.
      tx_bind (tx_duplicate_as ErrWebhookSubscriptionExists
        (createWebhookSubscriptionManual e targetURL (sha targetURL) secret workspaceID)) (\<lambda>i.
      tx_bind (tx_guard (0 < i \<and> i < 2 ^ 63) (ErrInvalid ''read inserted identity'')) (\<lambda>_.
      tx_bind (getWebhookSubscriptionManual i workspaceID) (\<lambda>row.
      tx_return (webhookSubscriptionFromRow row))))))))"

definition subscription_List :: "nat \<Rightarrow> (db, WebhookSubscription list) tx" where
  "subscription_List workspaceID =
     (if workspaceID = 0 then tx_raise (ErrInvalid ''store and workspace are required'')
      else tx_read (\<lambda>d. map webhookSubscriptionFromRow (listWebhookSubscriptionsManual workspaceID d)))"

definition subscription_Delete :: "nat \<Rightarrow> nat \<Rightarrow> (db, unit) tx" where
  "subscription_Delete workspaceID subscriptionID =
     (if workspaceID = 0 \<or> subscriptionID = 0 then tx_raise ErrNoRows
      else
      tx_bind (lockWorkspaceManual workspaceID) (\<lambda>_.
      tx_bind (lockWebhookSubscriptionManual subscriptionID workspaceID) (\<lambda>_.
      tx_bind (deleteWebhookDeliveriesForSubscriptionManual subscriptionID) (\<lambda>_.
      tx_bind (deleteWebhookSubscriptionManual subscriptionID workspaceID) (\<lambda>affected.
      tx_guard (affected = 1) ErrNoRows)))))"

subsection \<open>The invariant\<close>

definition delivery_ok :: "delivery_row \<Rightarrow> bool" where
  "delivery_ok w \<longleftrightarrow>
     0 \<le> wd_attempt_count w \<and> wd_attempt_count w \<le> wd_max_attempts w \<and>
     (wd_status w = DPending \<longrightarrow> wd_attempt_count w < wd_max_attempts w) \<and>
     (if wd_status w = DProcessing
      then 0 < wd_attempt_count w \<and> wd_lease_until w \<noteq> None \<and> wd_locked_by w \<noteq> None
      else wd_lease_until w = None \<and> wd_locked_by w = None)"

text \<open>A delivery joins an event and a subscription of one workspace.\<close>

definition delivery_parents :: "event_row list \<Rightarrow> subscription_row list \<Rightarrow> delivery_row \<Rightarrow> bool" where
  "delivery_parents evs subs w \<longleftrightarrow>
     (\<exists>ev \<in> set evs. \<exists>s \<in> set subs. ev_event_id ev = wd_event_id w \<and> ws_id s = wd_subscription_id w \<and>
        ev_workspace_id ev = Some (ws_workspace_id s))"

definition delivery_key :: "delivery_row \<Rightarrow> string \<times> nat" where
  "delivery_key w = (wd_event_id w, wd_subscription_id w)"

definition events_ok :: "db \<Rightarrow> bool" where
  "events_ok d \<longleftrightarrow> distinct (map ev_event_id (events d)) \<and> distinct (map ev_id (events d)) \<and>
     (\<forall>ev \<in> set (events d). 0 < ev_id ev \<and> ev_id ev < next_event_id d)"

definition subscriptions_ok :: "db \<Rightarrow> bool" where
  "subscriptions_ok d \<longleftrightarrow> distinct (map ws_id (subscriptions d)) \<and>
     distinct (map (\<lambda>s. (ws_workspace_id s, ws_target_hash s)) (subscriptions d)) \<and>
     (\<forall>s \<in> set (subscriptions d). 0 < ws_id s \<and> ws_id s < next_subscription_id d) \<and>
     (\<forall>w. sql_count (\<lambda>s. ws_workspace_id s = w) (subscriptions d) \<le> MaxWebhookSubscriptionsPerWorkspace)"

definition deliveries_ok :: "db \<Rightarrow> bool" where
  "deliveries_ok d \<longleftrightarrow> distinct (map wd_id (deliveries d)) \<and> distinct (map delivery_key (deliveries d)) \<and>
     (\<forall>w \<in> set (deliveries d). wd_id w < next_delivery_id d \<and> delivery_ok w \<and>
        delivery_parents (events d) (subscriptions d) w)"

definition outbox_inv :: "db \<Rightarrow> bool" where
  "outbox_inv d \<longleftrightarrow> events_ok d \<and> subscriptions_ok d \<and> deliveries_ok d \<and> 0 < next_event_id d \<and> 0 < next_subscription_id d"

definition outbox_frame :: "db \<Rightarrow> db \<Rightarrow> bool" where
  "outbox_frame d d' \<longleftrightarrow> events d' = events d \<and> subscriptions d' = subscriptions d \<and> deliveries d' = deliveries d \<and>
     next_event_id d' = next_event_id d \<and> next_subscription_id d' = next_subscription_id d \<and>
     next_delivery_id d' = next_delivery_id d"

lemmas outbox_defs = outbox_inv_def events_ok_def subscriptions_ok_def deliveries_ok_def

lemma delivery_parents_mono:
  "delivery_parents evs subs w \<Longrightarrow> set evs \<subseteq> set evs' \<Longrightarrow> set subs \<subseteq> set subs' \<Longrightarrow> delivery_parents evs' subs' w"
  unfolding delivery_parents_def by blast

lemma outbox_frame_refl [simp]: "outbox_frame d d"
  by (simp add: outbox_frame_def)

lemma outbox_frame_trans: "outbox_frame d d' \<Longrightarrow> outbox_frame d' d'' \<Longrightarrow> outbox_frame d d''"
  by (simp add: outbox_frame_def)

lemma outbox_frame_inv: "outbox_frame d d' \<Longrightarrow> outbox_inv d \<Longrightarrow> outbox_inv d'"
  by (simp add: outbox_frame_def outbox_defs)

lemma distinct_map_eqD: "distinct (map k xs) \<Longrightarrow> x \<in> set xs \<Longrightarrow> y \<in> set xs \<Longrightarrow> k x = k y \<Longrightarrow> x = y"
  by (simp add: distinct_map inj_on_def)

lemma outbox_invD:
  assumes "outbox_inv d"
  shows "distinct (map ev_event_id (events d))" "distinct (map ev_id (events d))" "distinct (map ws_id (subscriptions d))"
    "distinct (map wd_id (deliveries d))" "distinct (map delivery_key (deliveries d))"
    "\<And>w. w \<in> set (deliveries d) \<Longrightarrow> delivery_ok w"
    "\<And>w. w \<in> set (deliveries d) \<Longrightarrow> delivery_parents (events d) (subscriptions d) w"
    "\<And>ev. ev \<in> set (events d) \<Longrightarrow> ev_id ev < next_event_id d"
  using assms by (auto simp: outbox_defs)

subsection \<open>Statements that keep it\<close>

text \<open>An \<^verbatim>\<open>UPDATE\<close> of deliveries keeps the invariant when it keeps the identity of every row it touches.\<close>

definition same_delivery :: "delivery_row \<Rightarrow> delivery_row \<Rightarrow> bool" where
  "same_delivery w v \<longleftrightarrow> wd_id v = wd_id w \<and> wd_event_id v = wd_event_id w \<and>
     wd_subscription_id v = wd_subscription_id w \<and> wd_max_attempts v = wd_max_attempts w"

lemma deliveries_update_inv:
  assumes inv: "outbox_inv d" and same: "\<And>w. P w \<Longrightarrow> same_delivery w (f w)"
    and ok: "\<And>w. w \<in> set (deliveries d) \<Longrightarrow> P w \<Longrightarrow> delivery_ok w \<Longrightarrow> delivery_ok (f w)"
  shows "outbox_inv (put_deliveries (sql_update P f (deliveries d)) d)"
proof -
  have keys: "map wd_id (sql_update P f (deliveries d)) = map wd_id (deliveries d)"
    "map delivery_key (sql_update P f (deliveries d)) = map delivery_key (deliveries d)"
    by (rule map_key_sql_update, use same in \<open>simp add: same_delivery_def delivery_key_def\<close>)+
  have "wd_id v < next_delivery_id d \<and> delivery_ok v \<and> delivery_parents (events d) (subscriptions d) v"
    if v: "v \<in> set (sql_update P f (deliveries d))" for v
  proof -
    from v obtain w where w: "w \<in> set (deliveries d)" "v = (if P w then f w else w)"
      by (auto simp: sql_update_def)
    then have "same_delivery w v" using same by (auto simp: same_delivery_def)
    moreover have "delivery_ok v" using w ok outbox_invD(6) [OF inv] by auto
    moreover have "wd_id w < next_delivery_id d" "delivery_parents (events d) (subscriptions d) w"
      using inv w by (auto simp: outbox_defs)
    ultimately show ?thesis by (simp add: same_delivery_def delivery_parents_def)
  qed
  then show ?thesis using inv keys by (simp add: outbox_defs)
qed

lemma update_deliveries_Inr [simp]:
  "update_deliveries P f d = Inr (n, d') \<longleftrightarrow>
     n = sql_changed P f (deliveries d) \<and> d' = put_deliveries (sql_update P f (deliveries d)) d"
  by (auto simp: update_deliveries_def tx_elims)

lemma requireAffectedRow_Inr:
  "requireAffectedRow m d = Inr (x, d') \<longleftrightarrow> (\<exists>n. m d = Inr (n, d') \<and> n \<noteq> 0)"
  by (auto simp: requireAffectedRow_def tx_elims)

text \<open>Deleting deliveries, then rows that no delivery needs any more.\<close>

lemma distinct_map_sql_delete: "distinct (map k xs) \<Longrightarrow> distinct (map k (sql_delete P xs))"
  by (simp add: sql_delete_def distinct_map_filter)

lemma outbox_delete_inv:
  assumes inv: "outbox_inv d"
    and keep: "\<And>w. w \<in> set (deliveries d) \<Longrightarrow> \<not> D w \<Longrightarrow>
      delivery_parents (sql_delete E (events d)) (sql_delete S (subscriptions d)) w"
  shows "outbox_inv (d\<lparr>deliveries := sql_delete D (deliveries d), events := sql_delete E (events d),
     subscriptions := sql_delete S (subscriptions d)\<rparr>)"
proof -
  have "sql_count P (sql_delete S xs) \<le> sql_count P xs" for P and xs :: "subscription_row list"
    by (induction xs) (auto simp: sql_count_def sql_delete_def)
  then have "sql_count P (sql_delete S (subscriptions d)) \<le> n" if "sql_count P (subscriptions d) \<le> n" for P n
    using that order_trans by blast
  with inv keep show ?thesis
    by (auto simp: outbox_defs distinct_map_sql_delete) (auto simp: sql_delete_def)
qed

lemma put_rows_id [simp]:
  "d\<lparr>deliveries := xs, events := events d, subscriptions := subscriptions d\<rparr> = d\<lparr>deliveries := xs\<rparr>"
  "d\<lparr>deliveries := xs, events := events d, subscriptions := ss\<rparr> = d\<lparr>deliveries := xs, subscriptions := ss\<rparr>"
  "d\<lparr>deliveries := xs, events := es, subscriptions := subscriptions d\<rparr> = d\<lparr>deliveries := xs, events := es\<rparr>"
  by simp_all

subsection \<open>The operations on subscriptions keep it\<close>

lemma tx_duplicate_as_Inr [tx_elims]: "tx_duplicate_as e m s = Inr r \<longleftrightarrow> m s = Inr r"
  by (auto simp: tx_duplicate_as_def split: sum.splits err.splits)

lemma subscription_Create_stages:
  assumes "subscription_Create sha e w url secret d = Inr (r, d')"
  obtains i where "sql_count (\<lambda>s. ws_workspace_id s = w) (subscriptions d) < MaxWebhookSubscriptionsPerWorkspace"
    and "createWebhookSubscriptionManual e (trim_space url) (sha (trim_space url)) secret w d = Inr (i, d')" and "0 < i"
  using assms that
  by (auto simp: subscription_Create_def Let_def tx_elims lockWorkspaceManual_def countWebhookSubscriptionsForWorkspaceManual_def
        getWebhookSubscriptionManual_def split: if_splits)

lemma subscription_Create_inv:
  assumes inv: "outbox_inv d" and cr: "subscription_Create sha e w url secret d = Inr (r, d')"
  shows "outbox_inv d'"
proof (rule subscription_Create_stages [OF cr])
  fix i
  let ?s = "\<lparr>ws_id = next_subscription_id d, ws_workspace_id = w, ws_target_url = trim_space url,
       ws_target_hash = sha (trim_space url), ws_signing_secret = secret, ws_created_at = now6 e, ws_updated_at = now6 e\<rparr>"
  assume lim: "sql_count (\<lambda>s. ws_workspace_id s = w) (subscriptions d) < MaxWebhookSubscriptionsPerWorkspace"
    and ins: "createWebhookSubscriptionManual e (trim_space url) (sha (trim_space url)) secret w d = Inr (i, d')" and "0 < i"
  from ins \<open>0 < i\<close> have d': "d' = d\<lparr>subscriptions := subscriptions d @ [?s], next_subscription_id := next_subscription_id d + 1\<rparr>"
    and new: "\<not> list_ex (\<lambda>s. ws_workspace_id s = w \<and> ws_target_hash s = sha (trim_space url)) (subscriptions d)"
    by (auto simp: createWebhookSubscriptionManual_def split: if_splits)
  have "sql_count (\<lambda>s. ws_workspace_id s = v) (subscriptions d @ [?s]) \<le> MaxWebhookSubscriptionsPerWorkspace" for v
    using lim inv by (auto simp: sql_count_def outbox_defs)
  with d' new inv show ?thesis
    by (auto simp: outbox_defs list_ex_iff less_Suc_eq intro: delivery_parents_mono)
qed

lemma subscription_Delete_inv:
  assumes inv: "outbox_inv d" and del: "subscription_Delete w i d = Inr (x, d')"
  shows "outbox_inv d'"
proof -
  from del have "d' = d\<lparr>deliveries := sql_delete (\<lambda>v. wd_subscription_id v = i) (deliveries d),
      subscriptions := sql_delete (\<lambda>s. ws_id s = i \<and> ws_workspace_id s = w) (subscriptions d)\<rparr>"
    by (auto simp: subscription_Delete_def tx_elims lockWorkspaceManual_def lockWebhookSubscriptionManual_def
          deleteWebhookDeliveriesForSubscriptionManual_def deleteWebhookSubscriptionManual_def split: if_splits)
  moreover have "outbox_inv (d\<lparr>deliveries := sql_delete (\<lambda>v. wd_subscription_id v = i) (deliveries d),
      events := sql_delete (\<lambda>_. False) (events d),
      subscriptions := sql_delete (\<lambda>s. ws_id s = i \<and> ws_workspace_id s = w) (subscriptions d)\<rparr>)"
    by (rule outbox_delete_inv [OF inv])
       (use outbox_invD(7) [OF inv] in \<open>fastforce simp: delivery_parents_def sql_delete_def\<close>)
  ultimately show ?thesis by (simp add: sql_delete_def)
qed

end
