(* ===== verification/External_Requests.thy ===== *)
theory External_Requests
  imports Webhook_Subscriptions Job_Store
begin

section \<open>Idempotent external requests\<close>

text \<open>
  The idempotency records of \<^verbatim>\<open>internal/store/transcription_jobs.go\<close> with the statements of
  \<^verbatim>\<open>internal/db/external_requests.sql.go\<close>: reserving a key, completing and failing the operation
  behind it, looking it up, and retention. The text columns \<^verbatim>\<open>source\<close> and \<^verbatim>\<open>idempotency_key\<close> hold
  what callers send and are compared under the collation of the table; the parameter \<open>wt\<close> gives the
  weight of a text in that collation, and no property of it is assumed.
\<close>

subsection \<open>Statements\<close>

definition lockWorkspaceForUseManual :: "nat \<Rightarrow> (db, nat) tx" where
  "lockWorkspaceForUseManual w = tx_row (\<lambda>d. find (\<lambda>x. x = w) (workspaces d))"

definition lockItemForUseManual :: "string \<Rightarrow> nat \<Rightarrow> (db, string) tx" where
  "lockItemForUseManual i w =
     tx_row (\<lambda>d. map_option it_id (find (\<lambda>r. it_id r = i \<and> it_workspace_id r = w) (items d)))"

definition lockItemImageForUseManual :: "nat \<Rightarrow> nat \<Rightarrow> (db, string) tx" where
  "lockItemImageForUseManual i w =
     tx_row (\<lambda>d. map_option im_item_id (find (\<lambda>r. im_id r = i \<and> im_workspace_id r = w) (images d)))"

definition lockTranscriptionJobForExternalRequestUseManual :: "nat \<Rightarrow> nat \<Rightarrow> (db, nat) tx" where
  "lockTranscriptionJobForExternalRequestUseManual i w =
     tx_row (\<lambda>d. map_option j_item_image_id (find (\<lambda>r. j_id r = i \<and> j_workspace_id r = w) (jobs d)))"

definition same_request :: "(string \<Rightarrow> string) \<Rightarrow> nat \<Rightarrow> string \<Rightarrow> string \<Rightarrow> request_row \<Rightarrow> bool" where
  "same_request wt w source key q \<longleftrightarrow>
     rq_workspace_id q = w \<and> wt (rq_source q) = wt source \<and> wt (rq_idempotency_key q) = wt key"

definition selectExternalRequestForUpdateManual :: "(string \<Rightarrow> string) \<Rightarrow> nat \<Rightarrow> string \<Rightarrow> string \<Rightarrow> (db, request_row) tx" where
  "selectExternalRequestForUpdateManual wt w source key = tx_row (\<lambda>d. find (same_request wt w source key) (requests d))"

definition getExternalRequestManual :: "(string \<Rightarrow> string) \<Rightarrow> nat \<Rightarrow> string \<Rightarrow> string \<Rightarrow> (db, request_row) tx" where
  "getExternalRequestManual wt w source key = tx_row (\<lambda>d. find (same_request wt w source key) (requests d))"

text \<open>\<^verbatim>\<open>ON DUPLICATE KEY UPDATE id = LAST_INSERT_ID(id)\<close> leaves an existing row as it is.\<close>

definition insertExternalRequestManual ::
    "(string \<Rightarrow> string) \<Rightarrow> env \<Rightarrow> string \<Rightarrow> string \<Rightarrow> string \<Rightarrow> nat option \<Rightarrow> string option \<Rightarrow> nat \<Rightarrow> string option \<Rightarrow> nat \<Rightarrow>
     (db, unit) tx" where
  "insertExternalRequestManual wt e source key request_hash img event_header lease_until locked_by w = (\<lambda>d.
     if list_ex (\<lambda>x. x = w) (workspaces d) \<and>
        (case img of None \<Rightarrow> True | Some i \<Rightarrow> list_ex (\<lambda>ii. im_workspace_id ii = w \<and> im_id ii = i) (images d)) \<and>
        \<not> list_ex (same_request wt w source key) (requests d)
     then Inr ((), d\<lparr>requests := requests d @
            [\<lparr>rq_id = next_request_id d, rq_workspace_id = w, rq_source = source, rq_idempotency_key = key,
              rq_request_hash = request_hash, rq_status = InProgress, rq_item_id = None, rq_item_image_id = img,
              rq_transcription_job_id = None, rq_session_id = None, rq_event_header = event_header,
              rq_attempt_count = 1, rq_max_attempts = 3, rq_lease_until = Some lease_until,
              rq_locked_by = locked_by, rq_error_message = None, rq_updated_at = now e\<rparr>],
            next_request_id := next_request_id d + 1\<rparr>)
     else Inr ((), d))"

definition update_requests :: "(request_row \<Rightarrow> bool) \<Rightarrow> (request_row \<Rightarrow> request_row) \<Rightarrow> (db, nat) tx" where
  "update_requests = exec_update requests put_requests (\<lambda>_. True)"

definition reclaimExternalRequestManual ::
    "env \<Rightarrow> string option \<Rightarrow> nat option \<Rightarrow> nat \<Rightarrow> string option \<Rightarrow> nat \<Rightarrow> (db, nat) tx" where
  "reclaimExternalRequestManual e event_header img lease_until locked_by i =
     update_requests (\<lambda>q. rq_id q = i)
       (\<lambda>q. q\<lparr>rq_status := InProgress, rq_event_header := event_header, rq_item_id := None,
            rq_item_image_id := (case img of None \<Rightarrow> rq_item_image_id q | Some v \<Rightarrow> Some v),
            rq_transcription_job_id := None, rq_session_id := None, rq_error_message := None,
            rq_attempt_count := rq_attempt_count q + 1, rq_lease_until := Some lease_until,
            rq_locked_by := locked_by, rq_updated_at := now e\<rparr>)"

definition failExternalRequestManual ::
    "(string \<Rightarrow> string) \<Rightarrow> env \<Rightarrow> string option \<Rightarrow> nat \<Rightarrow> string \<Rightarrow> string \<Rightarrow> string option \<Rightarrow> (db, nat) tx" where
  "failExternalRequestManual wt e error_message w source key locked_by =
     update_requests
       (\<lambda>q. same_request wt w source key q \<and> rq_status q = InProgress \<and> null_eq (rq_locked_by q) locked_by)
       (\<lambda>q. q\<lparr>rq_status := RFailed, rq_error_message := error_message, rq_lease_until := None,
            rq_locked_by := None, rq_updated_at := now e\<rparr>)"

text \<open>
  The parents a completion may name: each that is given exists in the workspace, and those given
  together belong together.
\<close>

definition completion_parents :: "nat \<Rightarrow> string option \<Rightarrow> nat option \<Rightarrow> nat option \<Rightarrow> string option \<Rightarrow> db \<Rightarrow> bool" where
  "completion_parents w item img job session d \<longleftrightarrow>
     (item = None \<or> list_ex (\<lambda>i. it_workspace_id i = w \<and> Some (it_id i) = item) (items d)) \<and>
     (img = None \<or> list_ex (\<lambda>ii. im_workspace_id ii = w \<and> Some (im_id ii) = img \<and>
        (item = None \<or> Some (im_item_id ii) = item)) (images d)) \<and>
     (job = None \<or> list_ex (\<lambda>tj. j_workspace_id tj = w \<and> Some (j_id tj) = job \<and>
        (img = None \<or> Some (j_item_image_id tj) = img)) (jobs d)) \<and>
     (session = None \<or> list_ex (\<lambda>run. run_workspace_id run = w \<and> Some (run_session_id run) = session \<and>
        (img = None \<or> Some (run_item_image_id run) = img)) (ocr_runs d)) \<and>
     (item = None \<or> job = None \<or> list_ex (\<lambda>tj. list_ex (\<lambda>ii. im_id ii = j_item_image_id tj \<and>
        j_workspace_id tj = w \<and> Some (j_id tj) = job \<and> im_workspace_id ii = w \<and> Some (im_item_id ii) = item)
        (images d)) (jobs d)) \<and>
     (item = None \<or> session = None \<or> list_ex (\<lambda>run. list_ex (\<lambda>ii. im_id ii = run_item_image_id run \<and>
        run_workspace_id run = w \<and> Some (run_session_id run) = session \<and> im_workspace_id ii = w \<and>
        Some (im_item_id ii) = item) (images d)) (ocr_runs d)) \<and>
     (job = None \<or> session = None \<or> list_ex (\<lambda>tj. list_ex (\<lambda>run. run_workspace_id run = j_workspace_id tj \<and>
        run_item_image_id run = j_item_image_id tj \<and> j_workspace_id tj = w \<and> Some (j_id tj) = job \<and>
        Some (run_session_id run) = session) (ocr_runs d)) (jobs d))"

definition completeExternalRequestManual ::
    "(string \<Rightarrow> string) \<Rightarrow> env \<Rightarrow> string option \<Rightarrow> nat option \<Rightarrow> nat option \<Rightarrow> string option \<Rightarrow> nat \<Rightarrow> string \<Rightarrow> string \<Rightarrow>
     string option \<Rightarrow> (db, nat) tx" where
  "completeExternalRequestManual wt e item img job session w source key locked_by = (\<lambda>d.
     update_requests
       (\<lambda>q. same_request wt w source key q \<and> rq_status q = InProgress \<and> null_eq (rq_locked_by q) locked_by \<and>
          completion_parents w item img job session d)
       (\<lambda>q. q\<lparr>rq_status := RCompleted, rq_item_id := item, rq_item_image_id := img, rq_transcription_job_id := job,
            rq_session_id := session, rq_error_message := None, rq_lease_until := None, rq_locked_by := None,
            rq_updated_at := now e\<rparr>) d)"

definition retainable_request :: "env \<Rightarrow> int \<Rightarrow> request_row \<Rightarrow> bool" where
  "retainable_request e cutoff6 q \<longleftrightarrow>
     int (rq_updated_at q) * 1000000 < cutoff6 \<and>
     (rq_status q = RCompleted \<or> rq_status q = RFailed \<or>
      (rq_status q = InProgress \<and> (case rq_lease_until q of None \<Rightarrow> True | Some u \<Rightarrow> u < now e)))"

definition deleteRetainableExternalRequestsManual :: "env \<Rightarrow> int \<Rightarrow> (db, nat) tx" where
  "deleteRetainableExternalRequestsManual e cutoff6 = (\<lambda>d.
     let ids = take 1000 (map rq_id (sort_key rq_id (filter (retainable_request e cutoff6) (requests d)))) in
     exec_delete requests put_requests (\<lambda>q. List.member ids (rq_id q)) d)"

subsection \<open>Operations\<close>

record ExternalRequest =
  xr_ID :: nat
  xr_WorkspaceID :: nat
  xr_Source :: string
  xr_IdempotencyKey :: string
  xr_RequestHash :: string
  xr_Status :: request_status
  xr_ItemID :: string
  xr_ItemImageID :: nat
  xr_TranscriptionJobID :: nat
  xr_SessionID :: string
  xr_AttemptCount :: int
  xr_MaxAttempts :: int
  xr_ErrorMessage :: string
  xr_LeaseOwner :: string

definition opt_id :: "nat option \<Rightarrow> nat" where
  "opt_id v = (case v of None \<Rightarrow> 0 | Some n \<Rightarrow> n)"

definition dbExternalRequestToStore :: "request_row \<Rightarrow> ExternalRequest" where
  "dbExternalRequestToStore q =
     \<lparr>xr_ID = rq_id q, xr_WorkspaceID = rq_workspace_id q, xr_Source = rq_source q,
      xr_IdempotencyKey = rq_idempotency_key q, xr_RequestHash = rq_request_hash q, xr_Status = rq_status q,
      xr_ItemID = opt_string (rq_item_id q), xr_ItemImageID = opt_id (rq_item_image_id q),
      xr_TranscriptionJobID = opt_id (rq_transcription_job_id q), xr_SessionID = opt_string (rq_session_id q),
      xr_AttemptCount = rq_attempt_count q, xr_MaxAttempts = rq_max_attempts q,
      xr_ErrorMessage = opt_string (rq_error_message q), xr_LeaseOwner = opt_string (rq_locked_by q)\<rparr>"

definition dbExternalRequestModelToStore :: "request_row \<Rightarrow> ExternalRequest" where
  "dbExternalRequestModelToStore q =
     \<lparr>xr_ID = rq_id q, xr_WorkspaceID = rq_workspace_id q, xr_Source = rq_source q,
      xr_IdempotencyKey = rq_idempotency_key q, xr_RequestHash = rq_request_hash q, xr_Status = rq_status q,
      xr_ItemID = opt_string (rq_item_id q), xr_ItemImageID = opt_id (rq_item_image_id q),
      xr_TranscriptionJobID = opt_id (rq_transcription_job_id q), xr_SessionID = opt_string (rq_session_id q),
      xr_AttemptCount = rq_attempt_count q, xr_MaxAttempts = rq_max_attempts q,
      xr_ErrorMessage = opt_string (rq_error_message q), xr_LeaseOwner = opt_string (rq_locked_by q)\<rparr>"

definition request_lease_passed :: "env \<Rightarrow> request_row \<Rightarrow> bool" where
  "request_lease_passed e q \<longleftrightarrow> (case rq_lease_until q of None \<Rightarrow> False | Some u \<Rightarrow> clock6 e > u * 1000000)"

definition staleExternalRequest :: "env \<Rightarrow> request_row \<Rightarrow> bool" where
  "staleExternalRequest e q \<longleftrightarrow>
     rq_status q = InProgress \<and> request_lease_passed e q \<and> rq_attempt_count q < rq_max_attempts q"

definition exhaustedExternalRequest :: "env \<Rightarrow> request_row \<Rightarrow> bool" where
  "exhaustedExternalRequest e q \<longleftrightarrow>
     rq_status q = InProgress \<and> request_lease_passed e q \<and> rq_attempt_count q \<ge> rq_max_attempts q"

definition failedExternalRequestExhausted :: "request_row \<Rightarrow> bool" where
  "failedExternalRequestExhausted q \<longleftrightarrow> rq_status q = RFailed \<and> rq_attempt_count q \<ge> rq_max_attempts q"

text \<open>\<^verbatim>\<open>strings.Trim\<close> with a set of ASCII characters.\<close>

definition trim_set :: "string \<Rightarrow> string \<Rightarrow> string" where
  "trim_set cutset s = rev (dropWhile (List.member cutset) (rev (dropWhile (List.member cutset) s)))"

definition reserve_source :: "string \<Rightarrow> string" where
  "reserve_source rawSource = (let source = trim_space rawSource in if source = [] then ''external'' else source)"

definition reserveExternalRequest ::
    "(string \<Rightarrow> string) \<Rightarrow> env \<Rightarrow> nat \<Rightarrow> string \<Rightarrow> string \<Rightarrow> string \<Rightarrow> string \<Rightarrow> nat \<Rightarrow> (db, ExternalRequest \<times> bool) tx" where
  "reserveExternalRequest wt e workspaceID rawSource rawKey rawHash eventHeader itemImageID =
     (let source = reserve_source rawSource; key = trim_space rawKey; requestHash = trim_space rawHash;
          leaseUntil = datetime_of (clock6 e + 600000000); lockedBy = newLeaseOwner e ''request'' in
      if workspaceID = 0 then tx_raise (ErrInvalid ''workspace id is required'')
      else if length source > 64 then tx_raise (ErrInvalid ''external request source exceeds 64 bytes'')
      else if key = [] then tx_raise (ErrInvalid ''idempotency key is required'')
      else if length key > 128 then tx_raise (ErrInvalid ''idempotency key exceeds 128 bytes'')
      else if length requestHash \<noteq> 64 \<or> trim_set ''0123456789abcdef'' requestHash \<noteq> []
      then tx_raise (ErrInvalid ''request hash must be a lowercase SHA-256 digest'')
      else
      tx_bind (lockWorkspaceForUseManual workspaceID) (\<lambda>_.
      tx_bind (tx_when (itemImageID \<noteq> 0)
        (tx_bind (lockItemImageForUseManual itemImageID workspaceID) (\<lambda>_. tx_return ()))) (\<lambda>_.
      tx_bind (insertExternalRequestManual wt e source key requestHash (nullableUint64 itemImageID)
        (nullableString eventHeader) leaseUntil (nullableString lockedBy) workspaceID) (\<lambda>_.
      tx_bind (selectExternalRequestForUpdateManual wt workspaceID source key) (\<lambda>reqRow.
      let req = dbExternalRequestToStore reqRow in
      if rq_request_hash reqRow \<noteq> requestHash then tx_raise ErrExternalRequestMismatch
      else if rq_locked_by reqRow = Some lockedBy then tx_return (req, True)
      else if failedExternalRequestExhausted reqRow then tx_return (req, False)
      else if exhaustedExternalRequest e reqRow then
        tx_bind (requireAffectedRow (failExternalRequestManual wt e
          (nullableString ''external request attempts exhausted'') workspaceID source key (rq_locked_by reqRow))) (\<lambda>_.
        tx_return (req\<lparr>xr_Status := RFailed, xr_ErrorMessage := ''external request attempts exhausted''\<rparr>, False))
      else if rq_status reqRow = RFailed \<or> staleExternalRequest e reqRow then
        tx_bind (reclaimExternalRequestManual e (nullableString eventHeader) (nullableUint64 itemImageID)
          leaseUntil (nullableString lockedBy) (rq_id reqRow)) (\<lambda>_.
        tx_return (req\<lparr>xr_Status := InProgress, xr_ErrorMessage := [], xr_LeaseOwner := lockedBy,
          xr_AttemptCount := xr_AttemptCount req + 1\<rparr>, True))
      else tx_return (req, False))))))"

definition ReserveExternalRequest ::
    "(string \<Rightarrow> string) \<Rightarrow> env \<Rightarrow> nat \<Rightarrow> string \<Rightarrow> string \<Rightarrow> string \<Rightarrow> string \<Rightarrow> (db, ExternalRequest \<times> bool) tx" where
  "ReserveExternalRequest wt e workspaceID source key requestHash eventHeader =
     reserveExternalRequest wt e workspaceID source key requestHash eventHeader 0"

definition ReserveExternalRequestForItemImage ::
    "(string \<Rightarrow> string) \<Rightarrow> env \<Rightarrow> nat \<Rightarrow> nat \<Rightarrow> string \<Rightarrow> string \<Rightarrow> string \<Rightarrow> string \<Rightarrow> (db, ExternalRequest \<times> bool) tx" where
  "ReserveExternalRequestForItemImage wt e workspaceID itemImageID source key requestHash eventHeader =
     (if itemImageID = 0 then tx_raise (ErrInvalid ''item image id is required'')
      else reserveExternalRequest wt e workspaceID source key requestHash eventHeader itemImageID)"

definition GetExternalRequest :: "(string \<Rightarrow> string) \<Rightarrow> nat \<Rightarrow> string \<Rightarrow> string \<Rightarrow> (db, ExternalRequest) tx" where
  "GetExternalRequest wt workspaceID source key =
     tx_bind (getExternalRequestManual wt workspaceID (trim_space source) (trim_space key)) (\<lambda>row.
     tx_return (dbExternalRequestModelToStore row))"

definition CompleteExternalRequest ::
    "(string \<Rightarrow> string) \<Rightarrow> env \<Rightarrow> nat \<Rightarrow> string \<Rightarrow> string \<Rightarrow> string \<Rightarrow> string \<Rightarrow> nat \<Rightarrow> nat \<Rightarrow> (db, unit) tx" where
  "CompleteExternalRequest wt e workspaceID rawSource rawKey leaseOwner rawItemID itemImageID jobID =
     (let source = trim_space rawSource; key = trim_space rawKey; itemID = trim_space rawItemID in
      if workspaceID = 0 then tx_raise (ErrInvalid ''store and workspace are required'')
      else
      tx_bind (lockWorkspaceForUseManual workspaceID) (\<lambda>_.
      tx_bind (tx_when (itemID \<noteq> []) (tx_bind (lockItemForUseManual itemID workspaceID) (\<lambda>_. tx_return ()))) (\<lambda>_.
      tx_bind (tx_when (itemImageID \<noteq> 0)
        (tx_bind (lockItemImageForUseManual itemImageID workspaceID) (\<lambda>_. tx_return ()))) (\<lambda>_.
      tx_bind (tx_when (jobID \<noteq> 0)
        (tx_bind (lockTranscriptionJobForExternalRequestUseManual jobID workspaceID) (\<lambda>_. tx_return ()))) (\<lambda>_.
      tx_bind (selectExternalRequestForUpdateManual wt workspaceID source key) (\<lambda>_.
      requireAffectedRow (completeExternalRequestManual wt e (nullableString itemID) (nullableUint64 itemImageID)
        (nullableUint64 jobID) None workspaceID source key (nullableString leaseOwner))))))))"

definition safeExternalRequestErrorMessage :: "string \<Rightarrow> string" where
  "safeExternalRequestErrorMessage message = safeDurableFailureMessage durableFailureExternalRequest message"

definition FailExternalRequest :: "(string \<Rightarrow> string) \<Rightarrow> env \<Rightarrow> nat \<Rightarrow> string \<Rightarrow> string \<Rightarrow> string \<Rightarrow> string \<Rightarrow> (db, unit) tx" where
  "FailExternalRequest wt e workspaceID source key leaseOwner errMsg =
     requireAffectedRow (failExternalRequestManual wt e (nullableString (safeExternalRequestErrorMessage errMsg))
       workspaceID source key (nullableString leaseOwner))"

lemma deleteRetainable_shrinks:
  assumes "deleteRetainableExternalRequestsManual e c d = Inr (n, d')" and "0 < n"
  shows "length (requests d') < length (requests d)"
proof -
  have "sql_count P rows + length (sql_delete P rows) = length rows" for P and rows :: "request_row list"
    by (simp add: sql_count_def sql_delete_def sum_length_filter_compl)
  with assms show ?thesis
    by (auto simp: deleteRetainableExternalRequestsManual_def Let_def exec_delete_def) (metis less_add_same_cancel2)
qed

text \<open>Each round is a statement of its own, so an interrupted loop keeps what it has removed.\<close>

function retain_request_batches :: "env \<Rightarrow> int \<Rightarrow> db \<Rightarrow> err option \<times> db" where
  "retain_request_batches e cutoff6 d =
     (case deleteRetainableExternalRequestsManual e cutoff6 d of
        Inl err \<Rightarrow> (Some err, d)
      | Inr (removed, d') \<Rightarrow> if removed < 1000 then (None, d') else retain_request_batches e cutoff6 d')"
  by pat_completeness auto

termination
proof (relation "measure (\<lambda>(e, c, d). length (requests d))")
  fix e c d r n d'
  assume "deleteRetainableExternalRequestsManual e c d = Inr r" and "(n, d') = r" and "\<not> n < (1000::nat)"
  then show "((e, c, d'), (e, c, d)) \<in> measure (\<lambda>(e, c, d). length (requests d))"
    using deleteRetainable_shrinks by auto
qed simp

declare retain_request_batches.simps [simp del]

definition RetainExternalRequests :: "env \<Rightarrow> int \<Rightarrow> db \<Rightarrow> err option \<times> db" where
  "RetainExternalRequests e older_than6 d =
     (let older = (if older_than6 \<le> 0 then 30 * 24 * 3600 * 1000000 else older_than6) in
      retain_request_batches e (int (clock6 e) - older) d)"

end
