(* ===== verification/Resource_Cleanup.thy ===== *)
theory Resource_Cleanup
  imports External_Requests
begin

section \<open>The deletion queue of stored resources\<close>

text \<open>
  \<^verbatim>\<open>internal/store/resource_cleanup.go\<close> with the statements of \<^verbatim>\<open>internal/db/resource_cleanup_outbox.sql.go\<close>.
  A row stands for an object outside the database that has to be deleted. Its generation and lease
  owner fence the worker; \<open>rc_delete_fenced_at\<close> marks an upload that no transaction may refer to any
  more. Retiring and completing an upload also changes quota counters and follows in a later theory.
\<close>

subsection \<open>Statements\<close>

abbreviation update_cleanups :: "(cleanup_row \<Rightarrow> bool) \<Rightarrow> (cleanup_row \<Rightarrow> cleanup_row) \<Rightarrow> (db, nat) tx" where
  "update_cleanups \<equiv> exec_update cleanups put_cleanups (\<lambda>_. True)"

definition cleanup_lease_expired :: "nat \<Rightarrow> cleanup_row \<Rightarrow> bool" where
  "cleanup_lease_expired t r \<longleftrightarrow>
     rc_status r = CProcessing \<and> (case rc_lease_until r of None \<Rightarrow> False | Some u \<Rightarrow> u < t)"

definition cleanup_claimable :: "nat \<Rightarrow> cleanup_row \<Rightarrow> bool" where
  "cleanup_claimable t r \<longleftrightarrow>
     (rc_status r = CPending \<and> rc_next_attempt_at r \<le> t) \<or>
     (cleanup_lease_expired t r \<and> rc_attempt_count r < rc_max_attempts r)"

definition failExhaustedResourceCleanups :: "env \<Rightarrow> (db, nat) tx" where
  "failExhaustedResourceCleanups e =
     update_cleanups (\<lambda>r. cleanup_lease_expired (now e) r \<and> rc_attempt_count r \<ge> rc_max_attempts r)
       (\<lambda>r. r\<lparr>rc_status := (if rc_kind r = UploadBlob then CPending else CFailed),
              rc_next_attempt_at := (if rc_kind r = UploadBlob then now e + 3600 else rc_next_attempt_at r),
              rc_lease_until := None, rc_locked_by := None,
              rc_last_error := Some (case rc_last_error r of Some m \<Rightarrow> m | None \<Rightarrow>
                if rc_kind r = UploadBlob then ''cleanup lease expired; another retry is scheduled''
                else ''cleanup lease expired after maximum attempts''),
              rc_updated_at := now e\<rparr>)"

definition selectResourceCleanupForUpdate :: "env \<Rightarrow> (db, cleanup_row) tx" where
  "selectResourceCleanupForUpdate e = tx_row (\<lambda>d. first_by (\<lambda>r. (rc_next_attempt_at r, rc_updated_at r))
     (filter (\<lambda>r. cleanup_claimable (now e) r \<and> \<not> cleanup_locked e (rc_id r)) (cleanups d)))"

definition markResourceCleanupProcessing :: "env \<Rightarrow> nat \<Rightarrow> string option \<Rightarrow> nat \<Rightarrow> nat \<Rightarrow> (db, nat) tx" where
  "markResourceCleanupProcessing e lease_until locked_by i generation =
     update_cleanups (\<lambda>r. rc_id r = i \<and> rc_generation r = generation \<and> cleanup_claimable (now e) r)
       (\<lambda>r. r\<lparr>rc_status := CProcessing, rc_attempt_count := rc_attempt_count r + 1,
              rc_lease_until := Some lease_until, rc_locked_by := locked_by, rc_updated_at := now e\<rparr>)"

definition lockResourceCleanupByKindKey :: "cleanup_kind \<Rightarrow> string \<Rightarrow> (db, cleanup_row) tx" where
  "lockResourceCleanupByKindKey k key =
     tx_row (\<lambda>d. find (\<lambda>r. rc_kind r = k \<and> rc_resource_key r = key) (cleanups d))"

definition cleanup_leased :: "nat \<Rightarrow> nat \<Rightarrow> string option \<Rightarrow> cleanup_row \<Rightarrow> bool" where
  "cleanup_leased i generation locked_by r \<longleftrightarrow>
     rc_id r = i \<and> rc_generation r = generation \<and> rc_status r = CProcessing \<and> null_eq (rc_locked_by r) locked_by"

definition fenceUploadResourceCleanup :: "env \<Rightarrow> nat \<Rightarrow> nat \<Rightarrow> string option \<Rightarrow> (db, nat) tx" where
  "fenceUploadResourceCleanup e i generation locked_by =
     update_cleanups (\<lambda>r. cleanup_leased i generation locked_by r \<and> rc_kind r = UploadBlob)
       (\<lambda>r. r\<lparr>rc_delete_fenced_at := Some (case rc_delete_fenced_at r of Some t \<Rightarrow> t | None \<Rightarrow> now e),
              rc_updated_at := now e\<rparr>)"

definition completeResourceCleanup :: "nat \<Rightarrow> nat \<Rightarrow> string option \<Rightarrow> (db, nat) tx" where
  "completeResourceCleanup i generation locked_by =
     exec_delete cleanups put_cleanups (\<lambda>r. cleanup_leased i generation locked_by r \<and>
       (rc_kind r \<noteq> UploadBlob \<or> rc_delete_fenced_at r = None))"

definition completeFencedUploadResourceCleanup :: "nat \<Rightarrow> nat \<Rightarrow> string option \<Rightarrow> (db, nat) tx" where
  "completeFencedUploadResourceCleanup i generation locked_by =
     exec_delete cleanups put_cleanups (\<lambda>r. cleanup_leased i generation locked_by r \<and>
       rc_kind r = UploadBlob \<and> rc_delete_fenced_at r \<noteq> None)"

definition deleteResourceCleanupByKindKey :: "cleanup_kind \<Rightarrow> string \<Rightarrow> (db, nat) tx" where
  "deleteResourceCleanupByKindKey k key =
     exec_delete cleanups put_cleanups (\<lambda>r. rc_kind r = k \<and> rc_resource_key r = key)"

definition resizeStagedUploadCleanup :: "env \<Rightarrow> nat \<Rightarrow> nat \<Rightarrow> nat \<Rightarrow> string \<Rightarrow> (db, nat) tx" where
  "resizeStagedUploadCleanup e w storage_bytes next_attempt_at key =
     update_cleanups (\<lambda>r. rc_kind r = UploadBlob \<and> rc_resource_key r = key)
       (\<lambda>r. r\<lparr>rc_workspace_id := w, rc_storage_bytes := max (rc_storage_bytes r) storage_bytes,
              rc_next_attempt_at := max (rc_next_attempt_at r) next_attempt_at, rc_updated_at := now e\<rparr>)"

definition retryResourceCleanup :: "env \<Rightarrow> nat \<Rightarrow> string option \<Rightarrow> nat \<Rightarrow> nat \<Rightarrow> string option \<Rightarrow> (db, nat) tx" where
  "retryResourceCleanup e next_attempt_at last_error i generation locked_by =
     update_cleanups (cleanup_leased i generation locked_by)
       (\<lambda>r. r\<lparr>rc_status := (if rc_kind r = UploadBlob \<or> rc_attempt_count r < rc_max_attempts r then CPending else CFailed),
              rc_next_attempt_at := next_attempt_at, rc_lease_until := None, rc_locked_by := None,
              rc_last_error := last_error, rc_updated_at := now e\<rparr>)"

text \<open>\<^verbatim>\<open>INSERT \<dots> ON DUPLICATE KEY UPDATE\<close> on the unique key of kind and resource.\<close>

definition upsertResourceCleanup :: "env \<Rightarrow> cleanup_kind \<Rightarrow> string \<Rightarrow> nat \<Rightarrow> nat \<Rightarrow> nat \<Rightarrow> (db, unit) tx" where
  "upsertResourceCleanup e k key w storage_bytes next_attempt_at = (\<lambda>d.
     let same = (\<lambda>r. rc_kind r = k \<and> rc_resource_key r = key) in
     if list_ex same (cleanups d) then
       Inr ((), put_cleanups (sql_update same (\<lambda>r. r\<lparr>
         rc_workspace_id := (if w > 0 then w else rc_workspace_id r),
         rc_storage_bytes := max (rc_storage_bytes r) storage_bytes, rc_generation := rc_generation r + 1,
         rc_status := CPending, rc_attempt_count := 0,
         rc_next_attempt_at := max next_attempt_at (case rc_lease_until r of Some u \<Rightarrow> u | None \<Rightarrow> now e),
         rc_lease_until := None, rc_locked_by := None, rc_last_error := None, rc_updated_at := now e\<rparr>) (cleanups d)) d)
     else Inr ((), d\<lparr>cleanups := cleanups d @
       [\<lparr>rc_id = next_cleanup_id d, rc_kind = k, rc_resource_key = key, rc_workspace_id = w,
         rc_storage_bytes = storage_bytes, rc_generation = 1, rc_delete_fenced_at = None, rc_status = CPending,
         rc_attempt_count = 0, rc_max_attempts = 20, rc_next_attempt_at = next_attempt_at, rc_lease_until = None,
         rc_locked_by = None, rc_last_error = None, rc_created_at = now e, rc_updated_at = now e\<rparr>],
       next_cleanup_id := next_cleanup_id d + 1\<rparr>))"

subsection \<open>Operations\<close>

record ResourceCleanupDelivery =
  rd_ID :: nat
  rd_Kind :: cleanup_kind
  rd_ResourceKey :: string
  rd_WorkspaceID :: nat
  rd_StorageBytes :: nat
  rd_Generation :: nat
  rd_LeaseOwner :: string
  rd_Attempt :: int
  rd_MaxAttempts :: int

definition requireCleanupAffected :: "(db, nat) tx \<Rightarrow> (db, unit) tx" where
  "requireCleanupAffected m = tx_bind m (\<lambda>n. tx_guard (n = 1) ErrResourceCleanupLease)"

definition ClaimResourceCleanup :: "env \<Rightarrow> int \<Rightarrow> (db, ResourceCleanupDelivery option) tx" where
  "ClaimResourceCleanup e duration6 =
     (let leaseDuration = (if duration6 \<le> 0 then 30 * 1000000 else duration6);
          leaseOwner = newLeaseOwner e ''resource-cleanup'' in
      tx_bind (failExhaustedResourceCleanups e) (\<lambda>_.
      tx_bind (tx_optional (selectResourceCleanupForUpdate e)) (\<lambda>found.
      case found of
        None \<Rightarrow> tx_return None
      | Some row \<Rightarrow>
          tx_bind (markResourceCleanupProcessing e (datetime_of (clock6 e + nat leaseDuration)) (nullableString leaseOwner)
            (rc_id row) (rc_generation row)) (\<lambda>affected.
          if affected \<noteq> 1 then tx_return None
          else tx_return (Some
            \<lparr>rd_ID = rc_id row, rd_Kind = rc_kind row, rd_ResourceKey = rc_resource_key row,
             rd_WorkspaceID = rc_workspace_id row, rd_StorageBytes = rc_storage_bytes row,
             rd_Generation = rc_generation row, rd_LeaseOwner = leaseOwner,
             rd_Attempt = rc_attempt_count row + 1, rd_MaxAttempts = rc_max_attempts row\<rparr>)))))"

definition lockUploadCleanupForReference :: "nat \<Rightarrow> string \<Rightarrow> (db, cleanup_row option) tx" where
  "lockUploadCleanupForReference workspaceID resourceKey =
     tx_bind (tx_optional (lockResourceCleanupByKindKey UploadBlob resourceKey)) (\<lambda>found.
     case found of
       None \<Rightarrow> tx_return None
     | Some cleanup \<Rightarrow>
         if rc_workspace_id cleanup \<noteq> workspaceID
         then tx_raise (ErrInvalid ''immutable upload identity belongs to another workspace'')
         else if rc_delete_fenced_at cleanup \<noteq> None then tx_raise ErrUploadBlobRetired
         else tx_return (Some cleanup))"

definition RetryResourceCleanup :: "env \<Rightarrow> ResourceCleanupDelivery \<Rightarrow> string option \<Rightarrow> nat \<Rightarrow> (db, unit) tx" where
  "RetryResourceCleanup e delivery cause nextAttempt6 =
     requireCleanupAffected (retryResourceCleanup e (datetime_of nextAttempt6)
       (nullableString (SafeResourceCleanupFailureMessage cause)) (rd_ID delivery) (rd_Generation delivery)
       (nullableString (rd_LeaseOwner delivery)))"

end
