(* ===== verification/Storage_Quota.thy ===== *)
theory Storage_Quota
  imports Upload_Reference Resource_Cleanup "HOL-Library.List_Lexorder" "HOL-Library.Char_ord"
begin

section \<open>Storage quotas\<close>

text \<open>
  \<^verbatim>\<open>internal/store/storage_quota.go\<close> with the statements of \<^verbatim>\<open>internal/db/storage_quota.sql.go\<close>: capacity
  is reserved before the bytes exist, resized and bound to an upload while they are written, and
  released or moved to the used counters afterwards. Every change goes to the workspace's counters
  and to the row of workspace 0, which holds the totals. \<^verbatim>\<open>uint64\<close> values are natural numbers; the code
  tests for overflow before it adds, and so does the model.
\<close>

subsection \<open>Values\<close>

record StorageQuotaLimits =
  MaxBytesPerWorkspace :: nat
  MaxBytesTotal :: nat
  MaxItemsPerWorkspace :: nat
  MaxItemsTotal :: nat
  MaxImagesPerWorkspace :: nat
  MaxImagesTotal :: nat
  ReservationTTL :: int

record StorageQuotaRequest =
  Bytes :: nat
  DurableBytes :: nat
  Items :: nat
  Images :: nat

record StorageQuotaReservation =
  qr_ID :: string
  qr_WorkspaceID :: nat
  qr_Request :: StorageQuotaRequest
  qr_ExpiresAt :: nat

record StorageQuotaUsage =
  qu_WorkspaceID :: nat
  qu_UploadBlobBytes :: nat
  qu_DatabaseBytes :: nat
  qu_Items :: nat
  qu_Images :: nat
  qu_ReservedUploadBlobBytes :: nat
  qu_ReservedDatabaseBytes :: nat
  qu_ReservedItems :: nat
  qu_ReservedImages :: nat

definition MaxUint64 :: nat where
  "MaxUint64 = 2 ^ 64 - 1"

definition MaxUint32 :: nat where
  "MaxUint32 = 2 ^ 32 - 1"

definition addUint64 :: "nat \<Rightarrow> nat \<Rightarrow> nat option" where
  "addUint64 left right = (if right > MaxUint64 - left then None else Some (left + right))"

definition exceedsStorageLimit :: "nat \<Rightarrow> nat \<Rightarrow> nat \<Rightarrow> nat \<Rightarrow> bool" where
  "exceedsStorageLimit used reserved requested limit =
     (if used > limit \<or> reserved > limit - used then True else requested > limit - used - reserved)"

definition usedBytes :: "StorageQuotaUsage \<Rightarrow> nat option" where
  "usedBytes u = addUint64 (qu_UploadBlobBytes u) (qu_DatabaseBytes u)"

definition reservedBytes :: "StorageQuotaUsage \<Rightarrow> nat option" where
  "reservedBytes u = addUint64 (qu_ReservedUploadBlobBytes u) (qu_ReservedDatabaseBytes u)"

definition no_request :: StorageQuotaRequest where
  "no_request = \<lparr>Bytes = 0, DurableBytes = 0, Items = 0, Images = 0\<rparr>"

definition storageQuotaRequestEmpty :: "StorageQuotaRequest \<Rightarrow> bool" where
  "storageQuotaRequestEmpty request \<longleftrightarrow>
     Bytes request = 0 \<and> DurableBytes request = 0 \<and> Items request = 0 \<and> Images request = 0"

definition validateStorageQuotaRequest :: "StorageQuotaRequest \<Rightarrow> err option" where
  "validateStorageQuotaRequest request =
     (if Items request > MaxUint32 \<or> Images request > MaxUint32
      then Some (ErrInvalid ''storage quota item or image request exceeds database range'')
      else case addUint64 (Bytes request) (DurableBytes request) of
             None \<Rightarrow> Some (ErrInvalid ''storage quota byte request overflows'')
           | Some _ \<Rightarrow> None)"

definition validateStorageQuotaLimits :: "StorageQuotaLimits \<Rightarrow> err option" where
  "validateStorageQuotaLimits l =
     (if MaxBytesPerWorkspace l = 0 \<or> MaxBytesTotal l < MaxBytesPerWorkspace l \<or>
         MaxItemsPerWorkspace l = 0 \<or> MaxItemsTotal l < MaxItemsPerWorkspace l \<or>
         MaxImagesPerWorkspace l = 0 \<or> MaxImagesTotal l < MaxImagesPerWorkspace l \<or> ReservationTTL l \<le> 0
      then Some (ErrInvalid ''storage quota limits are invalid'') else None)"

definition unboundedStorageQuotaLimits :: StorageQuotaLimits where
  "unboundedStorageQuotaLimits =
     \<lparr>MaxBytesPerWorkspace = MaxUint64, MaxBytesTotal = MaxUint64, MaxItemsPerWorkspace = MaxUint64,
      MaxItemsTotal = MaxUint64, MaxImagesPerWorkspace = MaxUint64, MaxImagesTotal = MaxUint64,
      ReservationTTL = 3600 * 1000000\<rparr>"

definition checkStorageQuotaCounters ::
    "StorageQuotaUsage \<Rightarrow> StorageQuotaUsage \<Rightarrow> StorageQuotaRequest \<Rightarrow> StorageQuotaLimits \<Rightarrow> err option" where
  "checkStorageQuotaCounters global workspace request limits =
     (case usedBytes workspace of
        None \<Rightarrow> Some (ErrStorageQuotaExceeded ''workspace byte accounting overflow'')
      | Some workspaceUsed \<Rightarrow>
     (case reservedBytes workspace of
        None \<Rightarrow> Some (ErrStorageQuotaExceeded ''workspace reserved byte accounting overflow'')
      | Some workspaceReserved \<Rightarrow>
     (case usedBytes global of
        None \<Rightarrow> Some (ErrStorageQuotaExceeded ''global byte accounting overflow'')
      | Some globalUsed \<Rightarrow>
     (case reservedBytes global of
        None \<Rightarrow> Some (ErrStorageQuotaExceeded ''global reserved byte accounting overflow'')
      | Some globalReserved \<Rightarrow>
     (case addUint64 (Bytes request) (DurableBytes request) of
        None \<Rightarrow> Some (ErrStorageQuotaExceeded ''requested byte accounting overflow'')
      | Some requestedBytes \<Rightarrow>
        map_option (\<lambda>(name, _). ErrStorageQuotaExceeded name)
          (find (\<lambda>(name, used, reserved, requested, limit). exceedsStorageLimit used reserved requested limit)
            [(''workspace bytes'', workspaceUsed, workspaceReserved, requestedBytes, MaxBytesPerWorkspace limits),
             (''global bytes'', globalUsed, globalReserved, requestedBytes, MaxBytesTotal limits),
             (''workspace items'', qu_Items workspace, qu_ReservedItems workspace, Items request, MaxItemsPerWorkspace limits),
             (''global items'', qu_Items global, qu_ReservedItems global, Items request, MaxItemsTotal limits),
             (''workspace images'', qu_Images workspace, qu_ReservedImages workspace, Images request, MaxImagesPerWorkspace limits),
             (''global images'', qu_Images global, qu_ReservedImages global, Images request, MaxImagesTotal limits)]))))))"

definition adjust_usage ::
    "StorageQuotaRequest \<Rightarrow> StorageQuotaRequest \<Rightarrow> StorageQuotaUsage \<Rightarrow> err + StorageQuotaUsage" where
  "adjust_usage current usedAddition usage =
     (if qu_ReservedUploadBlobBytes usage < Bytes current \<or> qu_ReservedDatabaseBytes usage < DurableBytes current \<or>
         qu_ReservedItems usage < Items current \<or> qu_ReservedImages usage < Images current
      then Inl (ErrInvalid ''storage quota reservation counters are inconsistent'')
      else case (addUint64 (qu_UploadBlobBytes usage) (Bytes usedAddition),
                 addUint64 (qu_DatabaseBytes usage) (DurableBytes usedAddition),
                 addUint64 (qu_Items usage) (Items usedAddition), addUint64 (qu_Images usage) (Images usedAddition)) of
             (Some upload, Some database, Some item_count, Some image_count) \<Rightarrow>
               Inr (usage\<lparr>qu_UploadBlobBytes := upload, qu_DatabaseBytes := database, qu_Items := item_count, qu_Images := image_count,
                 qu_ReservedUploadBlobBytes := qu_ReservedUploadBlobBytes usage - Bytes current,
                 qu_ReservedDatabaseBytes := qu_ReservedDatabaseBytes usage - DurableBytes current,
                 qu_ReservedItems := qu_ReservedItems usage - Items current,
                 qu_ReservedImages := qu_ReservedImages usage - Images current\<rparr>)
           | (None, _) \<Rightarrow> Inl (ErrInvalid ''storage quota upload accounting overflow'')
           | (Some _, None, _) \<Rightarrow> Inl (ErrInvalid ''storage quota database accounting overflow'')
           | (Some _, Some _, None, _) \<Rightarrow> Inl (ErrInvalid ''storage quota item accounting overflow'')
           | (Some _, Some _, Some _, None) \<Rightarrow> Inl (ErrInvalid ''storage quota image accounting overflow''))"

definition checkStorageQuotaReplacement ::
    "StorageQuotaUsage \<Rightarrow> StorageQuotaUsage \<Rightarrow> StorageQuotaRequest \<Rightarrow> StorageQuotaRequest \<Rightarrow> StorageQuotaRequest \<Rightarrow>
     StorageQuotaLimits \<Rightarrow> err option" where
  "checkStorageQuotaReplacement global workspace current replacement usedAddition limits =
     (case adjust_usage current usedAddition global of
        Inl err \<Rightarrow> Some err
      | Inr globalAdjusted \<Rightarrow>
     (case adjust_usage current usedAddition workspace of
        Inl err \<Rightarrow> Some err
      | Inr workspaceAdjusted \<Rightarrow> checkStorageQuotaCounters globalAdjusted workspaceAdjusted replacement limits))"

text \<open>\<^verbatim>\<open>uint32(x)\<close> keeps the low 32 bits.\<close>

definition to_uint32 :: "nat \<Rightarrow> nat" where
  "to_uint32 n = n mod 2 ^ 32"

definition storageQuotaRequestFromReservation :: "reservation_row \<Rightarrow> StorageQuotaRequest" where
  "storageQuotaRequestFromReservation r =
     \<lparr>Bytes = sr_reserved_bytes r, DurableBytes = sr_reserved_database_bytes r,
      Items = sr_reserved_items r, Images = sr_reserved_images r\<rparr>"

definition storageQuotaUsageFromRow :: "usage_row \<Rightarrow> StorageQuotaUsage" where
  "storageQuotaUsageFromRow r =
     \<lparr>qu_WorkspaceID = us_workspace_id r, qu_UploadBlobBytes = us_upload_blob_bytes r,
      qu_DatabaseBytes = us_database_bytes r, qu_Items = us_item_count r, qu_Images = us_image_count r,
      qu_ReservedUploadBlobBytes = us_reserved_upload_blob_bytes r,
      qu_ReservedDatabaseBytes = us_reserved_database_bytes r,
      qu_ReservedItems = us_reserved_item_count r, qu_ReservedImages = us_reserved_image_count r\<rparr>"

subsection \<open>Statements\<close>

text \<open>The columns are \<^verbatim>\<open>BIGINT UNSIGNED\<close>: a statement whose result does not fit fails.\<close>

definition usage_row_check :: "usage_row \<Rightarrow> bool" where
  "usage_row_check r \<longleftrightarrow> list_all (\<lambda>n. n \<le> MaxUint64)
     [us_upload_blob_bytes r, us_database_bytes r, us_item_count r, us_image_count r,
      us_reserved_upload_blob_bytes r, us_reserved_database_bytes r, us_reserved_item_count r, us_reserved_image_count r]"

definition update_usages :: "(usage_row \<Rightarrow> bool) \<Rightarrow> (usage_row \<Rightarrow> usage_row) \<Rightarrow> (db, nat) tx" where
  "update_usages = exec_update usages put_usages usage_row_check"

definition lockStorageQuotaUsageRow :: "nat \<Rightarrow> (db, usage_row) tx" where
  "lockStorageQuotaUsageRow w = tx_row (\<lambda>d. find (\<lambda>r. us_workspace_id r = w) (usages d))"

definition ensureStorageQuotaUsage :: "nat \<Rightarrow> (db, unit) tx" where
  "ensureStorageQuotaUsage w = (\<lambda>d.
     if list_ex (\<lambda>r. us_workspace_id r = w) (usages d) then Inr ((), d)
     else Inr ((), d\<lparr>usages := usages d @ [\<lparr>us_workspace_id = w, us_upload_blob_bytes = 0, us_database_bytes = 0,
       us_item_count = 0, us_image_count = 0, us_reserved_upload_blob_bytes = 0, us_reserved_database_bytes = 0,
       us_reserved_item_count = 0, us_reserved_image_count = 0\<rparr>]\<rparr>))"

definition add_used :: "StorageQuotaRequest \<Rightarrow> usage_row \<Rightarrow> usage_row" where
  "add_used q r = r\<lparr>us_upload_blob_bytes := us_upload_blob_bytes r + Bytes q,
     us_database_bytes := us_database_bytes r + DurableBytes q,
     us_item_count := us_item_count r + Items q, us_image_count := us_image_count r + Images q\<rparr>"

definition sub_used :: "StorageQuotaRequest \<Rightarrow> usage_row \<Rightarrow> usage_row" where
  "sub_used q r = r\<lparr>us_upload_blob_bytes := us_upload_blob_bytes r - Bytes q,
     us_database_bytes := us_database_bytes r - DurableBytes q,
     us_item_count := us_item_count r - Items q, us_image_count := us_image_count r - Images q\<rparr>"

definition add_reserved :: "StorageQuotaRequest \<Rightarrow> usage_row \<Rightarrow> usage_row" where
  "add_reserved q r = r\<lparr>us_reserved_upload_blob_bytes := us_reserved_upload_blob_bytes r + Bytes q,
     us_reserved_database_bytes := us_reserved_database_bytes r + DurableBytes q,
     us_reserved_item_count := us_reserved_item_count r + Items q,
     us_reserved_image_count := us_reserved_image_count r + Images q\<rparr>"

definition sub_reserved :: "StorageQuotaRequest \<Rightarrow> usage_row \<Rightarrow> usage_row" where
  "sub_reserved q r = r\<lparr>us_reserved_upload_blob_bytes := us_reserved_upload_blob_bytes r - Bytes q,
     us_reserved_database_bytes := us_reserved_database_bytes r - DurableBytes q,
     us_reserved_item_count := us_reserved_item_count r - Items q,
     us_reserved_image_count := us_reserved_image_count r - Images q\<rparr>"

definition in_usage :: "nat \<Rightarrow> usage_row \<Rightarrow> bool" where
  "in_usage w r \<longleftrightarrow> us_workspace_id r = 0 \<or> us_workspace_id r = w"

definition used_covers :: "StorageQuotaRequest \<Rightarrow> usage_row \<Rightarrow> bool" where
  "used_covers q r \<longleftrightarrow> us_upload_blob_bytes r \<ge> Bytes q \<and> us_database_bytes r \<ge> DurableBytes q \<and>
     us_item_count r \<ge> Items q \<and> us_image_count r \<ge> Images q"

definition reserved_covers :: "StorageQuotaRequest \<Rightarrow> usage_row \<Rightarrow> bool" where
  "reserved_covers q r \<longleftrightarrow> us_reserved_upload_blob_bytes r \<ge> Bytes q \<and> us_reserved_database_bytes r \<ge> DurableBytes q \<and>
     us_reserved_item_count r \<ge> Items q \<and> us_reserved_image_count r \<ge> Images q"

definition addStorageQuotaUsedRows :: "StorageQuotaRequest \<Rightarrow> nat \<Rightarrow> (db, nat) tx" where
  "addStorageQuotaUsedRows q w = update_usages (in_usage w) (add_used q)"

definition addStorageQuotaReservedRows :: "StorageQuotaRequest \<Rightarrow> nat \<Rightarrow> (db, nat) tx" where
  "addStorageQuotaReservedRows q w = update_usages (in_usage w) (add_reserved q)"

definition subtractStorageQuotaUsedRows :: "StorageQuotaRequest \<Rightarrow> nat \<Rightarrow> (db, nat) tx" where
  "subtractStorageQuotaUsedRows q w = update_usages (\<lambda>r. in_usage w r \<and> used_covers q r) (sub_used q)"

definition subtractStorageQuotaReservedRows :: "StorageQuotaRequest \<Rightarrow> nat \<Rightarrow> (db, nat) tx" where
  "subtractStorageQuotaReservedRows q w = update_usages (\<lambda>r. in_usage w r \<and> reserved_covers q r) (sub_reserved q)"

definition insertStorageQuotaReservation :: "env \<Rightarrow> reservation_row \<Rightarrow> (db, unit) tx" where
  "insertStorageQuotaReservation e r = (\<lambda>d.
     if list_ex (\<lambda>x. sr_id x = sr_id r) (reservations d) then Inl ErrDuplicateKey
     else Inr ((), put_reservations (reservations d @ [r\<lparr>sr_created_at := now6 e\<rparr>]) d))"

definition lockStorageQuotaReservation :: "string \<Rightarrow> nat \<Rightarrow> (db, reservation_row) tx" where
  "lockStorageQuotaReservation i w =
     tx_row (\<lambda>d. find (\<lambda>r. sr_id r = i \<and> sr_workspace_id r = w) (reservations d))"

definition lockLiveStorageQuotaReservation :: "env \<Rightarrow> string \<Rightarrow> nat \<Rightarrow> (db, reservation_row) tx" where
  "lockLiveStorageQuotaReservation e i w =
     tx_row (\<lambda>d. find (\<lambda>r. sr_id r = i \<and> sr_workspace_id r = w \<and> sr_expires_at r > now6 e) (reservations d))"

definition updateStorageQuotaReservation ::
    "StorageQuotaRequest \<Rightarrow> string option \<Rightarrow> nat \<Rightarrow> string \<Rightarrow> nat \<Rightarrow> (db, nat) tx" where
  "updateStorageQuotaReservation accounted key expires_at i w =
     exec_update reservations put_reservations (\<lambda>_. True) (\<lambda>r. sr_id r = i \<and> sr_workspace_id r = w)
       (\<lambda>r. r\<lparr>sr_reserved_bytes := Bytes accounted, sr_reserved_database_bytes := DurableBytes accounted,
              sr_reserved_items := to_uint32 (Items accounted), sr_reserved_images := to_uint32 (Images accounted),
              sr_resource_key := key, sr_expires_at := expires_at\<rparr>)"

definition bindStorageQuotaReservationResource :: "string \<Rightarrow> string \<Rightarrow> nat \<Rightarrow> (db, nat) tx" where
  "bindStorageQuotaReservationResource key i w =
     exec_update reservations put_reservations (\<lambda>_. True) (\<lambda>r. sr_id r = i \<and> sr_workspace_id r = w)
       (\<lambda>r. r\<lparr>sr_reserved_bytes := 0, sr_resource_key := Some key\<rparr>)"

definition deleteStorageQuotaReservation :: "string \<Rightarrow> nat \<Rightarrow> (db, nat) tx" where
  "deleteStorageQuotaReservation i w =
     exec_delete reservations put_reservations (\<lambda>r. sr_id r = i \<and> sr_workspace_id r = w)"

definition lockStorageQuotaSweepWorkspace :: "env \<Rightarrow> nat \<Rightarrow> (db, nat) tx" where
  "lockStorageQuotaSweepWorkspace e t6 = tx_row (\<lambda>d. map_option us_workspace_id (first_by us_workspace_id
     (filter (\<lambda>u. us_workspace_id u \<noteq> 0 \<and> \<not> usage_locked e (us_workspace_id u) \<and>
        list_ex (\<lambda>r. sr_workspace_id r = us_workspace_id u \<and> sr_expires_at r \<le> t6) (reservations d)) (usages d))))"

definition lockExpiredStorageQuotaReservations :: "env \<Rightarrow> nat \<Rightarrow> nat \<Rightarrow> nat \<Rightarrow> db \<Rightarrow> reservation_row list" where
  "lockExpiredStorageQuotaReservations e w t6 lim d =
     take lim (sort_key (\<lambda>r. (sr_expires_at r, sr_id r))
       (filter (\<lambda>r. sr_workspace_id r = w \<and> sr_expires_at r \<le> t6 \<and> \<not> reservation_locked e (sr_id r)) (reservations d)))"

definition countItemImagesByURL :: "string \<Rightarrow> db \<Rightarrow> nat" where
  "countItemImagesByURL url d = sql_count (\<lambda>i. im_image_url i = url) (images d)"

subsection \<open>Accounting\<close>

definition lockWorkspaceStorageQuotaUsage :: "nat \<Rightarrow> (db, usage_row) tx" where
  "lockWorkspaceStorageQuotaUsage workspaceID =
     (if workspaceID = 0 then tx_raise (ErrInvalid ''workspace is required'') else lockStorageQuotaUsageRow workspaceID)"

definition lockStorageQuotaGuards :: "nat \<Rightarrow> (db, unit) tx" where
  "lockStorageQuotaGuards workspaceID =
     (if workspaceID = 0 then tx_raise (ErrInvalid ''transaction and workspace are required'')
      else tx_bind (lockWorkspaceStorageQuotaUsage workspaceID) (\<lambda>_. tx_return ()))"

definition lockStorageQuotaUsage :: "nat \<Rightarrow> (db, usage_row \<times> usage_row) tx" where
  "lockStorageQuotaUsage workspaceID =
     (if workspaceID = 0 then tx_raise (ErrInvalid ''workspace is required'')
      else tx_bind (lockWorkspaceStorageQuotaUsage workspaceID) (\<lambda>workspace.
           tx_bind (lockStorageQuotaUsageRow 0) (\<lambda>global. tx_return (global, workspace))))"

definition requireQuotaUsageRows :: "(db, nat) tx \<Rightarrow> (db, unit) tx" where
  "requireQuotaUsageRows m =
     tx_bind m (\<lambda>affected. tx_guard (affected = 2) (ErrInvalid ''storage quota usage changed rows, want global and workspace''))"

definition addStorageQuotaUsed :: "nat \<Rightarrow> StorageQuotaRequest \<Rightarrow> (db, unit) tx" where
  "addStorageQuotaUsed workspaceID request = tx_bind (addStorageQuotaUsedRows request workspaceID) (\<lambda>_. tx_return ())"

definition subtractStorageQuotaUsed :: "nat \<Rightarrow> StorageQuotaRequest \<Rightarrow> (db, unit) tx" where
  "subtractStorageQuotaUsed workspaceID request =
     (if storageQuotaRequestEmpty request then tx_return ()
      else requireQuotaUsageRows (subtractStorageQuotaUsedRows request workspaceID))"

definition addStorageQuotaReserved :: "nat \<Rightarrow> StorageQuotaRequest \<Rightarrow> (db, unit) tx" where
  "addStorageQuotaReserved workspaceID request = tx_bind (addStorageQuotaReservedRows request workspaceID) (\<lambda>_. tx_return ())"

definition subtractStorageQuotaReserved :: "nat \<Rightarrow> StorageQuotaRequest \<Rightarrow> (db, unit) tx" where
  "subtractStorageQuotaReserved workspaceID request =
     (if storageQuotaRequestEmpty request then tx_return ()
      else requireQuotaUsageRows (subtractStorageQuotaReservedRows request workspaceID))"

definition replaceStorageQuotaReservationAccounting ::
    "nat \<Rightarrow> StorageQuotaRequest \<Rightarrow> StorageQuotaRequest \<Rightarrow> StorageQuotaRequest \<Rightarrow> (db, unit) tx" where
  "replaceStorageQuotaReservationAccounting workspaceID current replacement usedAddition =
     tx_bind (subtractStorageQuotaReserved workspaceID current) (\<lambda>_.
     tx_bind (tx_when (\<not> storageQuotaRequestEmpty replacement) (addStorageQuotaReserved workspaceID replacement)) (\<lambda>_.
     tx_when (\<not> storageQuotaRequestEmpty usedAddition) (addStorageQuotaUsed workspaceID usedAddition)))"

text \<open>An error value as the outcome of a check inside a transaction.\<close>

definition tx_check :: "err option \<Rightarrow> (db, unit) tx" where
  "tx_check r = (case r of None \<Rightarrow> tx_return () | Some e \<Rightarrow> tx_raise e)"

definition applyStorageQuotaUsedDelta :: "nat \<Rightarrow> nat \<Rightarrow> nat \<Rightarrow> (db, unit) tx" where
  "applyStorageQuotaUsedDelta workspaceID before after =
     (if after > before then addStorageQuotaUsed workspaceID (no_request\<lparr>DurableBytes := after - before\<rparr>)
      else if before > after then subtractStorageQuotaUsed workspaceID (no_request\<lparr>DurableBytes := before - after\<rparr>)
      else tx_return ())"

definition applyStorageQuotaUsedDeltaWithLimits :: "nat \<Rightarrow> nat \<Rightarrow> nat \<Rightarrow> StorageQuotaLimits \<Rightarrow> (db, unit) tx" where
  "applyStorageQuotaUsedDeltaWithLimits workspaceID before after limits =
     tx_bind (if after > before then
         tx_bind (lockStorageQuotaUsageRow workspaceID) (\<lambda>workspace.
         tx_bind (lockStorageQuotaUsageRow 0) (\<lambda>global.
         tx_check (checkStorageQuotaCounters (storageQuotaUsageFromRow global) (storageQuotaUsageFromRow workspace)
           (no_request\<lparr>DurableBytes := after - before\<rparr>) limits)))
       else tx_return ()) (\<lambda>_.
     applyStorageQuotaUsedDelta workspaceID before after)"

subsection \<open>Operations\<close>

definition GetStorageQuotaUsage :: "nat \<Rightarrow> (db, StorageQuotaUsage) tx" where
  "GetStorageQuotaUsage workspaceID =
     tx_bind (lockStorageQuotaUsageRow workspaceID) (\<lambda>row. tx_return (storageQuotaUsageFromRow row))"

definition ReserveStorageQuota ::
    "env \<Rightarrow> nat \<Rightarrow> StorageQuotaRequest \<Rightarrow> StorageQuotaLimits \<Rightarrow> (db, StorageQuotaReservation) tx" where
  "ReserveStorageQuota e workspaceID request limits =
     (if workspaceID = 0 \<or> storageQuotaRequestEmpty request
      then tx_raise (ErrInvalid ''workspace and capacity are required'')
      else
      tx_bind (tx_check (validateStorageQuotaRequest request)) (\<lambda>_.
      tx_bind (tx_check (validateStorageQuotaLimits limits)) (\<lambda>_.
      tx_bind (lockWorkspaceForUseManual workspaceID) (\<lambda>_.
      tx_bind (lockStorageQuotaUsage workspaceID) (\<lambda>(global, workspace).
      tx_bind (tx_check (checkStorageQuotaCounters (storageQuotaUsageFromRow global) (storageQuotaUsageFromRow workspace)
        request limits)) (\<lambda>_.
      let expires = clock6 e + nat (ReservationTTL limits) in
      tx_bind (insertStorageQuotaReservation e
        \<lparr>sr_id = uuid e, sr_workspace_id = workspaceID, sr_reserved_bytes = Bytes request,
         sr_reserved_database_bytes = DurableBytes request, sr_reserved_items = to_uint32 (Items request),
         sr_reserved_images = to_uint32 (Images request), sr_resource_key = None, sr_expires_at = expires,
         sr_created_at = now6 e\<rparr>) (\<lambda>_.
      tx_bind (addStorageQuotaReserved workspaceID request) (\<lambda>_.
      tx_return \<lparr>qr_ID = uuid e, qr_WorkspaceID = workspaceID, qr_Request = request, qr_ExpiresAt = expires\<rparr>))))))))"

text \<open>What a resize does about a bound upload: the part of its growth that is used already.\<close>

definition resize_upload :: "nat \<Rightarrow> nat \<Rightarrow> string option \<Rightarrow> (db, nat) tx" where
  "resize_upload workspaceID bytes resourceKey =
     (case resourceKey of
        None \<Rightarrow> tx_return 0
      | Some key \<Rightarrow>
          tx_bind (lockResourceCleanupByKindKey UploadBlob key) (\<lambda>cleanup.
          if rc_workspace_id cleanup \<noteq> workspaceID then tx_raise (ErrInvalid ''workspace identity changed'')
          else if rc_delete_fenced_at cleanup \<noteq> None then tx_raise ErrUploadBlobRetired
          else tx_return (if bytes > rc_storage_bytes cleanup then bytes - rc_storage_bytes cleanup else 0)))"

text \<open>The bytes of a bound upload are used, not reserved.\<close>

definition accounted_request :: "string option \<Rightarrow> StorageQuotaRequest \<Rightarrow> StorageQuotaRequest" where
  "accounted_request resourceKey request = (if resourceKey = None then request else request\<lparr>Bytes := 0\<rparr>)"

definition ResizeStorageQuotaReservation ::
    "env \<Rightarrow> StorageQuotaReservation \<Rightarrow> StorageQuotaRequest \<Rightarrow> StorageQuotaLimits \<Rightarrow> (db, StorageQuotaReservation) tx" where
  "ResizeStorageQuotaReservation e reservation request limits =
     (let w = qr_WorkspaceID reservation; i = qr_ID reservation; expires = clock6 e + nat (ReservationTTL limits) in
      if w = 0 \<or> i = [] then tx_raise (ErrInvalid ''reservation is required'')
      else if storageQuotaRequestEmpty request then tx_raise (ErrInvalid ''capacity is required'')
      else
      tx_bind (tx_check (validateStorageQuotaRequest request)) (\<lambda>_.
      tx_bind (tx_check (validateStorageQuotaLimits limits)) (\<lambda>_.
      tx_bind (lockWorkspaceStorageQuotaUsage w) (\<lambda>workspaceRow.
      tx_bind (lockStorageQuotaReservation i w) (\<lambda>currentRow.
      let current = storageQuotaRequestFromReservation currentRow; resourceKey = sr_resource_key currentRow;
          newReserved = accounted_request resourceKey request in
      tx_bind (resize_upload w (Bytes request) resourceKey) (\<lambda>addition.
      let usedAddition = no_request\<lparr>Bytes := addition\<rparr> in
      tx_bind (lockStorageQuotaUsageRow 0) (\<lambda>globalRow.
      tx_bind (tx_check (checkStorageQuotaReplacement (storageQuotaUsageFromRow globalRow)
        (storageQuotaUsageFromRow workspaceRow) current newReserved usedAddition limits)) (\<lambda>_.
      tx_bind (case resourceKey of
          None \<Rightarrow> tx_return ()
        | Some key \<Rightarrow> tx_bind (resizeStagedUploadCleanup e w (Bytes request) (datetime_of expires) key) (\<lambda>_. tx_return ())) (\<lambda>_.
      tx_bind (replaceStorageQuotaReservationAccounting w current newReserved usedAddition) (\<lambda>_.
      tx_bind (tx_check (validateStorageQuotaRequest newReserved)) (\<lambda>_.
      tx_bind (requireOneAffected (updateStorageQuotaReservation newReserved resourceKey expires i w)) (\<lambda>_.
      tx_return \<lparr>qr_ID = i, qr_WorkspaceID = w, qr_Request = request, qr_ExpiresAt = expires\<rparr>))))))))))))"

definition StageStorageQuotaUpload ::
    "env \<Rightarrow> StorageQuotaReservation \<Rightarrow> string \<Rightarrow> nat \<Rightarrow> StorageQuotaLimits \<Rightarrow> (db, unit) tx" where
  "StageStorageQuotaUpload e reservation imageURL storageBytes limits =
     (let w = qr_WorkspaceID reservation; i = qr_ID reservation in
      if w = 0 \<or> i = [] \<or> storageBytes = 0 then tx_raise (ErrInvalid ''reservation and bytes are required'')
      else
      tx_bind (tx_check (validateStorageQuotaLimits limits)) (\<lambda>_.
      case ImmutableNameFromURL imageURL of
        None \<Rightarrow> tx_raise (ErrInvalid ''immutable upload URL is invalid'')
      | Some resourceKey \<Rightarrow>
      tx_bind (lockWorkspaceStorageQuotaUsage w) (\<lambda>workspaceRow.
      tx_bind (lockLiveStorageQuotaReservation e i w) (\<lambda>currentRow.
      if sr_resource_key currentRow \<noteq> None \<and> sr_resource_key currentRow \<noteq> Some resourceKey
      then tx_raise (ErrInvalid ''reservation is already bound'')
      else
      let current = storageQuotaRequestFromReservation currentRow; newReserved = current\<lparr>Bytes := 0\<rparr> in
      tx_bind (lockUploadCleanupForReference w resourceKey) (\<lambda>existing.
      let usedAddition = no_request\<lparr>Bytes := (case existing of
            None \<Rightarrow> storageBytes
          | Some c \<Rightarrow> if rc_storage_bytes c \<ge> storageBytes then 0 else storageBytes - rc_storage_bytes c)\<rparr> in
      tx_bind (lockStorageQuotaUsageRow 0) (\<lambda>globalRow.
      tx_bind (tx_check (checkStorageQuotaReplacement (storageQuotaUsageFromRow globalRow)
        (storageQuotaUsageFromRow workspaceRow) current newReserved usedAddition limits)) (\<lambda>_.
      tx_bind (upsertResourceCleanup e UploadBlob resourceKey w storageBytes (datetime_of (sr_expires_at currentRow))) (\<lambda>_.
      tx_bind (replaceStorageQuotaReservationAccounting w current newReserved usedAddition) (\<lambda>_.
      requireOneAffected (bindStorageQuotaReservationResource resourceKey i w))))))))))"

definition ReleaseStorageQuotaReservation :: "StorageQuotaReservation \<Rightarrow> (db, unit) tx" where
  "ReleaseStorageQuotaReservation reservation =
     (let w = qr_WorkspaceID reservation; i = qr_ID reservation in
      if w = 0 \<or> i = [] then tx_return ()
      else
      tx_bind (lockWorkspaceStorageQuotaUsage w) (\<lambda>_.
      tx_bind (tx_optional (lockStorageQuotaReservation i w)) (\<lambda>found.
      case found of
        None \<Rightarrow> tx_return ()
      | Some current \<Rightarrow>
      tx_bind (tx_read (\<lambda>d. case sr_resource_key current of
          None \<Rightarrow> False | Some key \<Rightarrow> countItemImagesByURL (upload_dir @ key) d > 0)) (\<lambda>retireStagedUpload.
      tx_bind (lockStorageQuotaUsageRow 0) (\<lambda>_.
      tx_bind (subtractStorageQuotaReserved w (storageQuotaRequestFromReservation current)) (\<lambda>_.
      tx_bind (requireOneAffected (deleteStorageQuotaReservation i w)) (\<lambda>_.
      case sr_resource_key current of
        None \<Rightarrow> tx_return ()
      | Some key \<Rightarrow> tx_when retireStagedUpload
          (tx_bind (deleteResourceCleanupByKindKey UploadBlob key) (\<lambda>_. tx_return ())))))))))"

definition transferStorageQuotaReservationToUsed :: "reservation_row \<Rightarrow> StorageQuotaRequest \<Rightarrow> (db, unit) tx" where
  "transferStorageQuotaReservationToUsed reservation consumed =
     (let w = sr_workspace_id reservation; i = sr_id reservation; current = storageQuotaRequestFromReservation reservation in
      if i = [] \<or> w = 0 \<or> storageQuotaRequestEmpty consumed
      then tx_raise (ErrInvalid ''reservation and capacity are required'')
      else
      tx_bind (tx_check (validateStorageQuotaRequest consumed)) (\<lambda>_.
      if Bytes current < Bytes consumed \<or> DurableBytes current < DurableBytes consumed \<or>
         Items current < Items consumed \<or> Images current < Images consumed
      then tx_raise (ErrInvalid ''reserved capacity does not cover committed usage'')
      else
      let remaining = \<lparr>Bytes = Bytes current - Bytes consumed, DurableBytes = DurableBytes current - DurableBytes consumed,
            Items = Items current - Items consumed, Images = Images current - Images consumed\<rparr> in
      tx_bind (lockStorageQuotaUsageRow w) (\<lambda>workspaceRow.
      tx_bind (lockStorageQuotaUsageRow 0) (\<lambda>globalRow.
      tx_bind (tx_check (checkStorageQuotaReplacement (storageQuotaUsageFromRow globalRow)
        (storageQuotaUsageFromRow workspaceRow) current remaining consumed unboundedStorageQuotaLimits)) (\<lambda>_.
      tx_bind (replaceStorageQuotaReservationAccounting w current remaining consumed) (\<lambda>_.
      tx_bind (tx_check (validateStorageQuotaRequest remaining)) (\<lambda>_.
      requireOneAffected (updateStorageQuotaReservation remaining (sr_resource_key reservation)
        (sr_expires_at reservation) i w))))))))"

definition retireSingleFileIngestReservation ::
    "StorageQuotaReservation \<Rightarrow> reservation_row \<Rightarrow> StorageQuotaRequest \<Rightarrow> StorageQuotaLimits \<Rightarrow> (db, unit) tx" where
  "retireSingleFileIngestReservation reservation locked usedAddition limits =
     (let w = qr_WorkspaceID reservation; current = storageQuotaRequestFromReservation locked in
      tx_bind (lockStorageQuotaUsageRow 0) (\<lambda>globalRow.
      tx_bind (lockStorageQuotaUsageRow w) (\<lambda>workspaceRow.
      tx_bind (tx_check (checkStorageQuotaReplacement (storageQuotaUsageFromRow globalRow)
        (storageQuotaUsageFromRow workspaceRow) current no_request usedAddition limits)) (\<lambda>_.
      tx_bind (replaceStorageQuotaReservationAccounting w current no_request usedAddition) (\<lambda>_.
      tx_bind (case sr_resource_key locked of
          None \<Rightarrow> tx_return ()
        | Some key \<Rightarrow> requireOneAffected (deleteResourceCleanupByKindKey UploadBlob key)) (\<lambda>_.
      requireOneAffected (deleteStorageQuotaReservation (qr_ID reservation) w)))))))"

definition maxStorageQuotaReservationSweepBatch :: int where
  "maxStorageQuotaReservationSweepBatch = 500"

text \<open>The total of a batch, with the overflow tests of the loop.\<close>

fun sweep_total :: "StorageQuotaRequest \<Rightarrow> reservation_row list \<Rightarrow> err + StorageQuotaRequest" where
  "sweep_total tot [] = Inr tot"
| "sweep_total tot (row # rows) =
     (case (addUint64 (Bytes tot) (sr_reserved_bytes row), addUint64 (DurableBytes tot) (sr_reserved_database_bytes row),
            addUint64 (Items tot) (sr_reserved_items row), addUint64 (Images tot) (sr_reserved_images row)) of
        (Some b, Some db, Some n, Some m) \<Rightarrow> sweep_total \<lparr>Bytes = b, DurableBytes = db, Items = n, Images = m\<rparr> rows
      | _ \<Rightarrow> Inl (ErrInvalid ''sweep storage quota reservations: total overflows''))"

definition SweepExpiredStorageQuotaReservations :: "env \<Rightarrow> int \<Rightarrow> (db, nat) tx" where
  "SweepExpiredStorageQuotaReservations e batchSize =
     (if batchSize \<le> 0 \<or> batchSize > maxStorageQuotaReservationSweepBatch
      then tx_raise (ErrInvalid ''batch size must be between 1 and 500'')
      else
      tx_bind (tx_optional (lockStorageQuotaSweepWorkspace e (clock6 e))) (\<lambda>found.
      case found of
        None \<Rightarrow> tx_return 0
      | Some workspaceID \<Rightarrow>
      tx_bind (tx_read (lockExpiredStorageQuotaReservations e workspaceID (clock6 e) (nat batchSize))) (\<lambda>rows.
      if rows = [] then tx_return 0
      else
      tx_bind (tx_lift (sweep_total no_request rows)) (\<lambda>tot.
      tx_bind (lockStorageQuotaUsageRow 0) (\<lambda>_.
      tx_bind (subtractStorageQuotaReserved workspaceID tot) (\<lambda>_.
      tx_bind (tx_iter (\<lambda>row. requireOneAffected (deleteStorageQuotaReservation (sr_id row) workspaceID)) rows) (\<lambda>_.
      tx_return (length rows))))))))"

end
