(* ===== verification/Blob_Retirement.thy ===== *)
theory Blob_Retirement
  imports Storage_Quota Page_Identity
begin

section \<open>Retiring stored uploads\<close>

text \<open>
  The part of \<^verbatim>\<open>internal/store/resource_cleanup.go\<close> that decides when the bytes of an upload may be
  deleted, and the transaction of \<^verbatim>\<open>internal/store/items.go\<close> that adds an image referring to one. A worker
  establishes a fence while no image refers to the upload; a transaction that wants to refer to it
  looks for the fence first.
\<close>

subsection \<open>The worker\<close>

definition lockItemImageIDsByURL :: "string \<Rightarrow> db \<Rightarrow> nat list" where
  "lockItemImageIDsByURL url d = sort (map im_id (filter (\<lambda>i. im_image_url i = url) (images d)))"

definition BeginUploadBlobRetirement :: "env \<Rightarrow> ResourceCleanupDelivery \<Rightarrow> (db, bool) tx" where
  "BeginUploadBlobRetirement e delivery =
     (if rd_Kind delivery \<noteq> UploadBlob \<or> rd_ID delivery = 0 \<or> rd_WorkspaceID delivery = 0 \<or> rd_ResourceKey delivery = [] \<or>
         rd_Generation delivery = 0 \<or> rd_LeaseOwner delivery = []
      then tx_raise (ErrInvalid ''active upload cleanup delivery is required'')
      else
      tx_bind (lockStorageQuotaGuards (rd_WorkspaceID delivery)) (\<lambda>_.
      tx_bind (tx_no_rows_as ErrResourceCleanupLease (lockResourceCleanupByKindKey UploadBlob (rd_ResourceKey delivery))) (\<lambda>cleanup.
      if rc_id cleanup \<noteq> rd_ID delivery \<or> rc_generation cleanup \<noteq> rd_Generation delivery \<or>
         rc_workspace_id cleanup \<noteq> rd_WorkspaceID delivery \<or> rc_status cleanup \<noteq> CProcessing \<or>
         rc_locked_by cleanup \<noteq> Some (rd_LeaseOwner delivery)
      then tx_raise ErrResourceCleanupLease
      else if rc_delete_fenced_at cleanup \<noteq> None then tx_return True
      else
      tx_bind (tx_read (lockItemImageIDsByURL (upload_dir @ rd_ResourceKey delivery))) (\<lambda>references.
      if references \<noteq> [] then tx_return False
      else
      tx_bind (requireCleanupAffected (fenceUploadResourceCleanup e (rd_ID delivery) (rd_Generation delivery)
        (nullableString (rd_LeaseOwner delivery)))) (\<lambda>_.
      tx_return True)))))"

text \<open>
  The optional argument says whether the worker deleted bytes; without it, or for another kind of
  resource, the row alone is removed.
\<close>

definition CompleteResourceCleanup :: "ResourceCleanupDelivery \<Rightarrow> bool \<Rightarrow> (db, unit) tx" where
  "CompleteResourceCleanup delivery releaseBytes =
     (if rd_Kind delivery \<noteq> UploadBlob \<or> \<not> releaseBytes
      then requireCleanupAffected (completeResourceCleanup (rd_ID delivery) (rd_Generation delivery)
        (nullableString (rd_LeaseOwner delivery)))
      else if rd_WorkspaceID delivery = 0 then tx_raise (ErrInvalid ''upload workspace is required'')
      else
      tx_bind (lockStorageQuotaGuards (rd_WorkspaceID delivery)) (\<lambda>_.
      tx_bind (requireCleanupAffected (completeFencedUploadResourceCleanup (rd_ID delivery) (rd_Generation delivery)
        (nullableString (rd_LeaseOwner delivery)))) (\<lambda>_.
      tx_when (rd_StorageBytes delivery > 0)
        (subtractStorageQuotaUsed (rd_WorkspaceID delivery) (no_request\<lparr>Bytes := rd_StorageBytes delivery\<rparr>)))))"

subsection \<open>References\<close>

definition EnqueueUploadCleanup :: "env \<Rightarrow> nat \<Rightarrow> string \<Rightarrow> nat \<Rightarrow> (db, unit) tx" where
  "EnqueueUploadCleanup e workspaceID imageURL storageBytes =
     (case ImmutableNameFromURL imageURL of
        None \<Rightarrow> if NameFromURL imageURL \<noteq> None then tx_raise (ErrInvalid ''local upload identity is not immutable'')
                else tx_return ()
      | Some name \<Rightarrow>
          if workspaceID = 0 then tx_raise (ErrInvalid ''workspace is required'')
          else upsertResourceCleanup e UploadBlob name workspaceID storageBytes (datetime_of (clock6 e)))"

definition validateImageStorageReference :: "string \<Rightarrow> nat \<Rightarrow> err option" where
  "validateImageStorageReference imageURL storageBytes =
     (let recognizedUpload = (NameFromURL imageURL \<noteq> None); isUpload = (ImmutableNameFromURL imageURL \<noteq> None) in
      if recognizedUpload \<and> \<not> isUpload then Some (ErrInvalid ''local upload identity is not immutable'')
      else if isUpload \<and> storageBytes = 0 then Some (ErrInvalid ''local upload storage size is required'')
      else if \<not> isUpload \<and> storageBytes \<noteq> 0 then Some (ErrInvalid ''storage size is only valid for local uploads'')
      else None)"

record CreateItemImageParams =
  ci_ItemID :: string
  ci_Sequence :: nat
  ci_ImageURL :: string
  ci_StorageBytes :: nat
  ci_CanvasURI :: string
  ci_Width :: nat
  ci_Height :: nat
  ci_Label :: string
  ci_HocrURL :: string

definition MaxInt32 :: nat where
  "MaxInt32 = 2147483647"

text \<open>Unlike \<open>nullableString\<close> of the store package, the one of the database package keeps blanks.\<close>

definition db_nullableString :: "string \<Rightarrow> string option" where
  "db_nullableString v = (if v = [] then None else Some v)"

definition nullableImageDimension :: "nat \<Rightarrow> err + nat option" where
  "nullableImageDimension v =
     (if v = 0 then Inr None else if v > MaxInt32 then Inl (ErrInvalid ''image dimension exceeds database range'') else Inr (Some v))"

text \<open>A pair of item and sequence is unique. When the item is gone, no row is inserted and the new identifier reads as zero.\<close>

definition createItemImageManual :: "CreateItemImageParams \<Rightarrow> nat option \<Rightarrow> nat option \<Rightarrow> (db, nat) tx" where
  "createItemImageManual arg width height = (\<lambda>d.
     case find (\<lambda>i. it_id i = ci_ItemID arg) (items d) of
       None \<Rightarrow> Inr (0, d)
     | Some item \<Rightarrow>
         if list_ex (\<lambda>i. im_item_id i = ci_ItemID arg \<and> im_sequence i = ci_Sequence arg) (images d) then Inl ErrDuplicateKey
         else Inr (next_image_id d, d\<lparr>images := images d @
           [\<lparr>im_id = next_image_id d, im_item_id = ci_ItemID arg, im_workspace_id = it_workspace_id item,
             im_sequence = ci_Sequence arg, im_image_url = ci_ImageURL arg, im_storage_bytes = ci_StorageBytes arg,
             im_canvas_uri = db_nullableString (ci_CanvasURI arg), im_width = width, im_height = height,
             im_label = db_nullableString (ci_Label arg), im_hocr_url = db_nullableString (ci_HocrURL arg)\<rparr>],
           next_image_id := next_image_id d + 1\<rparr>))"

definition CreateItemImage :: "CreateItemImageParams \<Rightarrow> (db, nat) tx" where
  "CreateItemImage arg =
     tx_bind (tx_lift (nullableImageDimension (ci_Width arg))) (\<lambda>width.
     tx_bind (tx_lift (nullableImageDimension (ci_Height arg))) (\<lambda>height.
     createItemImageManual arg width height))"

definition getItem :: "string \<Rightarrow> (db, item_row) tx" where
  "getItem i = tx_row (\<lambda>d. find (\<lambda>r. it_id r = i) (items d))"

definition getItemImage :: "nat \<Rightarrow> (db, image_row) tx" where
  "getItemImage i = tx_row (\<lambda>d. find (\<lambda>r. im_id r = i) (images d))"

definition AddImage :: "CreateItemImageParams \<Rightarrow> (db, image_row) tx" where
  "AddImage params0 =
     tx_bind (tx_check (validateImageStorageReference (ci_ImageURL params0) (ci_StorageBytes params0))) (\<lambda>_.
     let params = params0\<lparr>ci_CanvasURI := trim_space (ci_CanvasURI params0)\<rparr> in
     tx_bind (tx_check (ValidateCanvasURI (ci_CanvasURI params))) (\<lambda>_.
     tx_bind (getItem (ci_ItemID params)) (\<lambda>item.
     tx_bind (lockStorageQuotaGuards (it_workspace_id item)) (\<lambda>_.
     tx_bind (lockItemForUseManual (ci_ItemID params) (it_workspace_id item)) (\<lambda>_.
     tx_bind (case ImmutableNameFromURL (ci_ImageURL params) of
         None \<Rightarrow> tx_return 0
       | Some name \<Rightarrow> tx_bind (lockUploadCleanupForReference (it_workspace_id item) name) (\<lambda>staged.
           tx_return (if staged = None then ci_StorageBytes params else 0))) (\<lambda>uploadBytes.
     tx_bind (CreateItemImage params) (\<lambda>i.
     tx_bind (getItemImage i) (\<lambda>row.
     tx_bind (addStorageQuotaUsed (it_workspace_id item) (no_request\<lparr>Bytes := uploadBytes, Images := 1\<rparr>)) (\<lambda>_.
     tx_return row)))))))))"

subsection \<open>Single-file ingest\<close>

text \<open>
  What a single-file ingest checks before it writes: the reservation is live and covers an item and
  an image, and the image's upload is the one staged under it.
\<close>

record SingleFileIngestCommit =
  sf_ItemWorkspaceID :: nat
  sf_ImageURL :: string
  sf_StorageBytes :: nat
  sf_Reservation :: StorageQuotaReservation

definition lockSingleFileIngestReservation :: "env \<Rightarrow> SingleFileIngestCommit \<Rightarrow> (db, reservation_row) tx" where
  "lockSingleFileIngestReservation e commit =
     tx_bind (lockLiveStorageQuotaReservation e (qr_ID (sf_Reservation commit)) (sf_ItemWorkspaceID commit)) (\<lambda>reservation.
     if sr_reserved_items reservation < 1 \<or> sr_reserved_images reservation < 1
     then tx_raise (ErrInvalid ''storage reservation does not cover one item and image'')
     else case ImmutableNameFromURL (sf_ImageURL commit) of
       None \<Rightarrow>
         if NameFromURL (sf_ImageURL commit) \<noteq> None then tx_raise (ErrInvalid ''local upload identity is not immutable'')
         else if sr_resource_key reservation \<noteq> None
         then tx_raise (ErrInvalid ''external image reservation is bound to an upload'')
         else tx_return reservation
     | Some uploadName \<Rightarrow>
         if sr_resource_key reservation \<noteq> Some uploadName
         then tx_raise (ErrInvalid ''upload staging identity does not match image'')
         else tx_bind (lockResourceCleanupByKindKey UploadBlob uploadName) (\<lambda>cleanup.
           if rc_workspace_id cleanup \<noteq> sf_ItemWorkspaceID commit \<or> rc_storage_bytes cleanup \<noteq> sf_StorageBytes commit
           then tx_raise (ErrInvalid ''staged upload accounting does not match image'')
           else if rc_delete_fenced_at cleanup \<noteq> None then tx_raise ErrUploadBlobRetired
           else tx_return reservation))"

end
