(* ===== verification/Storage_Accounting.thy ===== *)
theory Storage_Accounting
  imports Blob_Retirement
begin

section \<open>The counters are exact\<close>

text \<open>
  The counters of a workspace and of the installation are maintained by the statements of many
  transactions. This theory shows that they never drift: what is reserved is the sum of the
  reservations, and the installation's counters are the sums of the workspaces'. On top of it, no
  operation that checks the limits lets a counter exceed them.
\<close>

subsection \<open>Amounts\<close>

datatype resource = UploadBytes | PayloadBytes | ItemSlots | ImageSlots

fun amount :: "resource \<Rightarrow> StorageQuotaRequest \<Rightarrow> nat" where
  "amount UploadBytes q = Bytes q"
| "amount PayloadBytes q = DurableBytes q"
| "amount ItemSlots q = Items q"
| "amount ImageSlots q = Images q"

fun used :: "resource \<Rightarrow> usage_row \<Rightarrow> nat" where
  "used UploadBytes u = us_upload_blob_bytes u"
| "used PayloadBytes u = us_database_bytes u"
| "used ItemSlots u = us_item_count u"
| "used ImageSlots u = us_image_count u"

fun held :: "resource \<Rightarrow> usage_row \<Rightarrow> nat" where
  "held UploadBytes u = us_reserved_upload_blob_bytes u"
| "held PayloadBytes u = us_reserved_database_bytes u"
| "held ItemSlots u = us_reserved_item_count u"
| "held ImageSlots u = us_reserved_image_count u"

lemma all_resources: "(\<forall>k. P k) \<longleftrightarrow> P UploadBytes \<and> P PayloadBytes \<and> P ItemSlots \<and> P ImageSlots"
  by (metis resource.exhaust)

lemma empty_request_iff: "storageQuotaRequestEmpty q \<longleftrightarrow> (\<forall>k. amount k q = 0)"
  by (simp add: storageQuotaRequestEmpty_def all_resources)

lemma amount_no_request [simp]: "amount k no_request = 0"
  by (cases k) (simp_all add: no_request_def)

lemma covers_iff: "reserved_covers q u \<longleftrightarrow> (\<forall>k. amount k q \<le> held k u)" "used_covers q u \<longleftrightarrow> (\<forall>k. amount k q \<le> used k u)"
  by (auto simp: reserved_covers_def used_covers_def all_resources)

lemma row_effects [simp]:
  "used k (add_used q u) = used k u + amount k q" "held k (add_used q u) = held k u"
  "used k (sub_used q u) = used k u - amount k q" "held k (sub_used q u) = held k u"
  "used k (add_reserved q u) = used k u" "held k (add_reserved q u) = held k u + amount k q"
  "used k (sub_reserved q u) = used k u" "held k (sub_reserved q u) = held k u - amount k q"
  by (cases k; simp add: add_used_def sub_used_def add_reserved_def sub_reserved_def)+

lemma row_effects_id [simp]:
  "us_workspace_id (add_used q u) = us_workspace_id u" "us_workspace_id (sub_used q u) = us_workspace_id u"
  "us_workspace_id (add_reserved q u) = us_workspace_id u" "us_workspace_id (sub_reserved q u) = us_workspace_id u"
  by (simp_all add: add_used_def sub_used_def add_reserved_def sub_reserved_def)

lemma usage_row_eqI:
  assumes "us_workspace_id u = us_workspace_id v" and "\<forall>k. used k u = used k v" and "\<forall>k. held k u = held k v"
  shows "u = v"
  using assms by (auto simp: all_resources intro: usage_row.equality)

lemma usage_row_check_iff: "usage_row_check u \<longleftrightarrow> (\<forall>k. used k u \<le> MaxUint64 \<and> held k u \<le> MaxUint64)"
  by (auto simp: usage_row_check_def all_resources)

subsection \<open>The invariant\<close>

abbreviation request_of :: "reservation_row \<Rightarrow> StorageQuotaRequest" where
  "request_of \<equiv> storageQuotaRequestFromReservation"

definition reserved_sum :: "resource \<Rightarrow> nat \<Rightarrow> db \<Rightarrow> nat" where
  "reserved_sum k w d = (\<Sum>r \<leftarrow> filter (\<lambda>r. sr_workspace_id r = w) (reservations d). amount k (request_of r))"

abbreviation tenants :: "db \<Rightarrow> usage_row list" where
  "tenants d \<equiv> filter (\<lambda>u. us_workspace_id u \<noteq> 0) (usages d)"

definition usages_ok :: "db \<Rightarrow> bool" where
  "usages_ok d \<longleftrightarrow> distinct (map us_workspace_id (usages d)) \<and> 0 \<in> us_workspace_id ` set (usages d) \<and>
     (\<forall>u \<in> set (usages d). usage_row_check u)"

definition reservations_ok :: "db \<Rightarrow> bool" where
  "reservations_ok d \<longleftrightarrow> distinct (map sr_id (reservations d)) \<and>
     (\<forall>r \<in> set (reservations d). sr_workspace_id r \<noteq> 0 \<and> sr_workspace_id r \<in> us_workspace_id ` set (usages d) \<and>
        sr_reserved_items r \<le> MaxUint32 \<and> sr_reserved_images r \<le> MaxUint32)"

definition counters_ok :: "db \<Rightarrow> bool" where
  "counters_ok d \<longleftrightarrow> (\<forall>k. \<forall>u \<in> set (usages d).
     if us_workspace_id u = 0 then used k u = (\<Sum>t \<leftarrow> tenants d. used k t) \<and> held k u = (\<Sum>t \<leftarrow> tenants d. held k t)
     else held k u = reserved_sum k (us_workspace_id u) d)"

definition quota_inv :: "db \<Rightarrow> bool" where
  "quota_inv d \<longleftrightarrow> usages_ok d \<and> reservations_ok d \<and> counters_ok d"

lemmas quota_defs = quota_inv_def usages_ok_def reservations_ok_def counters_ok_def

definition quota_frame :: "db \<Rightarrow> db \<Rightarrow> bool" where
  "quota_frame d d' \<longleftrightarrow> usages d' = usages d \<and> reservations d' = reservations d"

lemma quota_frame_inv: "quota_frame d d' \<Longrightarrow> quota_inv d \<Longrightarrow> quota_inv d'"
  by (simp add: quota_frame_def quota_defs reserved_sum_def)

subsection \<open>One workspace's row and the totals\<close>

lemma sum_list_map_one:
  assumes "distinct (map key xs)" and "x \<in> set xs" and "\<And>y. y \<in> set xs \<Longrightarrow> key y \<noteq> key x \<Longrightarrow> g y = f y"
  shows "(\<Sum>y \<leftarrow> xs. g y) + f x = (\<Sum>y \<leftarrow> xs. f y) + (g x :: nat)"
  using assms
proof (induction xs)
  case (Cons y ys)
  show ?case
  proof (cases "y = x")
    case True
    then have "\<forall>z \<in> set ys. g z = f z" using Cons.prems by (auto simp: image_iff)
    then have "map g ys = map f ys" by simp
    then have "sum_list (map g ys) = sum_list (map f ys)" by (rule arg_cong)
    with True show ?thesis by simp
  next
    case False
    with Cons.prems have "x \<in> set ys" "key y \<noteq> key x" by auto
    with Cons.IH Cons.prems show ?thesis by simp
  qed
qed simp

lemma usage_unique: "usages_ok d \<Longrightarrow> u \<in> set (usages d) \<Longrightarrow> v \<in> set (usages d) \<Longrightarrow> us_workspace_id u = us_workspace_id v \<Longrightarrow> u = v"
  by (auto simp: usages_ok_def distinct_map dest: inj_onD)

text \<open>A statement on the rows of a workspace and of workspace 0 moves the total by as much as the workspace's counter.\<close>

lemma tenants_total:
  fixes g :: "usage_row \<Rightarrow> nat"
  assumes ok: "usages_ok d" and w: "w \<noteq> 0" "u \<in> set (usages d)" "us_workspace_id u = w"
    and f: "\<And>v. v \<in> set (usages d) \<Longrightarrow> in_usage w v \<Longrightarrow> us_workspace_id (f v) = us_workspace_id v"
    and d': "usages d' = sql_update (in_usage w) f (usages d)"
  shows "(\<Sum>t \<leftarrow> tenants d'. g t) + g u = (\<Sum>t \<leftarrow> tenants d. g t) + g (f u)"
proof -
  let ?F = "\<lambda>v. if us_workspace_id v = w then f v else v"
  have "tenants d' = map ?F (tenants d)"
    unfolding d' sql_update_def filter_map
    by (rule map_cong) (use f w(1) in \<open>auto simp: in_usage_def intro!: filter_cong split: if_splits\<close>)
  then have "(\<Sum>t \<leftarrow> tenants d'. g t) = (\<Sum>t \<leftarrow> tenants d. g (?F t))" by (simp add: comp_def)
  moreover have "distinct (map us_workspace_id (tenants d))" "u \<in> set (tenants d)"
    using ok w by (auto simp: usages_ok_def distinct_map_filter)
  ultimately show ?thesis using sum_list_map_one [of us_workspace_id "tenants d" u "\<lambda>v. g (?F v)" g] w(3) by simp
qed

lemma account_inv:
  assumes inv: "quota_inv d" and w: "w \<noteq> 0" "w \<in> us_workspace_id ` set (usages d)"
    and f: "\<And>v. v \<in> set (usages d) \<Longrightarrow> in_usage w v \<Longrightarrow> us_workspace_id (f v) = us_workspace_id v \<and> usage_row_check (f v) \<and>
      (\<forall>k. used k (f v) + out k = used k v + inn k \<and> held k (f v) + amount k cur = held k v + amount k new)"
    and d': "usages d' = sql_update (in_usage w) f (usages d)" and res: "reservations_ok d'"
    and sums: "\<And>k w'. reserved_sum k w' d' + (if w' = w then amount k cur else 0) = reserved_sum k w' d + (if w' = w then amount k new else 0)"
  shows "quota_inv d'"
proof -
  note ok = inv [unfolded quota_inv_def]
  from w(2) obtain u where u: "u \<in> set (usages d)" "us_workspace_id u = w" by blast
  have wu: "in_usage w u" using u(2) by (simp add: in_usage_def)
  note total = tenants_total [OF conjunct1 [OF ok] w(1) u conjunct1 [OF f] d']
  have ids: "map us_workspace_id (usages d') = map us_workspace_id (usages d)"
    unfolding d' sql_update_def map_map by (rule map_cong) (use f in auto)
  have "usages_ok d'"
    using ok f unfolding usages_ok_def ids set_map [symmetric] by (auto simp: d' sql_update_def)
  moreover have "counters_ok d'"
    unfolding counters_ok_def
  proof (intro allI ballI)
    fix k v' assume "v' \<in> set (usages d')"
    then obtain v where v: "v \<in> set (usages d)" "v' = (if in_usage w v then f v else v)" by (auto simp: d' sql_update_def)
    show "if us_workspace_id v' = 0 then used k v' = (\<Sum>t \<leftarrow> tenants d'. used k t) \<and> held k v' = (\<Sum>t \<leftarrow> tenants d'. held k t)
      else held k v' = reserved_sum k (us_workspace_id v') d'"
    proof (cases "in_usage w v")
      case True
      note fv = f [OF v(1) True] and fu = f [OF u(1) wu]
      have c: "if us_workspace_id v = 0 then used k v = (\<Sum>t \<leftarrow> tenants d. used k t) \<and> held k v = (\<Sum>t \<leftarrow> tenants d. held k t)
          else held k v = reserved_sum k (us_workspace_id v) d" using ok v(1) by (simp add: counters_ok_def)
      have "us_workspace_id v = 0 \<or> us_workspace_id v = w" using True by (simp add: in_usage_def)
      with c fv fu total [of "used k"] total [of "held k"] sums [of k w] v(2) True w(1) show ?thesis
        by (auto simp: algebra_simps dest!: spec [of _ k])
    next
      case False
      with v ok have "held k v' = reserved_sum k (us_workspace_id v') d" "us_workspace_id v' \<noteq> 0" "us_workspace_id v' \<noteq> w"
        by (auto simp: counters_ok_def in_usage_def)
      with sums [of k "us_workspace_id v'"] show ?thesis by simp
    qed
  qed
  ultimately show ?thesis using res by (simp add: quota_inv_def)
qed

subsection \<open>The accounting statements\<close>

lemma update_usages_Inr [tx_elims]:
  "update_usages P f d = Inr (n, d') \<longleftrightarrow>
     (\<forall>r \<in> set (usages d). P r \<longrightarrow> usage_row_check (f r)) \<and> n = sql_changed P f (usages d) \<and>
     d' = put_usages (sql_update P f (usages d)) d"
  by (simp add: update_usages_def exec_update_Inr)

lemma requireQuotaUsageRows_Inr [tx_elims]: "requireQuotaUsageRows m d = Inr (x, d') \<longleftrightarrow> m d = Inr (2, d')"
  by (auto simp: requireQuotaUsageRows_def tx_elims)

lemma tx_check_Inr [tx_elims]: "tx_check r d = Inr (x, d') \<longleftrightarrow> r = None \<and> d' = d"
  by (cases r) (auto simp: tx_check_def tx_elims)

definition quota_rows :: "nat \<Rightarrow> db \<Rightarrow> bool" where
  "quota_rows w d \<longleftrightarrow> usages_ok d \<and> w \<noteq> 0 \<and> w \<in> us_workspace_id ` set (usages d)"

lemma two_rows: "quota_rows w d \<Longrightarrow> length (filter (in_usage w) (usages d)) = 2"
proof -
  assume q: "quota_rows w d"
  then have "distinct (map us_workspace_id (filter (in_usage w) (usages d)))"
    by (simp add: quota_rows_def usages_ok_def distinct_map_filter)
  moreover have "set (map us_workspace_id (filter (in_usage w) (usages d))) = {0, w}"
    using q by (auto simp: quota_rows_def usages_ok_def in_usage_def)
  ultimately have "length (map us_workspace_id (filter (in_usage w) (usages d))) = card {0, w}" by (metis distinct_card)
  with q show ?thesis by (simp add: quota_rows_def)
qed

lemma filter_same_length:
  "length (filter P xs) = length (filter Q xs) \<Longrightarrow> (\<And>x. P x \<Longrightarrow> Q x) \<Longrightarrow> x \<in> set xs \<Longrightarrow> Q x \<Longrightarrow> P x"
proof (induction xs)
  case (Cons y ys)
  have "length (filter P ys) \<le> length (filter Q ys)" using Cons.prems(2) by (induction ys) (auto simp: le_SucI)
  with Cons show ?case by (auto split: if_splits)
qed simp

definition account :: "nat \<Rightarrow> (usage_row \<Rightarrow> usage_row) \<Rightarrow> db \<Rightarrow> db" where
  "account w f d = put_usages (sql_update (in_usage w) f (usages d)) d"

lemma account_id:
  assumes "\<And>u. f u = u"
  shows "account w f d = d"
proof -
  have "(\<lambda>u. if in_usage w u then f u else u) = (\<lambda>u. u)" using assms by auto
  then show ?thesis by (simp add: account_def sql_update_def)
qed

lemma account_account:
  assumes "\<And>u. us_workspace_id (f u) = us_workspace_id u"
  shows "account w g (account w f d) = account w (\<lambda>u. g (f u)) d"
  using assms by (auto simp: account_def sql_update_def in_usage_def)

lemma usages_account: "usages (account w f d) = sql_update (in_usage w) f (usages d)"
  by (simp add: account_def)

lemma empty_effects:
  assumes "storageQuotaRequestEmpty q"
  shows "sub_reserved q u = u" "add_reserved q u = u" "add_used q u = u" "sub_used q u = u"
  using assms by (auto intro!: usage_row_eqI simp: empty_request_iff)

lemma check_sub [simp]: "usage_row_check u \<Longrightarrow> usage_row_check (sub_reserved q u)" "usage_row_check u \<Longrightarrow> usage_row_check (sub_used q u)"
  by (auto simp: usage_row_check_iff intro: le_trans diff_le_self)

text \<open>A guarded subtraction that reports two rows has taken the amount off both.\<close>

lemma subtract_run:
  assumes q: "quota_rows w d" and "update_usages (\<lambda>r. in_usage w r \<and> P r) f d = Inr (2, d')"
  shows "d' = account w f d \<and> (\<forall>u \<in> set (usages d). in_usage w u \<longrightarrow> P u)"
proof -
  from assms(2) have n: "length (filter (\<lambda>r. (in_usage w r \<and> P r) \<and> f r \<noteq> r) (usages d)) = length (filter (in_usage w) (usages d))"
    and d': "d' = put_usages (sql_update (\<lambda>r. in_usage w r \<and> P r) f (usages d)) d"
    by (simp_all add: update_usages_Inr sql_changed_def two_rows [OF q])
  have all: "in_usage w u \<longrightarrow> P u" if "u \<in> set (usages d)" for u
    using filter_same_length [OF n _ that] by blast
  then have "sql_update (\<lambda>r. in_usage w r \<and> P r) f (usages d) = sql_update (in_usage w) f (usages d)"
    by (auto simp: sql_update_def)
  with d' all show ?thesis by (simp add: account_def)
qed

lemma subtractStorageQuotaReserved_run:
  assumes q: "quota_rows w d" and "subtractStorageQuotaReserved w r d = Inr (x, d')"
  shows "d' = account w (sub_reserved r) d \<and> (\<forall>u \<in> set (usages d). in_usage w u \<longrightarrow> reserved_covers r u)"
proof (cases "storageQuotaRequestEmpty r")
  case True
  with assms(2) have "d' = d" by (simp add: subtractStorageQuotaReserved_def tx_elims)
  with True show ?thesis by (simp add: account_id empty_effects covers_iff) (simp add: empty_request_iff)
next
  case False
  with assms(2) have "update_usages (\<lambda>u. in_usage w u \<and> reserved_covers r u) (sub_reserved r) d = Inr (2, d')"
    by (simp add: subtractStorageQuotaReserved_def subtractStorageQuotaReservedRows_def requireQuotaUsageRows_Inr)
  then show ?thesis by (rule subtract_run [OF q])
qed

lemma subtractStorageQuotaUsed_run:
  assumes q: "quota_rows w d" and "subtractStorageQuotaUsed w r d = Inr (x, d')"
  shows "d' = account w (sub_used r) d \<and> (\<forall>u \<in> set (usages d). in_usage w u \<longrightarrow> used_covers r u)"
proof (cases "storageQuotaRequestEmpty r")
  case True
  with assms(2) have "d' = d" by (simp add: subtractStorageQuotaUsed_def tx_elims)
  with True show ?thesis by (simp add: account_id empty_effects covers_iff) (simp add: empty_request_iff)
next
  case False
  with assms(2) have "update_usages (\<lambda>u. in_usage w u \<and> used_covers r u) (sub_used r) d = Inr (2, d')"
    by (simp add: subtractStorageQuotaUsed_def subtractStorageQuotaUsedRows_def requireQuotaUsageRows_Inr)
  then show ?thesis by (rule subtract_run [OF q])
qed

lemma add_run:
  "addStorageQuotaReserved w r d = Inr (x, d') \<Longrightarrow>
     d' = account w (add_reserved r) d \<and> (\<forall>u \<in> set (usages d). in_usage w u \<longrightarrow> usage_row_check (add_reserved r u))"
  "addStorageQuotaUsed w r d = Inr (x, d') \<Longrightarrow>
     d' = account w (add_used r) d \<and> (\<forall>u \<in> set (usages d). in_usage w u \<longrightarrow> usage_row_check (add_used r u))"
  by (auto simp: addStorageQuotaReserved_def addStorageQuotaReservedRows_def addStorageQuotaUsed_def
      addStorageQuotaUsedRows_def account_def tx_elims)

abbreviation moved_row :: "StorageQuotaRequest \<Rightarrow> StorageQuotaRequest \<Rightarrow> StorageQuotaRequest \<Rightarrow> usage_row \<Rightarrow> usage_row" where
  "moved_row cur new add u \<equiv> add_used add (add_reserved new (sub_reserved cur u))"

lemma moved_fields [simp]:
  "us_workspace_id (moved_row cur new add u) = us_workspace_id u"
  "used k (moved_row cur new add u) = used k u + amount k add"
  "held k (moved_row cur new add u) = held k u - amount k cur + amount k new"
  by simp_all

lemma replace_accounting_run:
  assumes q: "quota_rows w d" and run: "replaceStorageQuotaReservationAccounting w cur new add d = Inr (x, d')"
  shows "d' = account w (moved_row cur new add) d"
    and "\<And>u. u \<in> set (usages d) \<Longrightarrow> in_usage w u \<Longrightarrow> reserved_covers cur u \<and> usage_row_check (moved_row cur new add u)"
proof -
  from run obtain x1 d1 d2 where s1: "subtractStorageQuotaReserved w cur d = Inr (x1, d1)"
    and s2: "if storageQuotaRequestEmpty new then d2 = d1 else addStorageQuotaReserved w new d1 = Inr ((), d2)"
    and s3: "if storageQuotaRequestEmpty add then d' = d2 else addStorageQuotaUsed w add d2 = Inr ((), d')"
    by (auto simp: replaceStorageQuotaReservationAccounting_def tx_elims split: if_splits)
  note r1 = subtractStorageQuotaReserved_run [OF q s1]
  show "d' = account w (moved_row cur new add) d"
    using s2 s3 by (auto simp: r1 account_account empty_effects account_id split: if_splits dest!: add_run)
  show "reserved_covers cur u \<and> usage_row_check (moved_row cur new add u)" if u: "u \<in> set (usages d)" "in_usage w u" for u
  proof -
    let ?u1 = "sub_reserved cur u" and ?u2 = "add_reserved new (sub_reserved cur u)"
    have m1: "?u1 \<in> set (usages d1)" "in_usage w ?u1" using u by (auto simp: r1 usages_account sql_update_def in_usage_def)
    have m2: "?u2 \<in> set (usages d2)" "in_usage w ?u2"
      using s2 m1 by (auto simp: usages_account sql_update_def in_usage_def empty_effects split: if_splits dest!: add_run)
    have "usage_row_check ?u2" using s2 m1 q u by (auto simp: empty_effects quota_rows_def usages_ok_def split: if_splits dest!: add_run)
    then have "usage_row_check (add_used add ?u2)" using s3 m2 by (auto simp: empty_effects split: if_splits dest!: add_run)
    with r1 u show ?thesis by simp
  qed
qed

subsection \<open>The reservations\<close>

lemma reserved_sum_alt:
  "reserved_sum k w d = (\<Sum>r \<leftarrow> reservations d. if sr_workspace_id r = w then amount k (request_of r) else 0)"
  by (simp add: reserved_sum_def sum_list_map_filter')

lemma reserved_sum_insert:
  "reservations d' = reservations d @ [r] \<Longrightarrow>
     reserved_sum k w d' = reserved_sum k w d + (if w = sr_workspace_id r then amount k (request_of r) else 0)"
  by (simp add: reserved_sum_alt)

abbreviation same_reservation :: "string \<Rightarrow> nat \<Rightarrow> reservation_row \<Rightarrow> bool" where
  "same_reservation i w \<equiv> \<lambda>r. sr_id r = i \<and> sr_workspace_id r = w"

lemma reserved_sum_update:
  assumes "reservations_ok d" and r: "r \<in> set (reservations d)" "sr_id r = i" "sr_workspace_id r = w"
    and g: "\<And>r. sr_id (g r) = sr_id r \<and> sr_workspace_id (g r) = sr_workspace_id r"
    and d': "reservations d' = sql_update (same_reservation i w) g (reservations d)"
  shows "reserved_sum k w' d' + (if w' = w then amount k (request_of r) else 0) =
    reserved_sum k w' d + (if w' = w then amount k (request_of (g r)) else 0)"
proof -
  let ?f = "\<lambda>r. if sr_workspace_id r = w' then amount k (request_of r) else 0"
  have "reserved_sum k w' d' = (\<Sum>r \<leftarrow> reservations d. ?f (if same_reservation i w r then g r else r))"
    by (simp add: reserved_sum_alt d' sql_update_def comp_def)
  moreover have "distinct (map sr_id (reservations d))" using assms(1) by (simp add: reservations_ok_def)
  ultimately show ?thesis
    using sum_list_map_one [of sr_id "reservations d" r "\<lambda>r. ?f (if same_reservation i w r then g r else r)" ?f] r g
    by (auto simp: reserved_sum_alt)
qed

lemma reserved_sum_delete:
  assumes "reservations_ok d" and r: "r \<in> set (reservations d)" "sr_id r = i" "sr_workspace_id r = w"
    and d': "reservations d' = sql_delete (same_reservation i w) (reservations d)"
  shows "reserved_sum k w' d' + (if w' = w then amount k (request_of r) else 0) = reserved_sum k w' d"
proof -
  let ?f = "\<lambda>r. if sr_workspace_id r = w' then amount k (request_of r) else 0"
  have "reserved_sum k w' d' = (\<Sum>r \<leftarrow> reservations d. if same_reservation i w r then 0 else ?f r)"
    by (simp add: reserved_sum_alt d' sql_delete_def sum_list_map_filter') (rule arg_cong [where f = sum_list], simp)
  moreover have "distinct (map sr_id (reservations d))" using assms(1) by (simp add: reservations_ok_def)
  ultimately show ?thesis
    using sum_list_map_one [of sr_id "reservations d" r "\<lambda>r. if same_reservation i w r then 0 else ?f r" ?f] r
    by (auto simp: reserved_sum_alt)
qed

lemma reservations_ok_update:
  assumes "reservations_ok d" and "map us_workspace_id (usages d') = map us_workspace_id (usages d)"
    and "\<And>r. sr_id (g r) = sr_id r \<and> sr_workspace_id (g r) = sr_workspace_id r"
    and "\<And>r. r \<in> set (reservations d) \<Longrightarrow> P r \<Longrightarrow> sr_reserved_items (g r) \<le> MaxUint32 \<and> sr_reserved_images (g r) \<le> MaxUint32"
    and "reservations d' = sql_update P g (reservations d)"
  shows "reservations_ok d'"
proof -
  have "us_workspace_id ` set (usages d') = us_workspace_id ` set (usages d)" using assms(2) by (metis set_map)
  with assms show ?thesis by (auto simp: reservations_ok_def map_key_sql_update set_sql_update)
qed

lemma reservations_ok_delete:
  assumes "reservations_ok d" and "map us_workspace_id (usages d') = map us_workspace_id (usages d)"
    and "reservations d' = sql_delete P (reservations d)"
  shows "reservations_ok d'"
proof -
  have "us_workspace_id ` set (usages d') = us_workspace_id ` set (usages d)" using assms(2) by (metis set_map)
  with assms show ?thesis by (auto simp: reservations_ok_def sql_delete_def distinct_map_filter)
qed

subsection \<open>Moving amounts\<close>

text \<open>
  What every operation does to the counters: in workspace \<open>w\<close> and in the totals, \<open>cur\<close> is no longer
  reserved, \<open>new\<close> is, and \<open>add\<close> is used; the reservations of the workspace change accordingly.
\<close>

definition quota_moved ::
    "nat \<Rightarrow> StorageQuotaRequest \<Rightarrow> StorageQuotaRequest \<Rightarrow> StorageQuotaRequest \<Rightarrow> db \<Rightarrow> db \<Rightarrow> bool" where
  "quota_moved w cur new add d d' \<longleftrightarrow> quota_rows w d \<and>
     usages d' = sql_update (in_usage w) (moved_row cur new add) (usages d) \<and>
     (\<forall>u \<in> set (usages d). in_usage w u \<longrightarrow> reserved_covers cur u \<and> usage_row_check (moved_row cur new add u)) \<and>
     reservations_ok d' \<and>
     (\<forall>k w'. reserved_sum k w' d' + (if w' = w then amount k cur else 0) = reserved_sum k w' d + (if w' = w then amount k new else 0))"

lemma quota_moved_inv:
  assumes "quota_inv d" and m: "quota_moved w cur new add d d'"
  shows "quota_inv d'"
proof (rule account_inv [OF assms(1), where out = "\<lambda>_. 0" and inn = "\<lambda>k. amount k add" and cur = cur and new = new])
  show "w \<noteq> 0" "w \<in> us_workspace_id ` set (usages d)" using m by (simp_all add: quota_moved_def quota_rows_def)
  fix v assume "v \<in> set (usages d)" "in_usage w v"
  with m have "reserved_covers cur v" "usage_row_check (moved_row cur new add v)" by (auto simp: quota_moved_def)
  then show "us_workspace_id (moved_row cur new add v) = us_workspace_id v \<and> usage_row_check (moved_row cur new add v) \<and>
      (\<forall>k. used k (moved_row cur new add v) + 0 = used k v + amount k add \<and>
         held k (moved_row cur new add v) + amount k cur = held k v + amount k new)"
    by (auto simp: covers_iff intro!: le_add_diff_inverse2 trans_le_add1)
qed (use m in \<open>auto simp: quota_moved_def\<close>)

lemma moved_ids: "map us_workspace_id (usages (account w (moved_row cur new add) d)) = map us_workspace_id (usages d)"
  by (simp add: usages_account map_key_sql_update)

text \<open>The accounting of a replaced reservation, followed by the update or the deletion of its row.\<close>

lemma moved_update:
  assumes inv: "quota_inv d" and q: "quota_rows w d" and r: "r \<in> set (reservations d)" "sr_id r = i" "sr_workspace_id r = w"
    and acc: "replaceStorageQuotaReservationAccounting w (request_of r) new add d1 = Inr (x, d2)"
    and d1: "usages d1 = usages d" "reservations d1 = reservations d"
    and d': "usages d' = usages d2" "reservations d' = sql_update (same_reservation i w) g (reservations d2)"
    and g: "\<And>r. sr_id (g r) = sr_id r \<and> sr_workspace_id (g r) = sr_workspace_id r" "request_of (g r) = new"
      "Items new \<le> MaxUint32" "Images new \<le> MaxUint32"
  shows "quota_moved w (request_of r) new add d d'"
proof -
  have q1: "quota_rows w d1" using q d1 by (simp add: quota_rows_def usages_ok_def)
  note run = replace_accounting_run [OF q1 acc]
  have ok: "reservations_ok d" using inv by (simp add: quota_inv_def)
  have res: "reservations d' = sql_update (same_reservation i w) g (reservations d)" by (simp add: d' run(1) account_def d1)
  have one: "r' = r" if "r' \<in> set (reservations d)" "same_reservation i w r'" for r'
    using ok that r by (auto simp: reservations_ok_def distinct_map dest: inj_onD)
  have lim: "sr_reserved_items (g r) \<le> MaxUint32 \<and> sr_reserved_images (g r) \<le> MaxUint32"
    using g(2-4) by (auto simp: storageQuotaRequestFromReservation_def)
  have "map us_workspace_id (usages d') = map us_workspace_id (usages d)" using moved_ids [of w _ _ _ d1] by (simp add: d' run(1) d1)
  with ok g(1) res one lim have "reservations_ok d'" by (intro reservations_ok_update [of d d' g "same_reservation i w"]) auto
  then show ?thesis
    using q run(2) reserved_sum_update [OF ok r g(1) res] by (simp add: quota_moved_def d' run(1) usages_account d1 g(2))
qed

lemma moved_delete:
  assumes inv: "quota_inv d" and q: "quota_rows w d" and r: "r \<in> set (reservations d)" "sr_id r = i" "sr_workspace_id r = w"
    and acc: "replaceStorageQuotaReservationAccounting w (request_of r) no_request add d = Inr (x, d1)"
    and d': "usages d' = usages d1" "reservations d' = sql_delete (same_reservation i w) (reservations d1)"
  shows "quota_moved w (request_of r) no_request add d d'"
proof -
  note run = replace_accounting_run [OF q acc]
  have ok: "reservations_ok d" using inv by (simp add: quota_inv_def)
  have res: "reservations d' = sql_delete (same_reservation i w) (reservations d)" by (simp add: d' run(1) account_def)
  have "map us_workspace_id (usages d') = map us_workspace_id (usages d)" using moved_ids [of w _ _ _ d] by (simp add: d' run(1))
  with ok res have "reservations_ok d'" by (intro reservations_ok_delete [of d d'])
  then show ?thesis
    using q run(2) reserved_sum_delete [OF ok r res] by (simp add: quota_moved_def d' run(1) usages_account)
qed

end
