(* ===== verification/Storage_Operations.thy ===== *)
theory Storage_Operations
  imports Storage_Accounting
begin

section \<open>What the quota operations keep\<close>

text \<open>
  Every operation of \<^verbatim>\<open>storage_quota.go\<close> keeps the counters exact, and one that checks the limits
  keeps them below the limits. The upload of a batch and a single-file ingest move a reservation to
  the used counters; they run inside a larger transaction and are stated for the row it has locked.
\<close>

subsection \<open>Limits\<close>

definition usage_fits :: "nat \<Rightarrow> nat \<Rightarrow> nat \<Rightarrow> usage_row \<Rightarrow> bool" where
  "usage_fits max_bytes max_items max_images u \<longleftrightarrow>
     used UploadBytes u + used PayloadBytes u + (held UploadBytes u + held PayloadBytes u) \<le> max_bytes \<and>
     used ItemSlots u + held ItemSlots u \<le> max_items \<and> used ImageSlots u + held ImageSlots u \<le> max_images"

definition within :: "StorageQuotaLimits \<Rightarrow> usage_row \<Rightarrow> bool" where
  "within l u \<longleftrightarrow>
     (if us_workspace_id u = 0 then usage_fits (MaxBytesTotal l) (MaxItemsTotal l) (MaxImagesTotal l) u
      else usage_fits (MaxBytesPerWorkspace l) (MaxItemsPerWorkspace l) (MaxImagesPerWorkspace l) u)"

definition bounded :: "StorageQuotaLimits \<Rightarrow> db \<Rightarrow> bool" where
  "bounded l d \<longleftrightarrow> list_all (within l) (usages d)"

lemma exceedsStorageLimit_iff: "exceedsStorageLimit u r q l \<longleftrightarrow> u + r + q > l"
  by (auto simp: exceedsStorageLimit_def)

lemma addUint64_Some: "addUint64 a b = Some c \<longleftrightarrow> c = a + b \<and> b \<le> MaxUint64 - a"
  by (auto simp: addUint64_def)

lemmas quota_usage_simps = storageQuotaUsageFromRow_def usedBytes_def reservedBytes_def add_used_def sub_used_def
  add_reserved_def sub_reserved_def

lemma counters_within:
  assumes "checkStorageQuotaCounters (storageQuotaUsageFromRow g) (storageQuotaUsageFromRow v) q l = None"
    and "us_workspace_id g = 0" and "us_workspace_id v \<noteq> 0"
  shows "within l (add_reserved q g) \<and> within l (add_reserved q v)"
  using assms
  by (auto simp: checkStorageQuotaCounters_def within_def usage_fits_def quota_usage_simps exceedsStorageLimit_iff
      addUint64_Some algebra_simps split: option.splits if_splits)

lemma adjust_usage_Inr:
  "adjust_usage cur add (storageQuotaUsageFromRow u) = Inr v \<Longrightarrow>
     v = storageQuotaUsageFromRow (add_used add (sub_reserved cur u)) \<and> reserved_covers cur u"
  by (auto simp: adjust_usage_def quota_usage_simps reserved_covers_def addUint64_Some split: if_splits option.splits)

lemma moved_row_commute: "moved_row cur new add u = add_reserved new (add_used add (sub_reserved cur u))"
  by (simp add: add_reserved_def add_used_def sub_reserved_def)

lemma replacement_within:
  assumes "checkStorageQuotaReplacement (storageQuotaUsageFromRow g) (storageQuotaUsageFromRow v) cur new add l = None"
    and "us_workspace_id g = 0" and "us_workspace_id v \<noteq> 0"
  shows "within l (moved_row cur new add g) \<and> within l (moved_row cur new add v)"
  using assms unfolding moved_row_commute
  by (auto simp: checkStorageQuotaReplacement_def dest!: adjust_usage_Inr counters_within split: sum.splits)

text \<open>Amounts that only leave, or move from reserved to used, cannot break a limit.\<close>

lemma usage_fits_mono:
  assumes "usage_fits b i m u" and le: "\<And>k. used k v + held k v \<le> used k u + held k u"
  shows "usage_fits b i m v"
  using assms(1) le [of UploadBytes] le [of PayloadBytes] le [of ItemSlots] le [of ImageSlots]
  by (simp add: usage_fits_def)

lemma within_mono:
  "within l u \<Longrightarrow> us_workspace_id v = us_workspace_id u \<Longrightarrow> (\<And>k. used k v + held k v \<le> used k u + held k u) \<Longrightarrow> within l v"
  by (auto simp: within_def intro: usage_fits_mono split: if_splits)

lemma moved_within:
  assumes "within l u" and "reserved_covers cur u" and "\<And>k. amount k new + amount k add \<le> amount k cur"
  shows "within l (moved_row cur new add u)"
proof (rule within_mono [OF assms(1)])
  fix k
  have "amount k cur \<le> held k u" using assms(2) by (simp add: covers_iff)
  with assms(3) [of k] show "used k (moved_row cur new add u) + held k (moved_row cur new add u) \<le> used k u + held k u"
    by simp
qed simp

text \<open>What an operation that respects the limits \<open>l\<close> keeps.\<close>

definition keeps :: "StorageQuotaLimits \<Rightarrow> db \<Rightarrow> db \<Rightarrow> bool" where
  "keeps l d d' \<longleftrightarrow> quota_inv d' \<and> (bounded l d \<longrightarrow> bounded l d')"

lemma frame_keeps: "quota_frame d d' \<Longrightarrow> quota_inv d \<Longrightarrow> keeps l d d'"
  by (auto simp: keeps_def bounded_def quota_frame_inv) (simp add: quota_frame_def)

lemma account_bounded:
  assumes "usages d' = sql_update (in_usage w) f (usages d)" and "bounded l d"
    and "\<And>u. u \<in> set (usages d) \<Longrightarrow> in_usage w u \<Longrightarrow> within l u \<Longrightarrow> within l (f u)"
  shows "bounded l d'"
  using assms by (auto simp: bounded_def list_all_iff set_sql_update)

lemma moved_keeps:
  assumes "quota_inv d" and m: "quota_moved w cur new add d d'"
    and "\<And>u. u \<in> set (usages d) \<Longrightarrow> in_usage w u \<Longrightarrow> within l u \<Longrightarrow> reserved_covers cur u \<Longrightarrow> within l (moved_row cur new add u)"
  shows "keeps l d d'"
proof -
  have "bounded l d \<longrightarrow> bounded l d'"
    using m assms(3) by (auto simp: quota_moved_def intro!: account_bounded [of d' w "moved_row cur new add" d l])
  with quota_moved_inv [OF assms(1,2)] show ?thesis by (simp add: keeps_def)
qed

subsection \<open>Locked rows\<close>

abbreviation usage_of :: "nat \<Rightarrow> db \<Rightarrow> usage_row option" where
  "usage_of w d \<equiv> find (\<lambda>r. us_workspace_id r = w) (usages d)"

abbreviation reservation_of :: "string \<Rightarrow> nat \<Rightarrow> db \<Rightarrow> reservation_row option" where
  "reservation_of i w d \<equiv> find (same_reservation i w) (reservations d)"

lemma lock_usage_Inr [tx_elims]:
  "lockStorageQuotaUsageRow w d = Inr (u, d') \<longleftrightarrow> usage_of w d = Some u \<and> d' = d"
  "lockWorkspaceStorageQuotaUsage w d = Inr (u, d') \<longleftrightarrow> w \<noteq> 0 \<and> usage_of w d = Some u \<and> d' = d"
  "lockStorageQuotaUsage w d = Inr (gu, d') \<longleftrightarrow> w \<noteq> 0 \<and> usage_of 0 d = Some (fst gu) \<and> usage_of w d = Some (snd gu) \<and> d' = d"
  by (auto simp: lockStorageQuotaUsageRow_def lockWorkspaceStorageQuotaUsage_def lockStorageQuotaUsage_def tx_elims split: if_splits)

lemma lock_guards_Inr [tx_elims]:
  "lockStorageQuotaGuards w d = Inr (x, d') \<longleftrightarrow> w \<noteq> 0 \<and> usage_of w d \<noteq> None \<and> d' = d"
  by (auto simp: lockStorageQuotaGuards_def lock_usage_Inr tx_elims)

lemma lock_reservation_Inr [tx_elims]:
  "lockStorageQuotaReservation i w d = Inr (r, d') \<longleftrightarrow> reservation_of i w d = Some r \<and> d' = d"
  by (simp add: lockStorageQuotaReservation_def tx_elims)

lemma lock_live_reservation_Inr:
  "lockLiveStorageQuotaReservation e i w d = Inr (r, d') \<Longrightarrow>
     d' = d \<and> r \<in> set (reservations d) \<and> sr_id r = i \<and> sr_workspace_id r = w \<and> now6 e < sr_expires_at r"
  by (auto simp: lockLiveStorageQuotaReservation_def tx_elims find_Some_iff)

lemma find_row: "find P xs = Some x \<Longrightarrow> x \<in> set xs \<and> P x"
  by (auto simp: find_Some_iff)

lemma quota_rowsI: "quota_inv d \<Longrightarrow> w \<noteq> 0 \<Longrightarrow> u \<in> set (usages d) \<Longrightarrow> us_workspace_id u = w \<Longrightarrow> quota_rows w d"
  by (auto simp: quota_rows_def quota_inv_def)

lemma two_rows_within:
  assumes "quota_inv d" and "g \<in> set (usages d)" "us_workspace_id g = 0" and "v \<in> set (usages d)" "us_workspace_id v = w"
    and "P g \<and> P v" and "u \<in> set (usages d)" and "in_usage w u"
  shows "P u"
  using assms usage_unique [of d u] by (auto simp: in_usage_def quota_inv_def)

lemma to_uint32_id [simp]: "n \<le> MaxUint32 \<Longrightarrow> to_uint32 n = n"
  by (simp add: to_uint32_def MaxUint32_def)

lemma valid_request:
  assumes "validateStorageQuotaRequest q = None"
  shows "Items q \<le> MaxUint32" "Images q \<le> MaxUint32"
  using assms by (auto simp: validateStorageQuotaRequest_def split: if_splits)

subsection \<open>Reserving\<close>

lemma insert_reservation_Inr:
  "insertStorageQuotaReservation e r d = Inr (x, d') \<Longrightarrow>
     d' = put_reservations (reservations d @ [r\<lparr>sr_created_at := now6 e\<rparr>]) d \<and> sr_id r \<notin> sr_id ` set (reservations d)"
  by (auto simp: insertStorageQuotaReservation_def list_ex_iff split: if_splits)

definition reserved_row :: "env \<Rightarrow> nat \<Rightarrow> StorageQuotaRequest \<Rightarrow> StorageQuotaLimits \<Rightarrow> reservation_row" where
  "reserved_row e w q l =
     \<lparr>sr_id = uuid e, sr_workspace_id = w, sr_reserved_bytes = Bytes q, sr_reserved_database_bytes = DurableBytes q,
      sr_reserved_items = to_uint32 (Items q), sr_reserved_images = to_uint32 (Images q), sr_resource_key = None,
      sr_expires_at = clock6 e + nat (ReservationTTL l), sr_created_at = now6 e\<rparr>"

lemma reserve_quota_run:
  assumes "ReserveStorageQuota e w q l d = Inr (x, d')"
  obtains g v where "\<not> storageQuotaRequestEmpty q" "validateStorageQuotaRequest q = None" "w \<noteq> 0" "usage_of 0 d = Some g" "usage_of w d = Some v"
    "checkStorageQuotaCounters (storageQuotaUsageFromRow g) (storageQuotaUsageFromRow v) q l = None"
    "uuid e \<notin> sr_id ` set (reservations d)" "reservations d' = reservations d @ [reserved_row e w q l]"
    "usages d' = sql_update (in_usage w) (add_reserved q) (usages d)"
    "\<forall>u \<in> set (usages d). in_usage w u \<longrightarrow> usage_row_check (add_reserved q u)"
    "x = \<lparr>qr_ID = uuid e, qr_WorkspaceID = w, qr_Request = q, qr_ExpiresAt = clock6 e + nat (ReservationTTL l)\<rparr>"
proof -
  from assms obtain g v d1 where q: "\<not> storageQuotaRequestEmpty q" "validateStorageQuotaRequest q = None" "w \<noteq> 0" "usage_of 0 d = Some g" "usage_of w d = Some v"
    "checkStorageQuotaCounters (storageQuotaUsageFromRow g) (storageQuotaUsageFromRow v) q l = None"
    and x: "x = \<lparr>qr_ID = uuid e, qr_WorkspaceID = w, qr_Request = q, qr_ExpiresAt = clock6 e + nat (ReservationTTL l)\<rparr>"
    and ins: "insertStorageQuotaReservation e (reserved_row e w q l) d = Inr ((), d1)"
    and add: "addStorageQuotaReserved w q d1 = Inr ((), d')"
    by (auto simp: ReserveStorageQuota_def reserved_row_def tx_elims Let_def lockWorkspaceForUseManual_def split: if_splits)
  show thesis
    using insert_reservation_Inr [OF ins] add_run(1) [OF add] that [OF q] x by (simp add: reserved_row_def account_def)
qed

lemma reserve_moved:
  assumes inv: "quota_inv d" and run: "ReserveStorageQuota e w q l d = Inr (x, d')"
  shows "quota_moved w no_request q no_request d d'" and "keeps l d d'"
proof -
  from run obtain g v where q: "validateStorageQuotaRequest q = None"
    and lock: "w \<noteq> 0" "usage_of 0 d = Some g" "usage_of w d = Some v"
    and chk: "checkStorageQuotaCounters (storageQuotaUsageFromRow g) (storageQuotaUsageFromRow v) q l = None"
    and fresh: "uuid e \<notin> sr_id ` set (reservations d)" and res: "reservations d' = reservations d @ [reserved_row e w q l]"
    and us: "usages d' = sql_update (in_usage w) (add_reserved q) (usages d)"
    and ok: "\<forall>u \<in> set (usages d). in_usage w u \<longrightarrow> usage_row_check (add_reserved q u)"
    by (rule reserve_quota_run)
  note L = lock(1) lock(2,3) [THEN find_row] and V = valid_request [OF q]
  have moved: "moved_row no_request q no_request = add_reserved q"
    by (rule ext) (rule usage_row_eqI; simp)
  have rows: "quota_rows w d" using inv L by (auto intro: quota_rowsI)
  have r: "request_of (reserved_row e w q l) = q" using V by (simp add: reserved_row_def storageQuotaRequestFromReservation_def)
  have "us_workspace_id ` set (usages d') = us_workspace_id ` set (usages d)"
    using us map_key_sql_update [of "in_usage w" us_workspace_id "add_reserved q" "usages d"] by (metis row_effects_id(3) set_map)
  then have "reservations_ok d'"
    using inv res fresh L V by (auto simp: quota_inv_def reservations_ok_def reserved_row_def)
  then show m: "quota_moved w no_request q no_request d d'"
    using rows us ok reserved_sum_insert [OF res] r unfolding quota_moved_def moved
    by (auto simp: covers_iff reserved_row_def moved [THEN fun_cong])
  show "keeps l d d'"
  proof (rule moved_keeps [OF inv m])
    fix u assume "u \<in> set (usages d)" "in_usage w u"
    then show "within l (moved_row no_request q no_request u)"
      unfolding moved [THEN fun_cong]
      using two_rows_within [OF inv, of g v w "\<lambda>u. within l (add_reserved q u)" u] counters_within [OF chk] L by simp
  qed
qed

subsection \<open>Resizing and staging\<close>

lemma one_affected_update:
  "requireOneAffected (exec_update get put (\<lambda>_. True) P g) d = Inr (x, d') \<Longrightarrow> d' = put (sql_update P g (get d)) d"
  by (auto simp: requireOneAffected_def tx_elims)

lemma one_affected_delete:
  "requireOneAffected (exec_delete get put P) d = Inr (x, d') \<Longrightarrow> d' = put (sql_delete P (get d)) d"
  by (auto simp: requireOneAffected_def tx_elims)

lemma checked_moved_keeps:
  assumes inv: "quota_inv d" and m: "quota_moved w cur new add d d'"
    and lock: "usage_of 0 d = Some g" "usage_of w d = Some v" "w \<noteq> 0"
    and chk: "checkStorageQuotaReplacement (storageQuotaUsageFromRow g) (storageQuotaUsageFromRow v) cur new add l = None"
  shows "keeps l d d'"
proof (rule moved_keeps [OF inv m])
  note L = lock(1,2) [THEN find_row] lock(3)
  fix u assume "u \<in> set (usages d)" "in_usage w u"
  then show "within l (moved_row cur new add u)"
    using two_rows_within [OF inv, of g v w "\<lambda>u. within l (moved_row cur new add u)" u] replacement_within [OF chk] L by simp
qed

lemma resize_upload_Inr: "resize_upload w b k d = Inr (a, d') \<Longrightarrow> d' = d"
  by (auto simp: resize_upload_def lockResourceCleanupByKindKey_def tx_elims split: option.splits if_splits)

lemma resize_cleanup_Inr:
  "(case k of None \<Rightarrow> tx_return () | Some key \<Rightarrow> tx_bind (resizeStagedUploadCleanup e w b t key) (\<lambda>_. tx_return ())) d = Inr (x, d') \<Longrightarrow>
     usages d' = usages d \<and> reservations d' = reservations d"
  by (auto simp: resizeStagedUploadCleanup_def tx_elims split: option.splits)

lemma moved_rewritten:
  assumes inv: "quota_inv d" and q: "quota_rows w d" and r: "r \<in> set (reservations d)" "sr_id r = i" "sr_workspace_id r = w"
    and acc: "replaceStorageQuotaReservationAccounting w (request_of r) new add d1 = Inr (x, d2)"
    and d1: "usages d1 = usages d" "reservations d1 = reservations d"
    and new: "validateStorageQuotaRequest new = None"
    and upd: "requireOneAffected (updateStorageQuotaReservation new key t i w) d2 = Inr (y, d')"
  shows "quota_moved w (request_of r) new add d d'"
proof -
  let ?g = "\<lambda>r. r\<lparr>sr_reserved_bytes := Bytes new, sr_reserved_database_bytes := DurableBytes new,
    sr_reserved_items := to_uint32 (Items new), sr_reserved_images := to_uint32 (Images new),
    sr_resource_key := key, sr_expires_at := t\<rparr>"
  have d': "d' = put_reservations (sql_update (same_reservation i w) ?g (reservations d2)) d2"
    using one_affected_update [OF upd [unfolded updateStorageQuotaReservation_def]] .
  note V = valid_request [OF new]
  show ?thesis
    by (rule moved_update [OF inv q r acc d1, where g = ?g])
      (use V in \<open>simp_all add: d' storageQuotaRequestFromReservation_def\<close>)
qed

lemma resize_keeps:
  assumes inv: "quota_inv d" and run: "ResizeStorageQuotaReservation e x q l d = Inr (y, d')"
  shows "keeps l d d'"
proof -
  let ?w = "qr_WorkspaceID x" and ?i = "qr_ID x" and ?t = "clock6 e + nat (ReservationTTL l)"
  from run obtain v r a g d1 d2 where lock: "?w \<noteq> 0" "usage_of ?w d = Some v" "reservation_of ?i ?w d = Some r" "usage_of 0 d = Some g"
    and chk: "checkStorageQuotaReplacement (storageQuotaUsageFromRow g) (storageQuotaUsageFromRow v) (request_of r)
      (accounted_request (sr_resource_key r) q) (no_request\<lparr>Bytes := a\<rparr>) l = None"
    and d1: "usages d1 = usages d" "reservations d1 = reservations d"
    and acc: "replaceStorageQuotaReservationAccounting ?w (request_of r)
      (accounted_request (sr_resource_key r) q) (no_request\<lparr>Bytes := a\<rparr>) d1 = Inr ((), d2)"
    and new: "validateStorageQuotaRequest (accounted_request (sr_resource_key r) q) = None"
    and upd: "requireOneAffected (updateStorageQuotaReservation (accounted_request (sr_resource_key r) q)
      (sr_resource_key r) ?t ?i ?w) d2 = Inr ((), d')"
    by (auto simp: ResizeStorageQuotaReservation_def Let_def tx_elims dest!: resize_upload_Inr resize_cleanup_Inr split: if_splits)
  note L = lock(1) lock(2-) [THEN find_row]
  have "quota_moved ?w (request_of r) (accounted_request (sr_resource_key r) q) (no_request\<lparr>Bytes := a\<rparr>) d d'"
    by (rule moved_rewritten [OF inv _ _ _ _ acc d1 new upd]) (use L inv in \<open>auto intro: quota_rowsI\<close>)
  then show ?thesis using checked_moved_keeps [OF inv _ lock(4,2,1) chk] by blast
qed

lemma lock_upload_Inr:
  "lockUploadCleanupForReference w key d = Inr (c, d') \<longleftrightarrow>
     d' = d \<and> c = find (\<lambda>r. rc_kind r = UploadBlob \<and> rc_resource_key r = key) (cleanups d) \<and>
     (case c of None \<Rightarrow> True | Some r \<Rightarrow> rc_workspace_id r = w \<and> rc_delete_fenced_at r = None)"
  by (cases "find (\<lambda>r. rc_kind r = UploadBlob \<and> rc_resource_key r = key) (cleanups d)")
    (auto simp: lockUploadCleanupForReference_def lockResourceCleanupByKindKey_def tx_simps)

lemma upsert_cleanup_frame: "upsertResourceCleanup e k key w b t d = Inr (x, d') \<Longrightarrow> quota_frame d d'"
  by (auto simp: upsertResourceCleanup_def quota_frame_def Let_def split: if_splits)

lemma stage_keeps:
  assumes inv: "quota_inv d" and run: "StageStorageQuotaUpload e x url b l d = Inr (y, d')"
  shows "keeps l d d'"
proof -
  let ?w = "qr_WorkspaceID x" and ?i = "qr_ID x"
  from run obtain key v r a g d1 d2 where lock: "?w \<noteq> 0" "usage_of ?w d = Some v" "usage_of 0 d = Some g"
      "lockLiveStorageQuotaReservation e ?i ?w d = Inr (r, d)"
    and chk: "checkStorageQuotaReplacement (storageQuotaUsageFromRow g) (storageQuotaUsageFromRow v) (request_of r)
      ((request_of r)\<lparr>Bytes := 0\<rparr>) (no_request\<lparr>Bytes := a\<rparr>) l = None"
    and d1: "quota_frame d d1"
    and acc: "replaceStorageQuotaReservationAccounting ?w (request_of r)
      ((request_of r)\<lparr>Bytes := 0\<rparr>) (no_request\<lparr>Bytes := a\<rparr>) d1 = Inr ((), d2)"
    and upd: "requireOneAffected (bindStorageQuotaReservationResource key ?i ?w) d2 = Inr ((), d')"
    by (auto simp: StageStorageQuotaUpload_def Let_def tx_elims lockLiveStorageQuotaReservation_def
        lock_upload_Inr dest!: upsert_cleanup_frame split: if_splits option.splits)
  note L = lock(1) lock(2,3) [THEN find_row] lock_live_reservation_Inr [OF lock(4)]
  note U = one_affected_update [OF upd [unfolded bindStorageQuotaReservationResource_def]]
  have "sr_reserved_items r \<le> MaxUint32" "sr_reserved_images r \<le> MaxUint32"
    using inv L by (auto simp: quota_inv_def reservations_ok_def)
  then have "quota_moved ?w (request_of r) ((request_of r)\<lparr>Bytes := 0\<rparr>) (no_request\<lparr>Bytes := a\<rparr>) d d'"
    by (intro moved_update [OF inv _ _ _ _ acc, where i = ?i and g = "\<lambda>r. r\<lparr>sr_reserved_bytes := 0, sr_resource_key := Some key\<rparr>"])
      (use L d1 inv in \<open>auto simp: U quota_frame_def storageQuotaRequestFromReservation_def intro: quota_rowsI\<close>)
  then show ?thesis using checked_moved_keeps [OF inv _ lock(3,2,1) chk] by blast
qed

subsection \<open>Releasing\<close>

lemma subtract_as_replace:
  "subtractStorageQuotaReserved w cur d = Inr (x, d') \<Longrightarrow>
     replaceStorageQuotaReservationAccounting w cur no_request no_request d = Inr ((), d')"
  by (simp add: replaceStorageQuotaReservationAccounting_def tx_simps empty_request_iff)

lemma delete_cleanup_frame: "deleteResourceCleanupByKindKey k key d = Inr (x, d') \<Longrightarrow> quota_frame d d'"
  by (auto simp: deleteResourceCleanupByKindKey_def quota_frame_def tx_elims)

lemma shrink_keeps:
  assumes inv: "quota_inv d" and m: "quota_moved w cur new add d d'" and le: "\<And>k. amount k new + amount k add \<le> amount k cur"
  shows "keeps l d d'"
  by (rule moved_keeps [OF inv m]) (rule moved_within [OF _ _ le])

lemma moved_cong:
  "quota_moved w cur new add d d' \<Longrightarrow> quota_frame d' d'' \<Longrightarrow> quota_moved w cur new add d d''"
  by (auto simp: quota_moved_def quota_frame_def reservations_ok_def reserved_sum_def)

lemma quota_frame_refl [simp]: "quota_frame d d"
  by (simp add: quota_frame_def)

lemma find_reservation: "tx_optional (lockStorageQuotaReservation i w) d = Inr (r, d') \<longleftrightarrow> r = reservation_of i w d \<and> d' = d"
  by (auto simp: lockStorageQuotaReservation_def tx_simps split: option.splits)

lemma release_reservation_run:
  assumes inv: "quota_inv d" and run: "ReleaseStorageQuotaReservation x d = Inr (y, d')"
    and w: "qr_WorkspaceID x \<noteq> 0" "qr_ID x \<noteq> []" and r: "reservation_of (qr_ID x) (qr_WorkspaceID x) d = Some r"
  shows "quota_moved (qr_WorkspaceID x) (request_of r) no_request no_request d d' \<and>
    reservations d' = sql_delete (same_reservation (qr_ID x) (qr_WorkspaceID x)) (reservations d)"
proof -
  let ?w = "qr_WorkspaceID x" and ?i = "qr_ID x"
  from run w r obtain v d1 d2 where lock: "usage_of ?w d = Some v"
    and sub: "subtractStorageQuotaReserved ?w (request_of r) d = Inr ((), d1)"
    and del: "requireOneAffected (deleteStorageQuotaReservation ?i ?w) d1 = Inr ((), d2)" and d': "quota_frame d2 d'"
    by (auto simp: ReleaseStorageQuotaReservation_def Let_def tx_elims find_reservation simp del: tx_optional_Inr
        dest: delete_cleanup_frame split: if_splits option.splits)
  note U = one_affected_delete [OF del [unfolded deleteStorageQuotaReservation_def]]
  note acc = subtract_as_replace [OF sub] and L = lock [THEN find_row] r [THEN find_row]
  have q: "quota_rows ?w d" using inv w L by (auto intro: quota_rowsI)
  have "quota_moved ?w (request_of r) no_request no_request d d2"
    by (rule moved_delete [OF inv q _ _ _ acc, where i = ?i]) (use L in \<open>auto simp: U\<close>)
  then have "quota_moved ?w (request_of r) no_request no_request d d'" using d' by (rule moved_cong)
  moreover have "reservations d' = sql_delete (same_reservation ?i ?w) (reservations d)"
    using d' replace_accounting_run(1) [OF q acc] by (simp add: U quota_frame_def account_def)
  ultimately show ?thesis by simp
qed

lemma release_keeps:
  assumes inv: "quota_inv d" and run: "ReleaseStorageQuotaReservation x d = Inr (y, d')"
  shows "keeps l d d'"
proof (cases "qr_WorkspaceID x \<noteq> 0 \<and> qr_ID x \<noteq> [] \<and> reservation_of (qr_ID x) (qr_WorkspaceID x) d \<noteq> None")
  case True
  then show ?thesis using release_reservation_run [OF inv run] by (auto intro: shrink_keeps [OF inv])
next
  case False
  with run have "d' = d"
    by (auto simp: ReleaseStorageQuotaReservation_def Let_def tx_elims split: if_splits option.splits)
  then show ?thesis using inv by (simp add: keeps_def)
qed

subsection \<open>Sweeping expired reservations\<close>

abbreviation batch_sum :: "resource \<Rightarrow> reservation_row list \<Rightarrow> nat" where
  "batch_sum k rows \<equiv> (\<Sum>r \<leftarrow> rows. amount k (request_of r))"

lemma sweep_total_Inr: "sweep_total t rows = Inr t' \<Longrightarrow> amount k t' = amount k t + batch_sum k rows"
proof (induction rows arbitrary: t)
  case (Cons r rows)
  from Cons.prems have "sweep_total \<lparr>Bytes = Bytes t + sr_reserved_bytes r, DurableBytes = DurableBytes t + sr_reserved_database_bytes r,
      Items = Items t + sr_reserved_items r, Images = Images t + sr_reserved_images r\<rparr> rows = Inr t'"
    by (auto simp: addUint64_Some split: option.splits)
  from Cons.IH [OF this] show ?case by (cases k) (simp_all add: storageQuotaRequestFromReservation_def)
qed simp

lemma delete_reservation_Inr:
  "requireOneAffected (deleteStorageQuotaReservation i w) d = Inr (x, d') \<Longrightarrow>
     usages d' = usages d \<and> reservations d' = sql_delete (same_reservation i w) (reservations d)"
  by (auto simp: deleteStorageQuotaReservation_def dest!: one_affected_delete)

lemma delete_batch:
  assumes "tx_iter (\<lambda>row. requireOneAffected (deleteStorageQuotaReservation (sr_id row) w)) rows d = Inr (x, d')"
    and "reservations_ok d" and "distinct (map sr_id rows)" and "set rows \<subseteq> set (reservations d)"
    and "\<forall>r \<in> set rows. sr_workspace_id r = w"
  shows "usages d' = usages d \<and> reservations_ok d' \<and>
    (\<forall>k w'. reserved_sum k w' d' + (if w' = w then batch_sum k rows else 0) = reserved_sum k w' d)"
  using assms
proof (induction rows arbitrary: d)
  case (Cons r rows)
  from Cons.prems(1) obtain d1 where del: "requireOneAffected (deleteStorageQuotaReservation (sr_id r) w) d = Inr ((), d1)"
    and rest: "tx_iter (\<lambda>row. requireOneAffected (deleteStorageQuotaReservation (sr_id row) w)) rows d1 = Inr (x, d')"
    unfolding tx_iter.simps tx_bind_Inr by auto
  note D = delete_reservation_Inr [OF del]
  have ok: "reservations_ok d1" by (rule reservations_ok_delete [OF Cons.prems(2)]) (use D in auto)
  have sub: "set rows \<subseteq> set (reservations d1)"
  proof
    fix r' assume r': "r' \<in> set rows"
    with Cons.prems(3) have "sr_id r' \<noteq> sr_id r" by (auto simp: image_iff)
    with r' Cons.prems(4) D show "r' \<in> set (reservations d1)" by (auto simp: sql_delete_def)
  qed
  have IH: "usages d' = usages d1 \<and> reservations_ok d' \<and>
      (\<forall>k w'. reserved_sum k w' d' + (if w' = w then batch_sum k rows else 0) = reserved_sum k w' d1)"
    by (rule Cons.IH [OF rest ok _ sub]) (use Cons.prems(3,5) in auto)
  have del: "reserved_sum k w' d1 + (if w' = w then amount k (request_of r) else 0) = reserved_sum k w' d" for k w'
    by (rule reserved_sum_delete [OF Cons.prems(2)]) (use Cons.prems(4,5) D in auto)
  have "reserved_sum k w' d' + (if w' = w then batch_sum k (r # rows) else 0) = reserved_sum k w' d" for k w'
    using IH [THEN conjunct2, THEN conjunct2, rule_format, of k w'] del [of k w'] by (simp split: if_splits)
  with IH D show ?case by simp
qed (simp add: tx_elims)

lemma expired_batch:
  assumes "reservations_ok d"
  shows "distinct (map sr_id (lockExpiredStorageQuotaReservations e w t n d))"
    "set (lockExpiredStorageQuotaReservations e w t n d) \<subseteq> set (reservations d)"
    "\<forall>r \<in> set (lockExpiredStorageQuotaReservations e w t n d). sr_workspace_id r = w \<and> sr_expires_at r \<le> t"
proof -
  let ?P = "\<lambda>r. sr_workspace_id r = w \<and> sr_expires_at r \<le> t \<and> \<not> reservation_locked e (sr_id r)"
  let ?S = "sort_key (\<lambda>r. (sr_expires_at r, sr_id r)) (filter ?P (reservations d))"
  have "distinct (map sr_id ?S) \<longleftrightarrow> distinct (map sr_id (filter ?P (reservations d)))"
    by (rule mset_eq_imp_distinct_iff) simp
  then have "distinct (map sr_id ?S)" using assms by (simp add: reservations_ok_def distinct_map_filter)
  then show "distinct (map sr_id (lockExpiredStorageQuotaReservations e w t n d))"
    by (simp add: lockExpiredStorageQuotaReservations_def take_map [symmetric] distinct_take)
  show "set (lockExpiredStorageQuotaReservations e w t n d) \<subseteq> set (reservations d)"
    "\<forall>r \<in> set (lockExpiredStorageQuotaReservations e w t n d). sr_workspace_id r = w \<and> sr_expires_at r \<le> t"
    by (auto simp: lockExpiredStorageQuotaReservations_def dest!: in_set_takeD)
qed

lemma first_by_in: "first_by k xs = Some x \<Longrightarrow> x \<in> set xs"
  by (induction xs arbitrary: x) (auto split: option.splits if_splits)

lemma sweep_keeps:
  assumes inv: "quota_inv d" and run: "SweepExpiredStorageQuotaReservations e n d = Inr (y, d')"
  shows "keeps l d d'"
proof -
  let ?rows = "\<lambda>w. lockExpiredStorageQuotaReservations e w (clock6 e) (nat n) d"
  consider "d' = d" | w t d1 where "lockStorageQuotaSweepWorkspace e (clock6 e) d = Inr (w, d)"
      "sweep_total no_request (?rows w) = Inr t" "subtractStorageQuotaReserved w t d = Inr ((), d1)"
      "tx_iter (\<lambda>row. requireOneAffected (deleteStorageQuotaReservation (sr_id row) w)) (?rows w) d1 = Inr ((), d')"
    using run unfolding SweepExpiredStorageQuotaReservations_def
    by (auto simp: tx_elims lockStorageQuotaSweepWorkspace_def split: if_splits option.splits)
  then show ?thesis
  proof cases
    case 1
    then show ?thesis using inv by (simp add: keeps_def)
  next
    case (2 w t d1)
    from 2(1) have q: "quota_rows w d"
      using inv by (auto simp: lockStorageQuotaSweepWorkspace_def tx_elims quota_rows_def quota_inv_def dest!: first_by_in)
    have ok: "reservations_ok d" using inv by (simp add: quota_inv_def)
    note acc = subtract_as_replace [OF 2(3)]
    note run = replace_accounting_run [OF q acc] and B = expired_batch [OF ok, of e w "clock6 e" "nat n"]
    have d1: "reservations d1 = reservations d" "map us_workspace_id (usages d1) = map us_workspace_id (usages d)"
      using run(1) by (simp_all add: account_def map_key_sql_update)
    have ok1: "reservations_ok d1" by (rule reservations_ok_delete [OF ok d1(2), of "\<lambda>_. False"]) (simp add: d1 sql_delete_def)
    have "usages d' = usages d1 \<and> reservations_ok d' \<and>
        (\<forall>k w'. reserved_sum k w' d' + (if w' = w then batch_sum k (?rows w) else 0) = reserved_sum k w' d1)"
      by (rule delete_batch [OF 2(4) ok1]) (use B d1 in auto)
    moreover have "reserved_sum k w' d1 = reserved_sum k w' d" for k w' by (simp add: reserved_sum_def d1)
    ultimately have "quota_moved w t no_request no_request d d'"
      using q run sweep_total_Inr [OF 2(2)] by (auto simp: quota_moved_def usages_account split: if_splits)
    then show ?thesis by (rule shrink_keeps [OF inv]) simp
  qed
qed

subsection \<open>Used amounts\<close>

lemma transfer_keeps:
  assumes inv: "quota_inv d" and r: "r \<in> set (reservations d)"
    and run: "transferStorageQuotaReservationToUsed r q d = Inr (y, d')"
  shows "keeps l d d'"
proof -
  let ?w = "sr_workspace_id r" and ?c = "request_of r"
  let ?rest = "\<lparr>Bytes = Bytes ?c - Bytes q, DurableBytes = DurableBytes ?c - DurableBytes q,
    Items = Items ?c - Items q, Images = Images ?c - Images q\<rparr>"
  from run obtain v d1 where lock: "?w \<noteq> 0" "usage_of ?w d = Some v"
    and le: "\<forall>k. amount k q \<le> amount k ?c"
    and acc: "replaceStorageQuotaReservationAccounting ?w ?c ?rest q d = Inr ((), d1)"
    and rest: "validateStorageQuotaRequest ?rest = None"
    and upd: "requireOneAffected (updateStorageQuotaReservation ?rest (sr_resource_key r) (sr_expires_at r) (sr_id r) ?w) d1 = Inr ((), d')"
    by (auto simp: transferStorageQuotaReservationToUsed_def Let_def tx_elims all_resources split: if_splits)
  have "quota_rows ?w d" using inv lock(1) find_row [OF lock(2)] by (auto intro: quota_rowsI)
  from moved_rewritten [OF inv this r refl refl acc refl refl rest upd]
  show ?thesis
  proof (rule shrink_keeps [OF inv])
    show "amount k ?rest + amount k q \<le> amount k ?c" for k using le by (cases k) (auto simp: all_resources)
  qed
qed

text \<open>A single-file ingest locks the reservation, writes rows of other tables and retires the reservation.\<close>

lemma ingest_lock_Inr:
  assumes "lockSingleFileIngestReservation e c d = Inr (r, d')"
  shows "d' = d \<and> r \<in> set (reservations d) \<and> sr_id r = qr_ID (sf_Reservation c) \<and> sr_workspace_id r = sf_ItemWorkspaceID c"
proof -
  from assms have "lockLiveStorageQuotaReservation e (qr_ID (sf_Reservation c)) (sf_ItemWorkspaceID c) d = Inr (r, d) \<and> d' = d"
    unfolding lockSingleFileIngestReservation_def lockResourceCleanupByKindKey_def lockLiveStorageQuotaReservation_def
    by (auto simp: tx_elims split: if_splits option.splits)
  then show ?thesis by (auto dest: lock_live_reservation_Inr)
qed

lemma retire_cleanup_frame:
  "(case k of None \<Rightarrow> tx_return () | Some key \<Rightarrow> requireOneAffected (deleteResourceCleanupByKindKey UploadBlob key)) d = Inr (x, d') \<Longrightarrow>
     quota_frame d d'"
  by (auto simp: tx_elims dest: delete_cleanup_frame split: option.splits)

lemma retire_keeps:
  assumes inv: "quota_inv d" and r: "r \<in> set (reservations d)" "sr_id r = qr_ID x" "sr_workspace_id r = qr_WorkspaceID x"
    and run: "retireSingleFileIngestReservation x r q l d = Inr (y, d')"
  shows "keeps l d d'"
proof -
  let ?w = "qr_WorkspaceID x"
  from run obtain g v d1 d2 where lock: "usage_of 0 d = Some g" "usage_of ?w d = Some v"
    and chk: "checkStorageQuotaReplacement (storageQuotaUsageFromRow g) (storageQuotaUsageFromRow v) (request_of r) no_request q l = None"
    and acc: "replaceStorageQuotaReservationAccounting ?w (request_of r) no_request q d = Inr ((), d1)" and d2: "quota_frame d1 d2"
    and del: "requireOneAffected (deleteStorageQuotaReservation (qr_ID x) ?w) d2 = Inr ((), d')"
    by (auto simp: retireSingleFileIngestReservation_def Let_def tx_elims dest!: retire_cleanup_frame)
  have w: "?w \<noteq> 0" using inv r by (auto simp: quota_inv_def reservations_ok_def)
  then have q: "quota_rows ?w d" using inv find_row [OF lock(2)] by (auto intro: quota_rowsI)
  have "quota_moved ?w (request_of r) no_request q d d'"
    by (rule moved_delete [OF inv q r acc]) (use delete_reservation_Inr [OF del] d2 in \<open>auto simp: quota_frame_def\<close>)
  then show ?thesis using checked_moved_keeps [OF inv _ lock w chk] by blast
qed

lemma add_used_moved:
  assumes inv: "quota_inv d" and q: "quota_rows w d" and run: "addStorageQuotaUsed w r d = Inr (y, d')"
  shows "quota_moved w no_request no_request r d d'"
proof -
  have m: "moved_row no_request no_request r u = add_used r u" for u by (rule usage_row_eqI; simp)
  note A = add_run(2) [OF run]
  have ok: "reservations_ok d" using inv by (simp add: quota_inv_def)
  have "reservations_ok d'"
    by (rule reservations_ok_delete [OF ok, of _ "\<lambda>_. False"])
      (use A in \<open>simp_all add: account_def sql_delete_def map_key_sql_update\<close>)
  then show ?thesis
    using A q by (simp add: quota_moved_def m usages_account covers_iff) (simp add: account_def reserved_sum_def)
qed

lemma sub_used_keeps:
  assumes inv: "quota_inv d" and q: "quota_rows w d" and run: "subtractStorageQuotaUsed w r d = Inr (y, d')"
  shows "keeps l d d'"
proof -
  note A = subtractStorageQuotaUsed_run [OF q run]
  have ok: "reservations_ok d" using inv by (simp add: quota_inv_def)
  have "reservations_ok d'"
    by (rule reservations_ok_delete [OF ok, of _ "\<lambda>_. False"])
      (use A in \<open>simp_all add: account_def sql_delete_def map_key_sql_update\<close>)
  moreover have "usages d' = sql_update (in_usage w) (sub_used r) (usages d)" "reservations d' = reservations d"
    using A by (simp_all add: account_def)
  moreover have row: "us_workspace_id (sub_used r v) = us_workspace_id v \<and> usage_row_check (sub_used r v) \<and>
      (\<forall>k. used k (sub_used r v) + amount k r = used k v + 0 \<and> held k (sub_used r v) + amount k no_request = held k v + amount k no_request)"
    if "v \<in> set (usages d)" "in_usage w v" for v
    using that A q by (simp add: quota_rows_def usages_ok_def covers_iff)
  ultimately have "quota_inv d'"
    using q by (intro account_inv [OF inv, where w = w and f = "sub_used r" and out = "\<lambda>k. amount k r" and inn = "\<lambda>_. 0" and
        cur = no_request and new = no_request]) (simp_all add: quota_rows_def reserved_sum_def)
  moreover have "bounded l d'" if "bounded l d"
  proof (rule account_bounded [OF _ that, of _ w "sub_used r"])
    show "usages d' = sql_update (in_usage w) (sub_used r) (usages d)" using A by (simp add: account_def)
    show "within l (sub_used r u)" if "within l u" for u using that by (rule within_mono) simp_all
  qed
  ultimately show ?thesis by (simp add: keeps_def)
qed

end
