(* ===== verification/Tx_Frames.thy ===== *)
theory Tx_Frames
  imports Scribe_Prelude
begin

section \<open>What a transaction leaves alone\<close>

text \<open>
  A relation between the states before and after a commit, such as \<^emph>\<open>these tables are the same\<close>,
  holds for a transaction when it holds for its statements. The locale has one rule for each way of
  composing transactions; an interpretation adds the rules for the statements of its component.
\<close>

definition tx_within :: "('s \<Rightarrow> 's \<Rightarrow> bool) \<Rightarrow> ('s, 'a) tx \<Rightarrow> bool" where
  "tx_within R m \<longleftrightarrow> (\<forall>s x t. m s = Inr (x, t) \<longrightarrow> R s t)"

lemma tx_withinD: "tx_within R m \<Longrightarrow> m s = Inr (x, t) \<Longrightarrow> R s t"
  by (simp add: tx_within_def)

lemma tx_withinI: "(\<And>s x t. m s = Inr (x, t) \<Longrightarrow> R s t) \<Longrightarrow> tx_within R m"
  by (simp add: tx_within_def)

lemma tx_within_mono: "tx_within R m \<Longrightarrow> (\<And>s t. R s t \<Longrightarrow> Q s t) \<Longrightarrow> tx_within Q m"
  by (simp add: tx_within_def)

locale tx_relation =
  fixes R :: "'s \<Rightarrow> 's \<Rightarrow> bool"
  assumes refl: "R s s" and trans: "R s t \<Longrightarrow> R t u \<Longrightarrow> R s u"
begin

lemma within_pure:
  "tx_within R (tx_return x)" "tx_within R (tx_raise e)" "tx_within R (tx_read g)" "tx_within R (tx_row h)"
  "tx_within R (tx_guard b e)" "tx_within R (tx_lift r)"
  by (auto simp: tx_within_def tx_elims refl)

lemma within_bind: "tx_within R m \<Longrightarrow> (\<And>x. tx_within R (f x)) \<Longrightarrow> tx_within R (tx_bind m f)"
  unfolding tx_within_def tx_bind_Inr using trans by blast

lemma within_when: "tx_within R m \<Longrightarrow> tx_within R (tx_when b m)"
  by (auto simp: tx_within_def tx_elims refl)

lemma within_wrapped: "tx_within R m \<Longrightarrow> tx_within R (tx_no_rows_as e m)" "tx_within R m \<Longrightarrow> tx_within R (tx_optional m)"
  by (auto simp: tx_within_def tx_elims refl)

lemma within_iter: "(\<And>x. tx_within R (f x)) \<Longrightarrow> tx_within R (tx_iter f xs)"
  by (induction xs) (simp_all add: within_pure within_bind)

lemma within_if: "tx_within R m \<Longrightarrow> tx_within R n \<Longrightarrow> tx_within R (if b then m else n)"
  by simp

lemma within_option: "tx_within R m \<Longrightarrow> (\<And>x. tx_within R (f x)) \<Longrightarrow> tx_within R (case y of None \<Rightarrow> m | Some x \<Rightarrow> f x)"
  by (cases y) simp_all

lemma within_prod: "(\<And>x y. tx_within R (f x y)) \<Longrightarrow> tx_within R (case p of (x, y) \<Rightarrow> f x y)"
  by (cases p) simp

lemma within_let: "(\<And>x. tx_within R (f x)) \<Longrightarrow> tx_within R (let x = v in f x)"
  by simp

lemmas within_rules = within_pure within_bind within_when within_wrapped within_iter within_if within_option
  within_prod within_let

end

end
