(* ===== verification/Storage_System.thy ===== *)
theory Storage_System
  imports Storage_Operations Tx_Frames
begin

section \<open>Storage as a transition system\<close>

text \<open>
  The operations on quotas, uploads and images as steps, and two facts about every run: the counters
  stay exact and below the limits, and an upload whose deletion was decided is referred to by no
  image.
\<close>

subsection \<open>Rows that keep their identity\<close>

text \<open>
  The rows of the deletion queue keep their number, kind, key and fence, or disappear; the images
  stay as they are.
\<close>

definition same_upload :: "cleanup_row \<Rightarrow> cleanup_row \<Rightarrow> bool" where
  "same_upload c c' \<longleftrightarrow> rc_id c' = rc_id c \<and> rc_kind c' = rc_kind c \<and> rc_resource_key c' = rc_resource_key c \<and>
     (rc_delete_fenced_at c' = None \<longleftrightarrow> rc_delete_fenced_at c = None)"

definition uploads_kept :: "db \<Rightarrow> db \<Rightarrow> bool" where
  "uploads_kept d d' \<longleftrightarrow> images d' = images d \<and> next_cleanup_id d' = next_cleanup_id d \<and>
     (\<exists>f P. cleanups d' = map f (filter P (cleanups d)) \<and> (\<forall>c. same_upload c (f c)))"

lemma uploads_kept_refl: "uploads_kept d d"
  unfolding uploads_kept_def
  by (intro conjI refl exI [of _ "\<lambda>c. c"] exI [of _ "\<lambda>_. True"]) (simp_all add: same_upload_def)

lemma uploads_kept_trans:
  assumes "uploads_kept d d'" and "uploads_kept d' d''"
  shows "uploads_kept d d''"
proof -
  from assms obtain f P g Q where f: "cleanups d' = map f (filter P (cleanups d))" "\<forall>c. same_upload c (f c)"
    and g: "cleanups d'' = map g (filter Q (cleanups d'))" "\<forall>c. same_upload c (g c)" by (auto simp: uploads_kept_def)
  have "cleanups d'' = map (\<lambda>c. g (f c)) (filter (\<lambda>c. P c \<and> Q (f c)) (cleanups d))"
    by (simp add: f g filter_map comp_def conj_commute)
  moreover have "\<forall>c. same_upload c (g (f c))" using f(2) g(2) by (auto simp: same_upload_def)
  ultimately show ?thesis
    using assms unfolding uploads_kept_def by (metis (no_types, lifting))
qed

interpretation uploads: tx_relation uploads_kept
  by unfold_locales (rule uploads_kept_refl, rule uploads_kept_trans)

lemma kept_frame: "images d' = images d \<Longrightarrow> next_cleanup_id d' = next_cleanup_id d \<Longrightarrow> cleanups d' = cleanups d \<Longrightarrow> uploads_kept d d'"
  using uploads_kept_refl [of d] by (simp add: uploads_kept_def)

lemma kept_update:
  assumes "\<And>c. same_upload c (f c)"
  shows "tx_within uploads_kept (update_cleanups P f)"
proof (rule tx_withinI)
  fix d n d' assume "update_cleanups P f d = Inr (n, d')"
  then have "d' = put_cleanups (sql_update P f (cleanups d)) d" by (simp add: tx_elims)
  then show "uploads_kept d d'"
    unfolding uploads_kept_def
    by (intro conjI exI [of _ "\<lambda>c. if P c then f c else c"] exI [of _ "\<lambda>_. True"])
      (use assms in \<open>auto simp: sql_update_def same_upload_def\<close>)
qed

lemma kept_delete: "tx_within uploads_kept (exec_delete cleanups put_cleanups P)"
proof (rule tx_withinI)
  fix d n d' assume "exec_delete cleanups put_cleanups P d = Inr (n, d')"
  then have "d' = put_cleanups (sql_delete P (cleanups d)) d" by (simp add: tx_elims)
  then show "uploads_kept d d'"
    unfolding uploads_kept_def
    by (intro conjI exI [of _ "\<lambda>c. c"] exI [of _ "\<lambda>c. \<not> P c"]) (simp_all add: sql_delete_def same_upload_def)
qed

lemma kept_statements:
  "tx_within uploads_kept (update_usages P f)" "tx_within uploads_kept (exec_update reservations put_reservations chk Q g)"
  "tx_within uploads_kept (exec_delete reservations put_reservations Q)" "tx_within uploads_kept (insertStorageQuotaReservation e r)"
  by (auto simp: tx_within_def tx_elims insertStorageQuotaReservation_def intro!: kept_frame split: if_splits)

lemmas kept_rules = uploads.within_rules kept_statements kept_delete kept_update

lemmas quota_ops = lockWorkspaceStorageQuotaUsage_def lockStorageQuotaGuards_def lockStorageQuotaUsage_def lockStorageQuotaUsageRow_def
  requireQuotaUsageRows_def requireOneAffected_def requireCleanupAffected_def tx_check_def
  addStorageQuotaUsed_def addStorageQuotaUsedRows_def subtractStorageQuotaUsed_def subtractStorageQuotaUsedRows_def
  addStorageQuotaReserved_def addStorageQuotaReservedRows_def subtractStorageQuotaReserved_def subtractStorageQuotaReservedRows_def
  replaceStorageQuotaReservationAccounting_def lockStorageQuotaReservation_def lockLiveStorageQuotaReservation_def
  updateStorageQuotaReservation_def bindStorageQuotaReservationResource_def deleteStorageQuotaReservation_def
  lockResourceCleanupByKindKey_def lockUploadCleanupForReference_def lockWorkspaceForUseManual_def

lemma kept_quota:
  "tx_within uploads_kept (ReserveStorageQuota e w q l)"
  "tx_within uploads_kept (ReleaseStorageQuotaReservation x)"
  "tx_within uploads_kept (SweepExpiredStorageQuotaReservations e n)"
  "tx_within uploads_kept (transferStorageQuotaReservationToUsed r q)"
  unfolding ReserveStorageQuota_def ReleaseStorageQuotaReservation_def SweepExpiredStorageQuotaReservations_def
    transferStorageQuotaReservationToUsed_def deleteResourceCleanupByKindKey_def lockStorageQuotaSweepWorkspace_def quota_ops
  by (intro kept_rules)+

lemma kept_resize: "tx_within uploads_kept (ResizeStorageQuotaReservation e x q l)"
  unfolding ResizeStorageQuotaReservation_def resize_upload_def resizeStagedUploadCleanup_def quota_ops
  by (intro kept_rules) (simp add: same_upload_def)

lemma kept_cleanup:
  "tx_within uploads_kept (ClaimResourceCleanup e t)"
  "tx_within uploads_kept (CompleteResourceCleanup x b)"
  "tx_within uploads_kept (RetryResourceCleanup e x c t6)"
  unfolding ClaimResourceCleanup_def CompleteResourceCleanup_def RetryResourceCleanup_def retryResourceCleanup_def
    completeResourceCleanup_def completeFencedUploadResourceCleanup_def failExhaustedResourceCleanups_def
    selectResourceCleanupForUpdate_def markResourceCleanupProcessing_def quota_ops
  by (intro kept_rules; simp add: same_upload_def)+

subsection \<open>Fenced uploads\<close>

definition fenced_upload :: "string \<Rightarrow> db \<Rightarrow> bool" where
  "fenced_upload key d \<longleftrightarrow>
     list_ex (\<lambda>c. rc_kind c = UploadBlob \<and> rc_resource_key c = key \<and> rc_delete_fenced_at c \<noteq> None) (cleanups d)"

definition upload_referenced :: "string \<Rightarrow> db \<Rightarrow> bool" where
  "upload_referenced key d \<longleftrightarrow> list_ex (\<lambda>i. im_image_url i = upload_dir @ key) (images d)"

abbreviation cleanup_key :: "cleanup_row \<Rightarrow> cleanup_kind \<times> string" where
  "cleanup_key c \<equiv> (rc_kind c, rc_resource_key c)"

definition uploads_inv :: "db \<Rightarrow> bool" where
  "uploads_inv d \<longleftrightarrow> distinct (map rc_id (cleanups d)) \<and> distinct (map cleanup_key (cleanups d)) \<and>
     (\<forall>c \<in> set (cleanups d). rc_id c < next_cleanup_id d) \<and>
     (\<forall>key. immutableUploadName key \<longrightarrow> fenced_upload key d \<longrightarrow> \<not> upload_referenced key d)"

lemma uploads_kept_inv:
  assumes kept: "uploads_kept d d'" and inv: "uploads_inv d"
  shows "uploads_inv d'"
proof -
  from kept obtain f P where f: "cleanups d' = map f (filter P (cleanups d))" "\<forall>c. same_upload c (f c)"
    and same: "images d' = images d" "next_cleanup_id d' = next_cleanup_id d" by (auto simp: uploads_kept_def)
  have "map rc_id (cleanups d') = map rc_id (filter P (cleanups d))" "map cleanup_key (cleanups d') = map cleanup_key (filter P (cleanups d))"
    using f by (auto simp: same_upload_def)
  moreover have "fenced_upload key d' \<Longrightarrow> fenced_upload key d" for key
    using f by (force simp: fenced_upload_def list_ex_iff same_upload_def simp del: not_None_eq)
  moreover have "\<forall>c \<in> set (cleanups d'). rc_id c < next_cleanup_id d'"
    using f same inv by (auto simp: same_upload_def uploads_inv_def)
  ultimately show ?thesis
    using inv by (auto simp: uploads_inv_def upload_referenced_def same distinct_map_filter)
qed

lemma upsert_uploads_inv:
  assumes inv: "uploads_inv d" and run: "upsertResourceCleanup e k key w b t d = Inr (x, d')"
  shows "uploads_inv d'"
proof (cases "list_ex (\<lambda>r. rc_kind r = k \<and> rc_resource_key r = key) (cleanups d)")
  case True
  let ?P = "\<lambda>r. rc_kind r = k \<and> rc_resource_key r = key"
  from run True obtain f where "d' = put_cleanups (sql_update ?P f (cleanups d)) d" "\<forall>c. same_upload c (f c)"
    by (auto simp: upsertResourceCleanup_def Let_def same_upload_def)
  then have "uploads_kept d d'"
    using tx_withinD [OF kept_update [of f ?P], of d "sql_changed ?P f (cleanups d)" d'] by (simp add: exec_update_def list_ex_iff)
  then show ?thesis by (rule uploads_kept_inv [OF _ inv])
next
  case False
  with run obtain c where c: "cleanups d' = cleanups d @ [c]" "rc_id c = next_cleanup_id d" "cleanup_key c = (k, key)"
      "rc_delete_fenced_at c = None" "images d' = images d" "next_cleanup_id d' = next_cleanup_id d + 1"
    by (auto simp: upsertResourceCleanup_def Let_def)
  have "cleanup_key c \<notin> cleanup_key ` set (cleanups d)" using False c(3) by (auto simp: list_ex_iff)
  moreover have "rc_id c \<notin> rc_id ` set (cleanups d)" using inv c(2) by (auto simp: uploads_inv_def)
  moreover have "fenced_upload x d' \<longleftrightarrow> fenced_upload x d" for x using c by (simp add: fenced_upload_def)
  ultimately show ?thesis
    using inv c by (auto simp: uploads_inv_def upload_referenced_def)
qed

lemma no_references: "lockItemImageIDsByURL (upload_dir @ key) d = [] \<longleftrightarrow> \<not> upload_referenced key d"
proof -
  have "lockItemImageIDsByURL (upload_dir @ key) d = [] \<longleftrightarrow> set (lockItemImageIDsByURL (upload_dir @ key) d) = {}" by simp
  also have "\<dots> \<longleftrightarrow> \<not> upload_referenced key d"
    by (auto simp: lockItemImageIDsByURL_def upload_referenced_def list_ex_iff)
  finally show ?thesis .
qed

lemma begin_uploads_inv:
  assumes inv: "uploads_inv d" and run: "BeginUploadBlobRetirement e x d = Inr (y, d')"
  shows "uploads_inv d'"
proof -
  let ?P = "\<lambda>r. cleanup_leased (rd_ID x) (rd_Generation x) (nullableString (rd_LeaseOwner x)) r \<and> rc_kind r = UploadBlob"
  from run consider "d' = d" | c where "find (\<lambda>r. rc_kind r = UploadBlob \<and> rc_resource_key r = rd_ResourceKey x) (cleanups d) = Some c"
      "rc_id c = rd_ID x" "\<not> upload_referenced (rd_ResourceKey x) d"
      "requireCleanupAffected (fenceUploadResourceCleanup e (rd_ID x) (rd_Generation x) (nullableString (rd_LeaseOwner x))) d = Inr ((), d')"
    by (auto simp: BeginUploadBlobRetirement_def lockStorageQuotaGuards_def lockResourceCleanupByKindKey_def
        no_references tx_elims split: if_splits)
  then show ?thesis
  proof cases
    case (2 c)
    note c = find_row [OF 2(1)]
    from 2(4) have d': "d' = put_cleanups (sql_update ?P (\<lambda>r. r\<lparr>rc_delete_fenced_at := Some (case rc_delete_fenced_at r of Some t \<Rightarrow> t | None \<Rightarrow> now e),
              rc_updated_at := now e\<rparr>) (cleanups d)) d"
      by (auto simp: requireCleanupAffected_def fenceUploadResourceCleanup_def tx_elims)
    have one: "r = c" if "r \<in> set (cleanups d)" "?P r" for r
      using inv that c 2(2) by (intro distinct_map_eqD [of rc_id "cleanups d"]) (auto simp: uploads_inv_def cleanup_leased_def)
    have new: "fenced_upload key d \<or> key = rd_ResourceKey x" if "fenced_upload key d'" for key
      using that one c by (auto simp: fenced_upload_def list_ex_iff d' set_sql_update)
    have "\<not> upload_referenced key d'" if "immutableUploadName key" "fenced_upload key d'" for key
      using new [OF that(2)] that(1) inv 2(3) by (auto simp: upload_referenced_def d' uploads_inv_def)
    moreover have "map rc_id (cleanups d') = map rc_id (cleanups d)" "map cleanup_key (cleanups d') = map cleanup_key (cleanups d)"
      by (simp_all add: d' map_key_sql_update)
    moreover have "\<forall>c \<in> set (cleanups d'). rc_id c < next_cleanup_id d'" using inv by (auto simp: uploads_inv_def d' set_sql_update)
    ultimately show ?thesis using inv unfolding uploads_inv_def by simp
  qed (use inv in simp)
qed

text \<open>A transaction that adds a reference looks the upload up under the name that its URL stands for.\<close>

lemma reference_bytes_Inr:
  "(case ImmutableNameFromURL url of
      None \<Rightarrow> tx_return 0
    | Some name \<Rightarrow> tx_bind (lockUploadCleanupForReference w name) (\<lambda>staged. tx_return (if staged = None then b else 0))) d = Inr (n, d') \<Longrightarrow>
   d' = d \<and> (\<forall>key. ImmutableNameFromURL url = Some key \<longrightarrow> (\<exists>c. lockUploadCleanupForReference w key d = Inr (c, d)))"
  by (auto simp: tx_elims lock_upload_Inr split: option.splits)

lemma add_image_run:
  assumes "AddImage p d = Inr (y, d')"
  obtains w q i d1 v h arg where "\<forall>key. ImmutableNameFromURL (ci_ImageURL p) = Some key \<longrightarrow> (\<exists>c. lockUploadCleanupForReference w key d = Inr (c, d))"
    "w \<noteq> 0" "usage_of w d \<noteq> None" "createItemImageManual arg v h d = Inr (i, d1)" "addStorageQuotaUsed w q d1 = Inr ((), d')"
    "ci_ImageURL arg = ci_ImageURL p"
  using assms
  by (auto simp: AddImage_def CreateItemImage_def Let_def getItem_def getItemImage_def lockItemForUseManual_def tx_elims dest!: reference_bytes_Inr)

lemma add_image_uploads_inv:
  assumes inv: "uploads_inv d" and run: "AddImage p d = Inr (y, d')"
  shows "uploads_inv d'"
proof -
  let ?url = "ci_ImageURL p"
  from run obtain w q i d1 v h arg where up: "\<forall>key. ImmutableNameFromURL ?url = Some key \<longrightarrow> (\<exists>c. lockUploadCleanupForReference w key d = Inr (c, d))"
    and img: "createItemImageManual arg v h d = Inr (i, d1)" and add: "addStorageQuotaUsed w q d1 = Inr ((), d')"
    and "ci_ImageURL arg = ?url"
    by (rule add_image_run)
  then have same: "cleanups d' = cleanups d" "next_cleanup_id d' = next_cleanup_id d"
      "images d' = images d \<or> (\<exists>im. images d' = images d @ [im] \<and> im_image_url im = ?url)"
    by (auto simp: createItemImageManual_def account_def dest!: add_run(2) split: option.splits if_splits)
  have "\<not> upload_referenced key d'" if key: "immutableUploadName key" and fenced: "fenced_upload key d'" for key
  proof
    assume "upload_referenced key d'"
    moreover have f: "fenced_upload key d" using fenced same by (simp add: fenced_upload_def)
    then have "\<not> upload_referenced key d" using inv key by (auto simp: uploads_inv_def)
    ultimately have "?url = upload_dir @ key" using same(3) by (auto simp: upload_referenced_def)
    with up immutable_name_read_back [OF key] obtain c where "lockUploadCleanupForReference w key d = Inr (c, d)" by auto
    moreover from f obtain r where r: "r \<in> set (cleanups d)" "cleanup_key r = (UploadBlob, key)" "rc_delete_fenced_at r \<noteq> None"
      by (auto simp: fenced_upload_def list_ex_iff)
    then have "find (\<lambda>r. rc_kind r = UploadBlob \<and> rc_resource_key r = key) (cleanups d) = Some r"
      using inv by (intro find_unique [of cleanup_key]) (auto simp: uploads_inv_def)
    ultimately show False using r(3) by (auto simp: lock_upload_Inr)
  qed
  then show ?thesis using inv same by (simp add: uploads_inv_def)
qed

subsection \<open>Steps\<close>

text \<open>
  The first relation has the operations that check the limits or give capacity back; the second adds
  those that only count what they use, and writes to other tables.
\<close>

inductive quota_step :: "StorageQuotaLimits \<Rightarrow> db \<Rightarrow> db \<Rightarrow> bool" for l where
  reserve: "ReserveStorageQuota e w q l d = Inr (x, d') \<Longrightarrow> quota_step l d d'"
| resize: "ResizeStorageQuotaReservation e x q l d = Inr (y, d') \<Longrightarrow> quota_step l d d'"
| stage: "StageStorageQuotaUpload e x url b l d = Inr ((), d') \<Longrightarrow> quota_step l d d'"
| release: "ReleaseStorageQuotaReservation x d = Inr ((), d') \<Longrightarrow> quota_step l d d'"
| sweep: "SweepExpiredStorageQuotaReservations e n d = Inr (m, d') \<Longrightarrow> quota_step l d d'"
| transfer: "r \<in> set (reservations d) \<Longrightarrow> transferStorageQuotaReservationToUsed r q d = Inr ((), d') \<Longrightarrow> quota_step l d d'"
| claim: "ClaimResourceCleanup e t d = Inr (c, d') \<Longrightarrow> quota_step l d d'"
| begin_retirement: "BeginUploadBlobRetirement e c d = Inr (b, d') \<Longrightarrow> quota_step l d d'"
| complete: "CompleteResourceCleanup c rel d = Inr ((), d') \<Longrightarrow> quota_step l d d'"
| retry: "RetryResourceCleanup e c cause t6 d = Inr ((), d') \<Longrightarrow> quota_step l d d'"
| enqueue: "EnqueueUploadCleanup e w url b d = Inr ((), d') \<Longrightarrow> quota_step l d d'"
| spend: "w \<noteq> 0 \<Longrightarrow> usage_of w d \<noteq> None \<Longrightarrow> applyStorageQuotaUsedDeltaWithLimits w before after l d = Inr ((), d') \<Longrightarrow> quota_step l d d'"

inductive storage_step :: "StorageQuotaLimits \<Rightarrow> db \<Rightarrow> db \<Rightarrow> bool" for l where
  quota: "quota_step l d d' \<Longrightarrow> storage_step l d d'"
| add_image: "AddImage p d = Inr (i, d') \<Longrightarrow> storage_step l d d'"
| account: "w \<noteq> 0 \<Longrightarrow> usage_of w d \<noteq> None \<Longrightarrow> applyStorageQuotaUsedDelta w before after d = Inr ((), d') \<Longrightarrow> storage_step l d d'"
| elsewhere: "quota_frame d d' \<Longrightarrow> uploads_kept d d' \<Longrightarrow> storage_step l d d'"

subsection \<open>What every step keeps\<close>

interpretation quota_frames: tx_relation quota_frame
  by unfold_locales (auto simp: quota_frame_def)

lemma frame_statements:
  "tx_within quota_frame (exec_update cleanups put_cleanups chk P f)" "tx_within quota_frame (exec_delete cleanups put_cleanups P)"
  "tx_within quota_frame (upsertResourceCleanup e k key w b t)"
  by (auto simp: tx_within_def tx_elims quota_frame_def dest: upsert_cleanup_frame)

lemmas frame_rules = quota_frames.within_rules frame_statements

lemmas cleanup_ops = ClaimResourceCleanup_def RetryResourceCleanup_def retryResourceCleanup_def
    completeResourceCleanup_def completeFencedUploadResourceCleanup_def failExhaustedResourceCleanups_def
    selectResourceCleanupForUpdate_def markResourceCleanupProcessing_def BeginUploadBlobRetirement_def
    fenceUploadResourceCleanup_def EnqueueUploadCleanup_def

lemma cleanup_frame:
  "tx_within quota_frame (ClaimResourceCleanup e t)"
  "tx_within quota_frame (RetryResourceCleanup e x cause t6)"
  "tx_within quota_frame (BeginUploadBlobRetirement e x)"
  "tx_within quota_frame (EnqueueUploadCleanup e w url n)"
  "tx_within quota_frame (requireCleanupAffected (completeResourceCleanup i g h))"
  "tx_within quota_frame (requireCleanupAffected (completeFencedUploadResourceCleanup i g h))"
  unfolding cleanup_ops quota_ops by (intro frame_rules)+

lemma complete_keeps:
  assumes inv: "quota_inv d" and run: "CompleteResourceCleanup x b d = Inr (y, d')"
  shows "keeps l d d'"
proof -
  let ?w = "rd_WorkspaceID x"
  from run consider "quota_frame d d'" | d1 where "?w \<noteq> 0" "usage_of ?w d \<noteq> None" "quota_frame d d1"
      "subtractStorageQuotaUsed ?w (no_request\<lparr>Bytes := rd_StorageBytes x\<rparr>) d1 = Inr ((), d')"
    by (auto simp: CompleteResourceCleanup_def tx_elims split: if_splits dest!: tx_withinD [OF cleanup_frame(5)] tx_withinD [OF cleanup_frame(6)])
  then show ?thesis
  proof cases
    case 1
    then show ?thesis using inv by (rule frame_keeps)
  next
    case (2 d1)
    then have inv1: "quota_inv d1" using inv by (blast intro: quota_frame_inv)
    moreover have "quota_rows ?w d1" using 2 inv1 by (auto simp: quota_frame_def find_row dest!: find_row intro: quota_rowsI)
    ultimately have "keeps l d1 d'" using 2(4) by (rule sub_used_keeps)
    then show ?thesis using 2(3) by (simp add: keeps_def bounded_def quota_frame_def)
  qed
qed

lemma counted_within:
  assumes "checkStorageQuotaCounters (storageQuotaUsageFromRow g) (storageQuotaUsageFromRow v) q l = None"
    and "us_workspace_id g = 0" and "us_workspace_id v \<noteq> 0"
  shows "within l (add_used q g) \<and> within l (add_used q v)"
proof -
  have "used k (add_used q u) + held k (add_used q u) \<le> used k (add_reserved q u) + held k (add_reserved q u)" for k u by simp
  with counters_within [OF assms] show ?thesis by (auto intro: within_mono)
qed

lemma delta_inv:
  assumes inv: "quota_inv d" and q: "quota_rows w d" and run: "applyStorageQuotaUsedDelta w a b d = Inr (y, d')"
  shows "quota_inv d'"
  using run quota_moved_inv [OF inv add_used_moved [OF inv q]] sub_used_keeps [OF inv q] inv
  by (auto simp: applyStorageQuotaUsedDelta_def keeps_def tx_elims split: if_splits)

lemma spend_keeps:
  assumes inv: "quota_inv d" and q: "quota_rows w d" and run: "applyStorageQuotaUsedDeltaWithLimits w a b l d = Inr (y, d')"
  shows "keeps l d d'"
proof (cases "b > a")
  case True
  let ?r = "no_request\<lparr>DurableBytes := b - a\<rparr>"
  from run True obtain g v where lock: "usage_of w d = Some v" "usage_of 0 d = Some g"
    and chk: "checkStorageQuotaCounters (storageQuotaUsageFromRow g) (storageQuotaUsageFromRow v) ?r l = None"
    and add: "addStorageQuotaUsed w ?r d = Inr (y, d')"
    by (auto simp: applyStorageQuotaUsedDeltaWithLimits_def applyStorageQuotaUsedDelta_def tx_elims)
  have m: "moved_row no_request no_request ?r u = add_used ?r u" for u by (rule usage_row_eqI; simp)
  show ?thesis
  proof (rule moved_keeps [OF inv add_used_moved [OF inv q add]])
    fix u assume "u \<in> set (usages d)" "in_usage w u"
    then show "within l (moved_row no_request no_request ?r u)"
      unfolding m using two_rows_within [OF inv, of g v w "\<lambda>u. within l (add_used ?r u)" u] counted_within [OF chk] q
        lock(1,2) [THEN find_row] by (simp add: quota_rows_def)
  qed
next
  case False
  with run inv show ?thesis
    by (auto simp: applyStorageQuotaUsedDeltaWithLimits_def applyStorageQuotaUsedDelta_def tx_elims keeps_def
        dest: sub_used_keeps [OF inv q] split: if_splits)
qed

lemma usage_rows: "quota_inv d \<Longrightarrow> w \<noteq> 0 \<Longrightarrow> usage_of w d \<noteq> None \<Longrightarrow> quota_rows w d"
  by (auto dest!: find_row intro: quota_rowsI)

lemma quota_step_keeps: "quota_step l d d' \<Longrightarrow> quota_inv d \<Longrightarrow> keeps l d d'"
  by (induction rule: quota_step.induct)
    (auto intro: reserve_moved(2) resize_keeps stage_keeps release_keeps sweep_keeps transfer_keeps complete_keeps spend_keeps usage_rows
      frame_keeps dest!: cleanup_frame(1-4) [THEN tx_withinD])

interpretation quota_system: transition_system "quota_step l" "\<lambda>d. quota_inv d \<and> bounded l d" for l
  by unfold_locales (auto simp: keeps_def dest: quota_step_keeps)

lemma add_image_inv:
  assumes inv: "quota_inv d" and run: "AddImage p d = Inr (y, d')"
  shows "quota_inv d'"
proof -
  from run obtain w q i d1 v h arg where "w \<noteq> 0" "usage_of w d \<noteq> None" and img: "createItemImageManual arg v h d = Inr (i, d1)"
    and add: "addStorageQuotaUsed w q d1 = Inr ((), d')" by (rule add_image_run)
  moreover from img have f: "quota_frame d d1" by (auto simp: createItemImageManual_def quota_frame_def split: option.splits if_splits)
  then have inv1: "quota_inv d1" using inv by (rule quota_frame_inv)
  ultimately have "quota_rows w d1" using f by (intro usage_rows) (auto simp: quota_frame_def)
  then show ?thesis using quota_moved_inv [OF inv1 add_used_moved [OF inv1 _ add]] by blast
qed

lemma stage_uploads_inv:
  assumes inv: "uploads_inv d" and run: "StageStorageQuotaUpload e x url b l d = Inr (y, d')"
  shows "uploads_inv d'"
proof -
  have kept: "tx_within uploads_kept (replaceStorageQuotaReservationAccounting w c q a)"
    "tx_within uploads_kept (requireOneAffected (bindStorageQuotaReservationResource key i w))" for w c q a key i
    unfolding quota_ops by (intro kept_rules)+
  from run obtain key w t d1 d2 c q a i where up: "upsertResourceCleanup e UploadBlob key w b t d = Inr ((), d1)"
    and "replaceStorageQuotaReservationAccounting w c q a d1 = Inr ((), d2)"
    and "requireOneAffected (bindStorageQuotaReservationResource key i w) d2 = Inr ((), d')"
    by (auto simp: StageStorageQuotaUpload_def Let_def tx_elims lockLiveStorageQuotaReservation_def
        lock_upload_Inr split: if_splits option.splits)
  then have "uploads_kept d1 d'" using kept [THEN tx_withinD] uploads_kept_trans by blast
  then show ?thesis using upsert_uploads_inv [OF inv up] by (rule uploads_kept_inv)
qed

lemma delta_kept: "tx_within uploads_kept (applyStorageQuotaUsedDelta w a b)" "tx_within uploads_kept (applyStorageQuotaUsedDeltaWithLimits w a b l)"
  unfolding applyStorageQuotaUsedDeltaWithLimits_def applyStorageQuotaUsedDelta_def quota_ops by (intro kept_rules)+

lemma enqueue_uploads_inv:
  "uploads_inv d \<Longrightarrow> EnqueueUploadCleanup e w url b d = Inr (y, d') \<Longrightarrow> uploads_inv d'"
  by (auto simp: EnqueueUploadCleanup_def tx_elims split: option.splits if_splits intro: upsert_uploads_inv)

lemma storage_step_inv: "storage_step l d d' \<Longrightarrow> quota_inv d \<and> uploads_inv d \<Longrightarrow> quota_inv d' \<and> uploads_inv d'"
proof (induction rule: storage_step.induct)
  case (quota d d')
  have "uploads_inv d'" using quota
    by (cases rule: quota_step.cases)
      (auto intro: stage_uploads_inv begin_uploads_inv enqueue_uploads_inv uploads_kept_inv
        kept_quota [THEN tx_withinD] kept_resize [THEN tx_withinD] kept_cleanup [THEN tx_withinD] delta_kept [THEN tx_withinD])
  then show ?case using quota_step_keeps [OF quota(1)] quota(2) by (simp add: keeps_def)
next
  case (add_image p d i d')
  then show ?case by (blast intro: add_image_inv add_image_uploads_inv)
next
  case (account w d before after d')
  then show ?case using delta_inv usage_rows uploads_kept_inv [OF tx_withinD [OF delta_kept(1)]] by blast
next
  case (elsewhere d d')
  then show ?case by (blast intro: quota_frame_inv uploads_kept_inv)
qed

interpretation storage_system: transition_system "storage_step l" "\<lambda>d. quota_inv d \<and> uploads_inv d" for l
  by unfold_locales (rule storage_step_inv)

subsection \<open>Properties\<close>

text \<open>An installation before its first upload: no reservation, and counters at zero with a row for the totals.\<close>

definition fresh_quota :: "db \<Rightarrow> bool" where
  "fresh_quota d \<longleftrightarrow> reservations d = [] \<and> distinct (map us_workspace_id (usages d)) \<and>
     list_ex (\<lambda>u. us_workspace_id u = 0) (usages d) \<and>
     list_all (\<lambda>u. u = \<lparr>us_workspace_id = us_workspace_id u, us_upload_blob_bytes = 0, us_database_bytes = 0,
       us_item_count = 0, us_image_count = 0, us_reserved_upload_blob_bytes = 0, us_reserved_database_bytes = 0,
       us_reserved_item_count = 0, us_reserved_image_count = 0\<rparr>) (usages d)"

lemma fresh_counters:
  assumes "fresh_quota d" and "u \<in> set (usages d)"
  shows "used k u = 0" and "held k u = 0"
proof -
  from assms have "u = \<lparr>us_workspace_id = us_workspace_id u, us_upload_blob_bytes = 0, us_database_bytes = 0,
       us_item_count = 0, us_image_count = 0, us_reserved_upload_blob_bytes = 0, us_reserved_database_bytes = 0,
       us_reserved_item_count = 0, us_reserved_image_count = 0\<rparr>" by (simp add: fresh_quota_def list_all_iff)
  then show "used k u = 0" "held k u = 0" by (cases k; metis used.simps held.simps usage_row.select_convs)+
qed

lemma fresh_inv:
  assumes "fresh_quota d"
  shows "quota_inv d" and "bounded l d"
proof -
  note z = fresh_counters [OF assms]
  have "(\<Sum>t \<leftarrow> tenants d. used k t) = 0" "(\<Sum>t \<leftarrow> tenants d. held k t) = 0" for k
    using z by (simp_all add: sum_list_eq_0_iff)
  then show "quota_inv d"
    using assms z by (auto simp: quota_defs usage_row_check_iff reserved_sum_def fresh_quota_def list_ex_iff)
  show "bounded l d" using z by (simp add: bounded_def list_all_iff within_def usage_fits_def del: used.simps held.simps)
qed

text \<open>
  C13: Starting from an installation without uploads, no sequence of reservations, resizes, uploads,
  releases, sweeps, commits, deletions and checked payload changes takes a workspace above its
  limits or the installation above its own: bytes, items and images, used and reserved together.
\<close>

theorem quota_never_exceeded:
  assumes "fresh_quota d0" and "(quota_step l)\<^sup>*\<^sup>* d0 d" and "u \<in> set (usages d)"
  shows "us_upload_blob_bytes u + us_database_bytes u + us_reserved_upload_blob_bytes u + us_reserved_database_bytes u
           \<le> (if us_workspace_id u = 0 then MaxBytesTotal l else MaxBytesPerWorkspace l) \<and>
     us_item_count u + us_reserved_item_count u \<le> (if us_workspace_id u = 0 then MaxItemsTotal l else MaxItemsPerWorkspace l) \<and>
     us_image_count u + us_reserved_image_count u \<le> (if us_workspace_id u = 0 then MaxImagesTotal l else MaxImagesPerWorkspace l)"
proof -
  have "bounded l d" using quota_system.steps_inv [OF assms(2)] fresh_inv [OF assms(1)] by simp
  then have "within l u" using assms(3) by (simp add: bounded_def list_all_iff)
  then show ?thesis by (auto simp: within_def usage_fits_def)
qed

text \<open>
  C14: The counters never drift. After any sequence of operations on quotas, uploads and images, what a
  workspace has reserved of each resource is the sum of its reservations, and the counters of the
  installation are the sums of those of the workspaces.
\<close>

theorem counters_never_drift:
  assumes "fresh_quota d0" and "uploads_inv d0" and "(storage_step l)\<^sup>*\<^sup>* d0 d" and "u \<in> set (usages d)"
  shows "if us_workspace_id u = 0
     then used k u = (\<Sum>t \<leftarrow> filter (\<lambda>t. us_workspace_id t \<noteq> 0) (usages d). used k t) \<and>
          held k u = (\<Sum>t \<leftarrow> filter (\<lambda>t. us_workspace_id t \<noteq> 0) (usages d). held k t)
     else held k u = (\<Sum>r \<leftarrow> filter (\<lambda>r. sr_workspace_id r = us_workspace_id u) (reservations d).
            amount k (storageQuotaRequestFromReservation r))"
proof -
  have "quota_inv d" using storage_system.steps_inv [OF assms(3)] fresh_inv [OF assms(1)] assms(2) by simp
  then show ?thesis using assms(4) by (simp add: quota_inv_def counters_ok_def reserved_sum_def)
qed


subsection \<open>Giving capacity back\<close>

lemma sub_add_reserved: "sub_reserved q (add_reserved q u) = u"
  by (rule usage_row_eqI) simp_all

lemma add_reserved_covers: "reserved_covers q (add_reserved q u)"
  by (simp add: covers_iff)

lemma sub_reserved_changes: "\<not> storageQuotaRequestEmpty q \<Longrightarrow> u \<noteq> add_reserved q u"
  by (metis add_cancel_left_right empty_request_iff row_effects(6))

lemma find_sql_update:
  assumes "\<And>r. P (f r) \<longleftrightarrow> P r"
  shows "find P (sql_update Q f xs) = map_option (\<lambda>r. if Q r then f r else r) (find P xs)"
  using assms by (induction xs) (auto simp: sql_update_def)

lemma find_append: "find P (xs @ ys) = (case find P xs of None \<Rightarrow> find P ys | Some x \<Rightarrow> Some x)"
  by (induction xs) simp_all

text \<open>The subtraction undoes the addition, and reports the two rows it wants to see.\<close>

lemma subtract_undoes:
  assumes q: "quota_rows w d" and ne: "\<not> storageQuotaRequestEmpty r" and us: "usages d1 = sql_update (in_usage w) (add_reserved r) (usages d)"
  shows "subtractStorageQuotaReserved w r d1 = Inr ((), put_usages (usages d) d1)"
proof -
  let ?P = "\<lambda>u. in_usage w u \<and> reserved_covers r u" and ?F = "\<lambda>u. if in_usage w u then add_reserved r u else u"
  have in_add: "in_usage w (add_reserved r u) \<longleftrightarrow> in_usage w u" for u by (simp add: in_usage_def)
  have "sql_update ?P (sub_reserved r) (usages d1) = usages d"
    unfolding us sql_update_def map_map by (rule map_idI) (simp add: in_add add_reserved_covers sub_add_reserved)
  moreover have "sql_changed ?P (sub_reserved r) (usages d1) = 2"
  proof -
    have "sql_changed ?P (sub_reserved r) (usages d1) =
        length (filter (\<lambda>u. in_usage w (?F u) \<and> reserved_covers r (?F u) \<and> sub_reserved r (?F u) \<noteq> ?F u) (usages d))"
      by (simp add: us sql_changed_def sql_update_def filter_map comp_def conj_assoc)
    also have "\<dots> = length (filter (in_usage w) (usages d))"
      by (rule arg_cong [where f = length], rule filter_cong)
        (auto simp: in_add add_reserved_covers sub_add_reserved sub_reserved_changes [OF ne])
    finally show ?thesis using two_rows [OF q] by simp
  qed
  moreover have "\<forall>u \<in> set (usages d1). ?P u \<longrightarrow> usage_row_check (sub_reserved r u)"
    using q by (auto simp: us set_sql_update sub_add_reserved in_add quota_rows_def usages_ok_def)
  ultimately show ?thesis
    using ne by (simp add: subtractStorageQuotaReserved_def subtractStorageQuotaReservedRows_def requireQuotaUsageRows_Inr update_usages_Inr)
qed

text \<open>
  C16: A reservation can be released, and releasing it gives back exactly what it took: the counters of
  the workspace and of the installation and the reservations are what they were before.
\<close>

theorem release_undoes_reserve:
  assumes inv: "quota_inv d" and id: "uuid e \<noteq> []" and run: "ReserveStorageQuota e w q l d = Inr (x, d1)"
  shows "\<exists>d2. ReleaseStorageQuotaReservation x d1 = Inr ((), d2) \<and> usages d2 = usages d \<and> reservations d2 = reservations d"
proof -
  from run obtain g v where ne: "\<not> storageQuotaRequestEmpty q" and w: "w \<noteq> 0" and lock: "usage_of 0 d = Some g" "usage_of w d = Some v"
    and fresh: "uuid e \<notin> sr_id ` set (reservations d)" and res: "reservations d1 = reservations d @ [reserved_row e w q l]"
    and us: "usages d1 = sql_update (in_usage w) (add_reserved q) (usages d)" and q: "validateStorageQuotaRequest q = None"
    and x: "x = \<lparr>qr_ID = uuid e, qr_WorkspaceID = w, qr_Request = q, qr_ExpiresAt = clock6 e + nat (ReservationTTL l)\<rparr>"
    by (rule reserve_quota_run)
  let ?d = "put_usages (usages d) d1" and ?r = "reserved_row e w q l"
  note sub = subtract_undoes [OF usage_rows [OF inv w] ne us, unfolded lock(2), simplified]
  have r: "request_of ?r = q" "sr_id ?r = uuid e" "sr_workspace_id ?r = w" "sr_resource_key ?r = None"
    using valid_request [OF q] by (simp_all add: reserved_row_def storageQuotaRequestFromReservation_def)
  have none: "find (same_reservation (uuid e) w) (reservations d) = None" using fresh by (auto simp: find_None_iff image_iff)
  then have found: "reservation_of (uuid e) w d1 = Some ?r" using r by (simp add: res find_append)
  have del: "sql_delete (same_reservation (uuid e) w) (reservations d1) = reservations d"
    "sql_count (same_reservation (uuid e) w) (reservations d1) = 1"
    using fresh r by (auto simp: res sql_delete_def sql_count_def filter_empty_conv filter_id_conv image_iff)
  have u: "usage_of w d1 \<noteq> None" "usage_of 0 d1 \<noteq> None" using lock by (simp_all add: us find_sql_update)
  then have "ReleaseStorageQuotaReservation x d1 = Inr ((), put_reservations (reservations d) ?d)"
    using id w sub found r del
    by (auto simp: ReleaseStorageQuotaReservation_def Let_def x tx_simps lockWorkspaceStorageQuotaUsage_def lockStorageQuotaUsageRow_def
        lockStorageQuotaReservation_def deleteStorageQuotaReservation_def requireOneAffected_def exec_delete_def)
  then show ?thesis by simp
qed

subsection \<open>The check\<close>

text \<open>
  C29: The admission check of a request is exact although it computes with 64-bit numbers: for counters
  that fit their columns and limits that fit 64 bits, it accepts exactly the requests for which used,
  reserved and requested bytes, items and images add up to at most the limits of the workspace and of
  the installation. An intermediate sum that would wrap around is refused.
\<close>

theorem quota_check_exact:
  assumes "MaxBytesPerWorkspace l \<le> MaxUint64" and "MaxBytesTotal l \<le> MaxUint64"
    and "usage_row_check g" and "usage_row_check v" and "Bytes q \<le> MaxUint64" and "DurableBytes q \<le> MaxUint64"
  shows "checkStorageQuotaCounters (storageQuotaUsageFromRow g) (storageQuotaUsageFromRow v) q l = None \<longleftrightarrow>
     us_upload_blob_bytes v + us_database_bytes v + us_reserved_upload_blob_bytes v + us_reserved_database_bytes v
       + Bytes q + DurableBytes q \<le> MaxBytesPerWorkspace l \<and>
     us_upload_blob_bytes g + us_database_bytes g + us_reserved_upload_blob_bytes g + us_reserved_database_bytes g
       + Bytes q + DurableBytes q \<le> MaxBytesTotal l \<and>
     us_item_count v + us_reserved_item_count v + Items q \<le> MaxItemsPerWorkspace l \<and>
     us_item_count g + us_reserved_item_count g + Items q \<le> MaxItemsTotal l \<and>
     us_image_count v + us_reserved_image_count v + Images q \<le> MaxImagesPerWorkspace l \<and>
     us_image_count g + us_reserved_image_count g + Images q \<le> MaxImagesTotal l"
proof -
  have sum: "addUint64 a b = (if a + b \<le> MaxUint64 then Some (a + b) else None)" if "a \<le> MaxUint64" for a b
    using that by (auto simp: addUint64_def)
  have "usage_row_check u \<Longrightarrow> us_upload_blob_bytes u \<le> MaxUint64 \<and> us_reserved_upload_blob_bytes u \<le> MaxUint64" for u
    by (simp add: usage_row_check_def)
  then show ?thesis
    using assms by (simp add: checkStorageQuotaCounters_def storageQuotaUsageFromRow_def usedBytes_def reservedBytes_def sum
        exceedsStorageLimit_iff not_less algebra_simps)
qed

end
