(* ===== verification/Storage_Witnesses.thy ===== *)
theory Storage_Witnesses
  imports Scribe_Demo Storage_System
begin

section \<open>The storage theorems on a concrete run\<close>

text \<open>
  A client reserves capacity and stages an upload, but never commits it; after the reservation has
  expired, the deletion worker claims the upload and fences it. Each theorem about storage is applied
  to a state of this run.
\<close>

definition blob_name :: string where
  "blob_name = replicate 64 (CHR ''a'') @ ''-aaaaaaaa-aaaa-1aaa-8aaa-aaaaaaaaaaaa.png''"

definition blob_limits :: StorageQuotaLimits where
  "blob_limits = \<lparr>MaxBytesPerWorkspace = 1000, MaxBytesTotal = 2000, MaxItemsPerWorkspace = 10, MaxItemsTotal = 20,
     MaxImagesPerWorkspace = 10, MaxImagesTotal = 20, ReservationTTL = 10 * 1000000\<rparr>"

definition blob_request :: StorageQuotaRequest where
  "blob_request = \<lparr>Bytes = 300, DurableBytes = 100, Items = 1, Images = 1\<rparr>"

definition blob_usage :: "nat \<Rightarrow> nat \<Rightarrow> nat \<Rightarrow> nat \<Rightarrow> nat \<Rightarrow> usage_row" where
  "blob_usage w bytes held_bytes held_payload slots =
     \<lparr>us_workspace_id = w, us_upload_blob_bytes = bytes, us_database_bytes = 0, us_item_count = 0, us_image_count = 0,
      us_reserved_upload_blob_bytes = held_bytes, us_reserved_database_bytes = held_payload,
      us_reserved_item_count = slots, us_reserved_image_count = slots\<rparr>"

definition blob_reservation :: "nat \<Rightarrow> string option \<Rightarrow> reservation_row" where
  "blob_reservation bytes key =
     \<lparr>sr_id = demo_uuid (CHR ''a''), sr_workspace_id = 1, sr_reserved_bytes = bytes, sr_reserved_database_bytes = 100,
      sr_reserved_items = 1, sr_reserved_images = 1, sr_resource_key = key, sr_expires_at = 110000000,
      sr_created_at = 100000000\<rparr>"

definition blob_cleanup :: "cleanup_status \<Rightarrow> int \<Rightarrow> (nat \<times> string) option \<Rightarrow> nat option \<Rightarrow> nat \<Rightarrow> cleanup_row" where
  "blob_cleanup st n lease fence t =
     \<lparr>rc_id = 1, rc_kind = UploadBlob, rc_resource_key = blob_name, rc_workspace_id = 1, rc_storage_bytes = 250,
      rc_generation = 1, rc_delete_fenced_at = fence, rc_status = st, rc_attempt_count = n, rc_max_attempts = 20,
      rc_next_attempt_at = 110, rc_lease_until = map_option fst lease, rc_locked_by = map_option snd lease,
      rc_last_error = None, rc_created_at = 105, rc_updated_at = t\<rparr>"

definition blob_worker :: string where
  "blob_worker = ''resource-cleanup-'' @ demo_uuid (CHR ''b'')"

definition blob0 :: db where
  "blob0 = demo0\<lparr>usages := [blob_usage 0 0 0 0 0, blob_usage 1 0 0 0 0]\<rparr>"

definition blob_reserved :: db where
  "blob_reserved = demo0\<lparr>usages := [blob_usage 0 0 300 100 1, blob_usage 1 0 300 100 1],
     reservations := [blob_reservation 300 None]\<rparr>"

definition blob_state :: "cleanup_row \<Rightarrow> db" where
  "blob_state c = demo0\<lparr>usages := [blob_usage 0 250 0 100 1, blob_usage 1 250 0 100 1],
     reservations := [blob_reservation 0 (Some blob_name)], cleanups := [c], next_cleanup_id := 2\<rparr>"

definition blob_staged :: db where
  "blob_staged = blob_state (blob_cleanup CPending 0 None None 105)"

definition blob_claimed :: db where
  "blob_claimed = blob_state (blob_cleanup CProcessing 1 (Some (230, blob_worker)) None 200)"

definition blob_fenced :: db where
  "blob_fenced = blob_state (blob_cleanup CProcessing 1 (Some (230, blob_worker)) (Some 201) 201)"

definition blob_handle :: StorageQuotaReservation where
  "blob_handle = \<lparr>qr_ID = demo_uuid (CHR ''a''), qr_WorkspaceID = 1, qr_Request = blob_request, qr_ExpiresAt = 110000000\<rparr>"

definition blob_delivery :: ResourceCleanupDelivery where
  "blob_delivery = \<lparr>rd_ID = 1, rd_Kind = UploadBlob, rd_ResourceKey = blob_name, rd_WorkspaceID = 1, rd_StorageBytes = 250,
     rd_Generation = 1, rd_LeaseOwner = blob_worker, rd_Attempt = 1, rd_MaxAttempts = 20\<rparr>"

lemma blob_reserve: "ReserveStorageQuota (demo_env 100 (CHR ''a'')) 1 blob_request blob_limits blob0 = Inr (blob_handle, blob_reserved)"
  by code_simp

lemma blob_stage:
  "StageStorageQuotaUpload (demo_env 105 (CHR ''a'')) blob_handle (upload_dir @ blob_name) 250 blob_limits blob_reserved = Inr ((), blob_staged)"
  by code_simp

lemma blob_claim: "ClaimResourceCleanup (demo_env 200 (CHR ''b'')) 0 blob_staged = Inr (Some blob_delivery, blob_claimed)"
  by code_simp

lemma blob_begin: "BeginUploadBlobRetirement (demo_env 201 (CHR ''b'')) blob_delivery blob_claimed = Inr (True, blob_fenced)"
  by code_simp

lemma blob_facts: "fresh_quota blob0" "immutableUploadName blob_name" "fenced_upload blob_name blob_fenced" "cleanups blob0 = []"
  by code_simp+

lemma blob_run: "(quota_step blob_limits)\<^sup>*\<^sup>* blob0 blob_fenced"
  using quota_step.reserve [OF blob_reserve] quota_step.stage [OF blob_stage] quota_step.claim [OF blob_claim]
    quota_step.begin_retirement [OF blob_begin]
  by (meson converse_rtranclp_into_rtranclp rtranclp.rtrancl_refl)

lemma blob_storage_run: "(storage_step blob_limits)\<^sup>*\<^sup>* blob0 blob_fenced"
  using blob_run by (induction rule: rtranclp_induct) (auto intro: storage_step.quota rtranclp.rtrancl_into_rtrancl)

lemma blob_row: "blob_usage 1 250 0 100 1 \<in> set (usages blob_fenced)" "blob_usage 0 250 0 100 1 \<in> set (usages blob_fenced)"
  by (simp_all add: blob_fenced_def blob_state_def)

theorem quota_never_exceeded_witness:
  "us_upload_blob_bytes (blob_usage 1 250 0 100 1) + us_database_bytes (blob_usage 1 250 0 100 1) +
   us_reserved_upload_blob_bytes (blob_usage 1 250 0 100 1) + us_reserved_database_bytes (blob_usage 1 250 0 100 1) \<le> 1000"
  using quota_never_exceeded [OF blob_facts(1) blob_run blob_row(1)] by (simp add: blob_usage_def blob_limits_def)

theorem counters_never_drift_witness:
  "held PayloadBytes (blob_usage 1 250 0 100 1) =
     (\<Sum>r \<leftarrow> reservations blob_fenced. amount PayloadBytes (storageQuotaRequestFromReservation r))"
proof -
  have "uploads_inv blob0" using blob_facts(4) by (simp add: uploads_inv_def fenced_upload_def)
  from counters_never_drift [OF blob_facts(1) this blob_storage_run blob_row(1), of PayloadBytes] show ?thesis
    by (simp add: blob_fenced_def blob_state_def blob_usage_def blob_reservation_def)
qed


theorem release_undoes_reserve_witness:
  "\<exists>d. ReleaseStorageQuotaReservation blob_handle blob_reserved = Inr ((), d) \<and> usages d = usages blob0 \<and> reservations d = []"
proof -
  have "uuid (demo_env 100 (CHR ''a'')) \<noteq> []" by (simp add: demo_env_def demo_uuid_def)
  from release_undoes_reserve [OF fresh_inv(1) [OF blob_facts(1)] this blob_reserve] blob_facts(1)
  show ?thesis by (simp add: fresh_quota_def)
qed

theorem quota_check_exact_witness:
  "checkStorageQuotaCounters (storageQuotaUsageFromRow (blob_usage 0 250 0 100 1)) (storageQuotaUsageFromRow (blob_usage 1 250 0 100 1))
     (blob_request\<lparr>Bytes := 550\<rparr>) blob_limits = None \<and>
   checkStorageQuotaCounters (storageQuotaUsageFromRow (blob_usage 0 250 0 100 1)) (storageQuotaUsageFromRow (blob_usage 1 250 0 100 1))
     (blob_request\<lparr>Bytes := 551\<rparr>) blob_limits \<noteq> None"
  using quota_check_exact [of blob_limits "blob_usage 0 250 0 100 1" "blob_usage 1 250 0 100 1" "blob_request\<lparr>Bytes := 550\<rparr>"]
    quota_check_exact [of blob_limits "blob_usage 0 250 0 100 1" "blob_usage 1 250 0 100 1" "blob_request\<lparr>Bytes := 551\<rparr>"]
  by (simp add: blob_limits_def blob_usage_def blob_request_def usage_row_check_def MaxUint64_def)

end
