(* ===== verification/Job_Witnesses.thy ===== *)
theory Job_Witnesses
  imports Scribe_Demo
begin

section \<open>The job store's theorems on the concrete run\<close>

text \<open>
  Each theorem about jobs with hypotheses, applied to the states of the concrete run, with its
  hypotheses discharged by evaluation.
\<close>

subsection \<open>The rows of the run\<close>

definition demo_job :: "db \<Rightarrow> job_row" where
  "demo_job d = hd (jobs d)"

lemma demo_job_mem:
  "demo_job demo_running \<in> set (jobs demo_running)" "demo_job demo_waiting \<in> set (jobs demo_waiting)"
  "demo_job demo_last_run \<in> set (jobs demo_last_run)" "demo_job demo_spent \<in> set (jobs demo_spent)"
  by code_simp+

lemma demo_job_fields:
  "j_id (demo_job demo_running) = 1" "j_status (demo_job demo_running) = Running"
  "j_id (demo_job demo_waiting) = 1" "j_id (demo_job demo_last_run) = 1"
  "j_id (demo_job demo_spent) = 1" "j_status (demo_job demo_spent) = Failed"
  by code_simp+

lemma demo_jobs_running: "jobs demo_running = [demo_job demo_running]"
  by code_simp

lemma demo_holds: "holds 115 (demo_fence 1 (CHR ''b'')) demo_running" "holds 405 (demo_fence 3 (CHR ''d'')) demo_last_run"
  "\<not> holds 115 (demo_fence 1 (CHR ''c'')) demo_running"
  by code_simp+

lemma demo_now [simp]: "now (demo_env t c) = t"
  by (simp add: demo_env_def)

subsection \<open>Reachable states\<close>

theorem reachable_invariant_witness: "initial demo0 \<and> job_step\<^sup>*\<^sup>* demo0 demo_spent \<and> jobs_inv demo_spent"
  using demo_initial demo_reach(5) reachable_invariant [OF demo_initial demo_reach(5)] by simp

theorem one_active_job_witness: "last (jobs demo_running) = demo_job demo_running"
proof (rule one_active_job_per_image [OF demo_initial demo_reach(2)])
  show "active_status (j_status (demo_job demo_running))" by (simp add: demo_job_fields active_status_def)
qed (simp_all add: demo_jobs_running demo_job_fields active_status_def)

theorem audit_log_witness:
  "map a_attempt_number (attempts_of demo_spent 1) = [1..3] \<and>
   explains Failed (map a_outcome (attempts_of demo_spent 1))"
  using audit_log_complete [OF demo_initial demo_reach(5) demo_job_mem(4)]
  by (simp add: demo_job_fields) code_simp

lemma tx_state_steps: "(\<And>x d'. m d = Inr (x, d') \<Longrightarrow> job_step d d') \<Longrightarrow> job_step\<^sup>*\<^sup>* d (tx_state m d)"
  by (cases "m d") (auto simp: tx_state_def)

definition demo_again :: db where
  "demo_again = tx_state (Create (demo_env 600 (CHR ''e'')) 1000 7 5) demo_spent"

lemma demo_again_step: "job_step\<^sup>*\<^sup>* demo_spent demo_again"
  unfolding demo_again_def by (intro tx_state_steps job_step.created_step)

lemma demo_again_jobs: "map j_id (jobs demo_again) = [1, 2]" "hd (jobs demo_again) \<in> set (jobs demo_again)"
  "j_id (hd (jobs demo_again)) = 1"
  by code_simp+


theorem audit_log_append_only_witness:
  "same_job (demo_job demo_waiting) (demo_job demo_spent) \<and>
   length (attempts_of demo_waiting 1) \<le> length (attempts_of demo_spent 1)"
  using audit_log_append_only [OF demo_inv(4) rtranclp_trans [OF demo_steps(4,5)] demo_job_mem(2,4)]
  by (simp add: demo_job_fields)

subsection \<open>Fencing\<close>

theorem fence_guards_witness:
  "ExtendLease (demo_env 115 (CHR ''c'')) (demo_fence 1 (CHR ''c'')) 0 demo_running = Inl ErrTranscriptionJobFence"
  using fence_guards_every_operation [of "demo_env 115 (CHR ''c'')" "demo_fence 1 (CHR ''c'')" demo_running] demo_holds(3)
  by simp

theorem one_holder_witness:
  "nullableString (LeaseToken (demo_fence 1 (CHR ''b''))) = nullableString ('' '' @ LeaseToken (demo_fence 1 (CHR ''b'')))"
proof -
  let ?g = "(demo_fence 1 (CHR ''b''))\<lparr>LeaseToken := '' '' @ LeaseToken (demo_fence 1 (CHR ''b''))\<rparr>"
  have "holds 300 ?g demo_running" by code_simp
  from one_holder_per_job [OF demo_inv(3) demo_holds(1) this] show ?thesis by (simp add: demo_fence_def)
qed

lemma demo_closed:
  "hd (attempts demo_waiting) \<in> set (attempts demo_waiting)" "a_job_id (hd (attempts demo_waiting)) = 1"
  "a_attempt_number (hd (attempts demo_waiting)) = 1" "a_outcome (hd (attempts demo_waiting)) = ORetryableFailed"
  by code_simp+

theorem closed_attempt_witness: "\<not> holds 401 (demo_fence 1 (CHR ''b'')) demo_last_run"
  by (rule closed_attempt_never_holds [OF demo_inv(4) demo_steps(4) demo_closed(1)])
     (simp_all add: demo_closed demo_fence_def)

subsection \<open>Claims\<close>

theorem ClaimNextPending_oldest_witness:
  "\<exists>r \<in> set (jobs demo_created). eligible (demo_env 110 (CHR ''b'')) r \<and> lease_row (demo_env 110 (CHR ''b'')) r \<in> set (jobs demo_running)"
  using ClaimNextPending_oldest [OF demo_inv(2) demo_uuid_text(2) demo_claimed(1)] by blast

theorem ClaimNextPending_none_witness:
  "list_all (\<lambda>s. \<not> eligible (demo_env 130 (CHR ''c'')) s) (jobs demo_waiting)"
  using ClaimNextPending_none [OF demo_inv(4) demo_uuid_text(3) demo_claimed(4)] by (simp add: list_all_iff)

theorem claimed_job_is_held_witness:
  "\<exists>fence. job_Fence (with_attempts (hd (jobs demo_running)) demo_running) = Inr fence \<and> holds 700 fence demo_running"
proof -
  have "jb_attempt_count (with_attempts (hd (jobs demo_running)) demo_running) \<le> 2 ^ 31 - 1" by code_simp
  moreover have "700 < datetime_of (clock6 (demo_env 110 (CHR ''b'')) + 600000000)" by code_simp
  ultimately show ?thesis using claimed_job_is_held [OF demo_inv(2) demo_uuid_text(2) demo_claimed(1)] by blast
qed

subsection \<open>Outcomes\<close>

theorem failure_outcome_witness: "\<exists>r' \<in> set (jobs demo_waiting). j_status r' = Pending \<and> j_locked_by r' = None"
  using failure_outcome [OF demo_inv(3) demo_failed(1)] by auto

definition demo_completion :: TranscriptionCompletion where
  "demo_completion = \<lparr>cp_fence = demo_fence 1 (CHR ''b''), cp_event_id = [], cp_event_type = [], cp_subject = [], cp_body_json = []\<rparr>"

lemma demo_complete:
  "commitTranscriptionCompletion (demo_env 120 (CHR ''b'')) demo_completion 1 4 demo_running =
     Inr ((), tx_state (commitTranscriptionCompletion (demo_env 120 (CHR ''b'')) demo_completion 1 4) demo_running)"
  by code_simp



theorem unchanged_report_witness:
  "SetTotalSegments (demo_env 110 (CHR ''c'')) (demo_fence 1 (CHR ''b'')) (j_total_segments (demo_job demo_running)) demo_running =
     Inl ErrTranscriptionJobFence"
proof -
  let ?e = "demo_env 110 (CHR ''c'')" and ?f = "demo_fence 1 (CHR ''b'')"
  have "validateTranscriptionFence ?f" "in_int32 (j_total_segments (demo_job demo_running))"
    "lease_held (now ?e) (JobID ?f) (int (AttemptNumber ?f)) (InputRevision ?f) (nullableString (LeaseToken ?f)) (demo_job demo_running)"
    "j_updated_at (demo_job demo_running) = now ?e" by code_simp+
  from unchanged_report_looks_like_a_lost_lease [OF demo_inv(3) demo_job_mem(1) this] show ?thesis by simp
qed

definition demo_progress :: db where
  "demo_progress = tx_state (UpdateProgress (demo_env 405 (CHR ''d'')) (demo_fence 3 (CHR ''d'')) 1 0 [] [] ''{}'') demo_last_run"

lemma demo_progress_inv: "jobs_inv demo_progress"
  unfolding demo_progress_def
  by (rule jobsys.steps_inv [OF tx_state_steps demo_inv(5)]) (auto intro: job_step.progressed)

definition demo_kept :: db where
  "demo_kept = tx_state (failWithWebhookEvent (demo_env 410 (CHR ''d'')) (demo_fence 3 (CHR ''d'')) ''x'' [] [] [] [] False None) demo_progress"

lemma demo_progress_fails:
  "failWithWebhookEvent (demo_env 410 (CHR ''d'')) (demo_fence 3 (CHR ''d'')) ''x'' [] [] [] [] False None demo_progress =
     Inr (True, demo_kept)"
  by code_simp

lemma demo_progress_json: "list_all (\<lambda>r. j_last_result_annotation_json r = Some ''{}'') (jobs demo_progress)"
  by code_simp

theorem spent_job_keeps_witness:
  "\<exists>r' \<in> set (jobs demo_kept). j_status r' = Failed \<and> j_last_result_annotation_json r' = Some ''{}''"
  using spent_job_keeps_annotation_json [OF demo_progress_inv demo_progress_fails] demo_progress_json
  by (fastforce simp only: list_all_iff)

subsection \<open>Retention and creation\<close>


lemma demo_schema: "schema_ok demo0"
  by code_simp

theorem Create_returns_witness:
  "\<exists>r \<in> set (jobs demo_created). j_id r = 1 \<and> active_status (j_status r) \<and> j_item_image_id r = 7"
  using Create_returns_the_active_job [OF demo_inv(1) demo_schema _ _ demo_create] by auto

theorem Create_idempotent_witness: "\<exists>d''. Create (demo_env 105 (CHR ''c'')) 1000 7 5 demo_created = Inr (1, d'')"
  using Create_idempotent [OF demo_inv(1) demo_schema _ _ demo_create] by auto

theorem Create_admission_witness: "int (countActiveTranscriptionJobsByWorkspaceManual 1 demo_created) \<le> 1000"
proof -
  have "lockTranscriptionJobWorkspaceByItemImageManual 7 demo0 = Inr (1, demo0)" by code_simp
  moreover have "jobs demo0 = []" "countActiveTranscriptionJobsByWorkspaceManual 1 demo0 = 0" by code_simp+
  ultimately show ?thesis using Create_admission_bound [OF demo_inv(1) demo_schema _ _ demo_create, of 1] by simp
qed

end
