(* ===== verification/Webhook_Delivery.thy ===== *)
theory Webhook_Delivery
  imports Job_Outcomes Webhook_Subscriptions
begin

section \<open>Delivering events to subscriptions\<close>

text \<open>
  What the outbox guarantees. Every operation on events, deliveries and subscriptions keeps
  \<open>outbox_inv\<close>, also the job operations that write an event in their own transaction. A new event
  reaches each subscription of its workspace exactly once; a claim hands each delivery to one
  worker; only the lease owner finishes it; retention removes exactly the old events with their
  deliveries; a cursor over the event stream skips nothing.
\<close>

subsection \<open>Expanding an event\<close>

definition unexpanded :: "string \<Rightarrow> db \<Rightarrow> nat \<Rightarrow> bool" where
  "unexpanded i d s \<longleftrightarrow> (i, s) \<notin> set (map delivery_key (deliveries d))"

definition fresh_delivery :: "string \<Rightarrow> delivery_row \<Rightarrow> bool" where
  "fresh_delivery i v \<longleftrightarrow> wd_event_id v = i \<and> wd_status v = DPending \<and> wd_attempt_count v = 0 \<and>
     wd_max_attempts v = 10 \<and> wd_next_attempt_at v = None \<and> wd_lease_until v = None \<and> wd_locked_by v = None"

definition expand :: "env \<Rightarrow> string \<Rightarrow> nat list \<Rightarrow> db \<Rightarrow> db" where
  "expand e i ss d = foldl (\<lambda>d s. insert_delivery e i s d) d ss"

lemma insert_delivery_cases:
  "insert_delivery e i s d = (if unexpanded i d s then d\<lparr>deliveries := deliveries d @
      [\<lparr>wd_id = next_delivery_id d, wd_event_id = i, wd_subscription_id = s,
        wd_status = DPending, wd_attempt_count = 0, wd_max_attempts = 10,
        wd_next_attempt_at = None, wd_lease_until = None, wd_locked_by = None,
        wd_last_error = None, wd_created_at = now e, wd_updated_at = now e\<rparr>],
      next_delivery_id := next_delivery_id d + 1\<rparr> else d)"
  by (auto simp: insert_delivery_def unexpanded_def delivery_key_def list_ex_iff)

lemma insert_delivery_only [simp]:
  "events (insert_delivery e i s d) = events d" "subscriptions (insert_delivery e i s d) = subscriptions d"
  "next_event_id (insert_delivery e i s d) = next_event_id d"
  "next_subscription_id (insert_delivery e i s d) = next_subscription_id d"
  "workspaces (insert_delivery e i s d) = workspaces d"
  "images (insert_delivery e i s d) = images d" "items (insert_delivery e i s d) = items d"
  by (simp_all add: insert_delivery_cases)

lemma expand_frame [simp]:
  "events (expand e i ss d) = events d" "subscriptions (expand e i ss d) = subscriptions d"
  "next_event_id (expand e i ss d) = next_event_id d" "next_subscription_id (expand e i ss d) = next_subscription_id d"
  "workspaces (expand e i ss d) = workspaces d" "images (expand e i ss d) = images d" "items (expand e i ss d) = items d"
  by (induction ss arbitrary: d) (simp_all add: expand_def)

lemma insert_delivery_inv:
  assumes "outbox_inv d" and "ev \<in> set (events d)" and "s \<in> set (subscriptions d)"
    and "ev_workspace_id ev = Some (ws_workspace_id s)"
  shows "outbox_inv (insert_delivery e (ev_event_id ev) (ws_id s) d)"
proof (cases "unexpanded (ev_event_id ev) d (ws_id s)")
  case True
  have "next_delivery_id d \<notin> wd_id ` set (deliveries d)" using assms(1) by (auto simp: outbox_defs)
  with True assms show ?thesis
    by (auto simp: insert_delivery_cases outbox_defs unexpanded_def delivery_key_def delivery_ok_def less_Suc_eq
          delivery_parents_def)
qed (simp add: insert_delivery_cases assms(1))

lemma expand_inv:
  assumes "outbox_inv d" and "ev \<in> set (events d)"
    and "\<And>s. s \<in> set ss \<Longrightarrow> s \<in> set (subscriptions d) \<and> ev_workspace_id ev = Some (ws_workspace_id s)"
  shows "outbox_inv (expand e (ev_event_id ev) (map ws_id ss) d)"
  using assms
proof (induction ss arbitrary: d)
  case (Cons s ss)
  have "outbox_inv (expand e (ev_event_id ev) (map ws_id ss) (insert_delivery e (ev_event_id ev) (ws_id s) d))"
    by (rule Cons.IH) (use Cons.prems insert_delivery_inv in auto)
  then show ?case by (simp add: expand_def)
qed (simp add: expand_def)

lemma expand_rows:
  assumes "distinct ss"
  shows "\<exists>new. deliveries (expand e i ss d) = deliveries d @ new \<and>
     map wd_subscription_id new = filter (unexpanded i d) ss \<and> list_all (fresh_delivery i) new"
  using assms
proof (induction ss arbitrary: d)
  case (Cons s ss)
  let ?d = "insert_delivery e i s d"
  from Cons obtain new where new: "deliveries (expand e i ss ?d) = deliveries ?d @ new"
    "map wd_subscription_id new = filter (unexpanded i ?d) ss" "list_all (fresh_delivery i) new" by force
  have "unexpanded i ?d x \<longleftrightarrow> unexpanded i d x" if "x \<in> set ss" for x
    using that Cons.prems by (auto simp: insert_delivery_cases unexpanded_def delivery_key_def)
  then have "filter (unexpanded i ?d) ss = filter (unexpanded i d) ss" by (rule filter_cong [OF refl])
  moreover have "expand e i (s # ss) d = expand e i ss ?d" by (simp add: expand_def)
  ultimately show ?case using new
    by (cases "unexpanded i d s") (simp_all add: insert_delivery_cases list_all_iff fresh_delivery_def)
qed (simp add: expand_def)

lemma expand_none: "(\<And>s. s \<in> set ss \<Longrightarrow> \<not> unexpanded i d s) \<Longrightarrow> expand e i ss d = d"
  by (induction ss) (simp_all add: expand_def insert_delivery_cases)

definition subscribers :: "event_row \<Rightarrow> db \<Rightarrow> nat list" where
  "subscribers ev d = map ws_id (filter (\<lambda>s. ev_workspace_id ev = Some (ws_workspace_id s)) (subscriptions d))"

lemma insertWorkspaceWebhookDeliveriesManual_expand:
  assumes "distinct (map ev_event_id (events d))" and "ev \<in> set (events d)"
  shows "insertWorkspaceWebhookDeliveriesManual e (ev_event_id ev) d =
    Inr ((), expand e (ev_event_id ev) (subscribers ev d) d)"
proof -
  have pairs: "foldl (\<lambda>d (eid, sid). insert_delivery e eid sid d) d (map (\<lambda>s. (i, ws_id s)) ss) = expand e i (map ws_id ss) d"
    for i and ss :: "subscription_row list"
    by (induction ss arbitrary: d) (simp_all add: expand_def)
  have conc: "concat (map (\<lambda>s. [f s]) xs) = map f xs" for f and xs :: "subscription_row list"
    by (induction xs) auto
  show ?thesis
    unfolding insertWorkspaceWebhookDeliveriesManual_def concat_if_filter filter_key_unique [OF assms]
    by (simp add: concat_if_filter pairs subscribers_def conc)
qed

lemma subscribers_distinct: "outbox_inv d \<Longrightarrow> distinct (subscribers ev d)"
  by (simp add: subscribers_def outbox_defs distinct_map_filter)

subsection \<open>Writing an event\<close>

definition event_record :: "env \<Rightarrow> db \<Rightarrow> string \<Rightarrow> string \<Rightarrow> nat option \<Rightarrow> string option \<Rightarrow> string \<Rightarrow> event_row" where
  "event_record e d i ty w s b =
     \<lparr>ev_id = next_event_id d, ev_event_id = i, ev_event_type = ty, ev_workspace_id = w, ev_subject = s,
      ev_body_json = b, ev_created_at = now e\<rparr>"

lemma insertEventOutboxManual_cases:
  assumes "insertEventOutboxManual e i ty w s b d = Inr (x, d1)"
  shows "d1 = d \<and> (i \<in> ev_event_id ` set (events d) \<or> (\<exists>v. w = Some v \<and> v \<notin> set (workspaces d))) \<or>
    i \<notin> ev_event_id ` set (events d) \<and>
    d1 = d\<lparr>events := events d @ [event_record e d i ty w s b], next_event_id := next_event_id d + 1\<rparr>"
  using assms by (cases w) (auto simp: insertEventOutboxManual_def list_ex_iff event_record_def split: if_splits)

lemma insertEventOutboxManual_inv:
  assumes "outbox_inv d" and "insertEventOutboxManual e i ty w s b d = Inr (x, d1)"
  shows "outbox_inv d1 \<and> subscriptions d1 = subscriptions d \<and> deliveries d1 = deliveries d \<and> workspaces d1 = workspaces d \<and>
     images d1 = images d \<and> items d1 = items d"
  using insertEventOutboxManual_cases [OF assms(2)]
proof (elim disjE conjE)
  assume new: "i \<notin> ev_event_id ` set (events d)"
    and d1: "d1 = d\<lparr>events := events d @ [event_record e d i ty w s b], next_event_id := next_event_id d + 1\<rparr>"
  have "next_event_id d \<notin> ev_id ` set (events d)" using assms(1) by (auto simp: outbox_defs)
  with assms(1) new have "outbox_inv d1" unfolding d1
    by (auto simp: outbox_defs event_record_def less_Suc_eq intro: delivery_parents_mono)
  with d1 show ?thesis by simp
qed (use assms(1) in simp_all)

lemma write_event_stages:
  assumes "outbox_inv d" and "write_event e i ty w s b d = Inr (x, d')"
  obtains d1 ev where "insertEventOutboxManual e i ty w (nullableString s) b d = Inr ((), d1)" and "outbox_inv d1"
    and "ev \<in> set (events d1)" and "ev_event_id ev = i" and "ev_workspace_id ev \<noteq> None"
    and "d' = expand e i (subscribers ev d1) d1"
proof -
  from assms(2) obtain d1 v where ins: "insertEventOutboxManual e i ty w (nullableString s) b d = Inr ((), d1)"
    and lock: "lockWebhookDeliveryExpansionWorkspaceManual i d1 = Inr (v, d1)"
    and rows: "insertWorkspaceWebhookDeliveriesManual e i d1 = Inr ((), d')"
    by (auto simp: write_event_def InsertWorkspaceWebhookDeliveries_def tx_bind_Inr
          lockWebhookDeliveryExpansionWorkspaceManual_def tx_row_Inr)
  have inv1: "outbox_inv d1" using insertEventOutboxManual_inv [OF assms(1) ins] by simp
  let ?js = "[w. ev \<leftarrow> events d1, ev_event_id ev = i, w \<leftarrow> workspaces d1, ev_workspace_id ev = Some w]"
  have "?js \<noteq> []"
  proof
    assume "?js = []"
    then have "lockWebhookDeliveryExpansionWorkspaceManual i d1 = Inl ErrNoRows"
      unfolding lockWebhookDeliveryExpansionWorkspaceManual_def tx_row_run by (simp only: list.case option.case)
    with lock show False by simp
  qed
  then obtain u where "u \<in> set ?js" by (meson last_in_set)
  then obtain ev where ev: "ev \<in> set (events d1)" "ev_event_id ev = i" "ev_workspace_id ev = Some u"
    by (auto split: if_splits)
  from insertWorkspaceWebhookDeliveriesManual_expand [OF outbox_invD(1) [OF inv1] ev(1)] rows ev(2)
  have "d' = expand e i (subscribers ev d1) d1" by simp
  with ins inv1 ev show thesis by (intro that) auto
qed

lemma write_event_inv:
  assumes "outbox_inv d" and "write_event e i ty w s b d = Inr (x, d')"
  shows "outbox_inv d'"
  by (rule write_event_stages [OF assms], simp only: subscribers_def)
     (rule subst [where P = "\<lambda>i. outbox_inv (expand e i _ _)"], assumption, rule expand_inv, auto)

lemma EnqueueWebhookEvent_write:
  "EnqueueWebhookEvent e i ty s b = (if trim_space i = [] \<or> trim_space b = [] then tx_return ()
     else tx_bind (eventWorkspaceID s) (\<lambda>w. write_event e i ty w s b))"
  by (simp add: EnqueueWebhookEvent_def write_event_def)

lemma eventWorkspaceID_Inr:
  "eventWorkspaceID s d = Inr (v, d') \<longleftrightarrow> (\<exists>img w. itemImageIDFromSubject s = Some img \<and>
     getWorkspaceIDForItemImageManual img d = Inr (w, d) \<and> v = nullableUint64 w \<and> d' = d)"
  by (auto simp: eventWorkspaceID_def getWorkspaceIDForItemImageManual_def tx_elims split: option.splits)

lemma eventWorkspaceID_cong:
  assumes "images d' = images d" and "items d' = items d" and "eventWorkspaceID s d = Inr (v, d)"
  shows "eventWorkspaceID s d' = Inr (v, d')"
  using assms(3) unfolding eventWorkspaceID_Inr getWorkspaceIDForItemImageManual_def tx_row_Inr assms(1,2) by simp

text \<open>Writing the event again changes nothing once every subscription has its delivery.\<close>

lemma write_event_again:
  assumes inv: "outbox_inv d" and ev: "ev \<in> set (events d)" "ev_workspace_id ev = Some v" "v \<in> set (workspaces d)"
    and all: "\<And>s. s \<in> set (subscribers ev d) \<Longrightarrow> \<not> unexpanded (ev_event_id ev) d s"
  shows "write_event e (ev_event_id ev) ty w s b d = Inr ((), d)"
proof -
  have "insertEventOutboxManual e (ev_event_id ev) ty w (nullableString s) b d = Inr ((), d)"
    using ev(1) by (auto simp: insertEventOutboxManual_def list_ex_iff)
  moreover
  let ?js = "[w. x \<leftarrow> events d, ev_event_id x = ev_event_id ev, w \<leftarrow> workspaces d, ev_workspace_id x = Some w]"
  have "v \<in> set ?js" using ev by (auto intro!: bexI [of _ ev])
  then obtain u us where "?js = u # us" by (cases ?js) auto
  then have "lockWebhookDeliveryExpansionWorkspaceManual (ev_event_id ev) d = Inr (u, d)"
    unfolding lockWebhookDeliveryExpansionWorkspaceManual_def tx_row_run by (simp only: list.case option.case)
  moreover have "insertWorkspaceWebhookDeliveriesManual e (ev_event_id ev) d = Inr ((), d)"
    by (simp only: insertWorkspaceWebhookDeliveriesManual_expand [OF outbox_invD(1) [OF inv] ev(1)] expand_none [OF all])
  ultimately show ?thesis by (simp add: write_event_def InsertWorkspaceWebhookDeliveries_def tx_bind_run)
qed

lemma no_delivery_without_event:
  "outbox_inv d \<Longrightarrow> i \<notin> ev_event_id ` set (events d) \<Longrightarrow> unexpanded i d s"
  by (force dest: outbox_invD(7) simp: unexpanded_def delivery_key_def delivery_parents_def)

text \<open>
  C9: A new event reaches every subscription of its workspace exactly once: enqueueing an event about
  an image stores it under the image's workspace and appends one fresh pending delivery for each
  subscription of that workspace, in order, and none for any other; enqueueing an event with the
  same identifier again, with whatever type and body, then changes nothing.
\<close>

theorem event_reaches_each_subscription_once:
  assumes inv: "outbox_inv d" and run: "EnqueueWebhookEvent e i ty s b d = Inr ((), d')"
    and ne: "trim_space i \<noteq> []" "trim_space b \<noteq> []" and new: "i \<notin> ev_event_id ` set (events d)"
  shows "\<exists>w dls. eventWorkspaceID s d = Inr (Some w, d) \<and>
     events d' = events d @ [event_record e d i ty (Some w) (nullableString s) b] \<and>
     deliveries d' = deliveries d @ dls \<and> list_all (fresh_delivery i) dls \<and>
     map wd_subscription_id dls = map ws_id (filter (\<lambda>x. ws_workspace_id x = w) (subscriptions d)) \<and>
     (\<forall>e2 ty2 b2. EnqueueWebhookEvent e2 i ty2 s b2 d' = Inr ((), d'))"
proof -
  from run ne obtain v where v: "eventWorkspaceID s d = Inr (v, d)" and we: "write_event e i ty v s b d = Inr ((), d')"
    by (auto simp: EnqueueWebhookEvent_write tx_bind_Inr dest: eventWorkspaceID_state)
  from write_event_stages [OF inv we] obtain d1 ev where ins: "insertEventOutboxManual e i ty v (nullableString s) b d = Inr ((), d1)"
    and inv1: "outbox_inv d1" and ev: "ev \<in> set (events d1)" "ev_event_id ev = i" "ev_workspace_id ev \<noteq> None"
    and d': "d' = expand e i (subscribers ev d1) d1" by blast
  have "ev \<notin> set (events d)" using new ev(2) by auto
  with insertEventOutboxManual_cases [OF ins] ev(1) have d1:
    "d1 = d\<lparr>events := events d @ [event_record e d i ty v (nullableString s) b], next_event_id := next_event_id d + 1\<rparr>"
    "ev = event_record e d i ty v (nullableString s) b" by auto
  with ev(3) obtain w where w: "v = Some w" by (auto simp: event_record_def)
  have ws: "w \<in> set (workspaces d)"
    using ins d1(1) by (auto simp: insertEventOutboxManual_def list_ex_iff w split: if_splits dest: arg_cong [of _ _ events])
  have subs: "subscribers ev d1 = map ws_id (filter (\<lambda>x. ws_workspace_id x = w) (subscriptions d))"
    by (simp add: subscribers_def d1 event_record_def w eq_commute)
  have fresh: "filter (unexpanded i d1) (subscribers ev d1) = subscribers ev d1"
    using no_delivery_without_event [OF inv new] by (simp add: d1(1) unexpanded_def)
  have "deliveries d1 = deliveries d" by (simp add: d1(1))
  with expand_rows [OF subscribers_distinct [OF inv1, of ev], of e i d1] obtain dls where dls: "deliveries d' = deliveries d @ dls"
    "map wd_subscription_id dls = subscribers ev d1" "list_all (fresh_delivery i) dls"
    unfolding d' fresh by auto
  have "EnqueueWebhookEvent e2 i ty2 s b2 d' = Inr ((), d')" for e2 ty2 b2
  proof -
    have "\<not> unexpanded (ev_event_id ev) d' x" if "x \<in> set (subscribers ev d')" for x
    proof -
      have "subscribers ev d' = map wd_subscription_id dls" using dls(2) by (simp add: subscribers_def d')
      with that dls(3) obtain y where "y \<in> set dls" "wd_subscription_id y = x" "wd_event_id y = i"
        by (auto simp: list_all_iff fresh_delivery_def)
      then show ?thesis using dls(1) ev(2) by (force simp: unexpanded_def delivery_key_def)
    qed
    then have "write_event e2 i ty2 u s b2 d' = Inr ((), d')" for u
      using write_event_again [OF write_event_inv [OF inv we], of ev w] ev ws d1 w by (simp add: d' event_record_def)
    moreover have "eventWorkspaceID s d' = Inr (v, d')"
      by (rule eventWorkspaceID_cong [OF _ _ v]) (simp_all add: d' d1(1))
    ultimately show ?thesis by (simp add: EnqueueWebhookEvent_write tx_bind_run tx_return_run)
  qed
  with v dls d1 subs show ?thesis unfolding w by (simp add: d')
qed

end
