(* ===== verification/Webhook_Leases.thy ===== *)
theory Webhook_Leases
  imports Webhook_Subscriptions
begin

section \<open>Leases on webhook deliveries\<close>

text \<open>
  \<^verbatim>\<open>ClaimWebhookDeliveries\<close>, \<^verbatim>\<open>MarkWebhookDeliveryDelivered\<close> and \<^verbatim>\<open>MarkWebhookDeliveryFailed\<close>: a claim
  takes each delivery at most once and never one that another worker holds, and only the lease
  owner ends the attempt.
\<close>

subsection \<open>The rows a claim selects\<close>

definition claim_rows :: "env \<Rightarrow> db \<Rightarrow> (delivery_row \<times> event_row \<times> subscription_row) list" where
  "claim_rows e d =
     [(w, ev, s). w \<leftarrow> deliveries d, delivery_claimable (now e) w \<and> \<not> delivery_locked e (wd_id w),
        ev \<leftarrow> events d, ev_event_id ev = wd_event_id w,
        s \<leftarrow> subscriptions d, ws_id s = wd_subscription_id w \<and> ev_workspace_id ev = Some (ws_workspace_id s)]"

lemma claimWebhookDeliveriesManual_rows:
  "claimWebhookDeliveriesManual e n d = take n (sort_key (wd_created_at \<circ> fst) (claim_rows e d))"
  by (simp add: claimWebhookDeliveriesManual_def claim_rows_def)

lemma set_claim_rows:
  "(w, ev, s) \<in> set (claim_rows e d) \<longleftrightarrow> w \<in> set (deliveries d) \<and> delivery_claimable (now e) w \<and>
     \<not> delivery_locked e (wd_id w) \<and> ev \<in> set (events d) \<and> ev_event_id ev = wd_event_id w \<and>
     s \<in> set (subscriptions d) \<and> ws_id s = wd_subscription_id w \<and> ev_workspace_id ev = Some (ws_workspace_id s)"
  by (auto simp: claim_rows_def)

lemma claim_rows_distinct:
  assumes "outbox_inv d"
  shows "distinct (map (wd_id \<circ> fst) (claim_rows e d))"
  unfolding claim_rows_def
proof (rule distinct_concat_key [OF outbox_invD(4) [OF assms]])
  fix w :: delivery_row
  let ?g = "\<lambda>ev :: event_row. concat (map (\<lambda>s. if ws_id s = wd_subscription_id w \<and> ev_workspace_id ev = Some (ws_workspace_id s)
      then [(w, ev, s)] else []) (subscriptions d))"
  have "length (?g ev) \<le> 1" for ev
    by (rule join_at_most_one [OF outbox_invD(3) [OF assms]]) simp
  from join_at_most_one [OF outbox_invD(1) [OF assms] this, of "wd_event_id w" "\<lambda>_. True"]
  have "length (concat (map (\<lambda>ev. if ev_event_id ev = wd_event_id w then ?g ev else []) (events d))) \<le> 1" by simp
  then show "length (if delivery_claimable (now e) w \<and> \<not> delivery_locked e (wd_id w)
      then concat (map (\<lambda>ev. if ev_event_id ev = wd_event_id w then ?g ev else []) (events d)) else []) \<le> 1"
    by simp
qed (auto split: if_splits)

lemma claimed_rows:
  assumes "outbox_inv d"
  shows "distinct (map (wd_id \<circ> fst) (claimWebhookDeliveriesManual e n d))"
    and "set (claimWebhookDeliveriesManual e n d) \<subseteq> set (claim_rows e d)"
proof -
  from claim_rows_distinct [OF assms, of e]
  have "distinct (map (wd_id \<circ> fst) (sort_key (wd_created_at \<circ> fst) (claim_rows e d)))"
    by (simp add: distinct_map)
  then show "distinct (map (wd_id \<circ> fst) (claimWebhookDeliveriesManual e n d))"
    unfolding claimWebhookDeliveriesManual_rows take_map [symmetric] by (rule distinct_take)
  show "set (claimWebhookDeliveriesManual e n d) \<subseteq> set (claim_rows e d)"
    unfolding claimWebhookDeliveriesManual_rows by (metis set_sort set_take_subset)
qed

subsection \<open>Marking them\<close>

lemma tx_iter_map: "tx_iter f (map g xs) = tx_iter (\<lambda>x. f (g x)) xs"
  by (induction xs) simp_all

lemma sql_update_twice:
  assumes "\<And>w. wd_id (f w) = wd_id w" and "i \<notin> I"
  shows "sql_update (\<lambda>w. wd_id w \<in> I) f (sql_update (\<lambda>w. wd_id w = i) f rows) = sql_update (\<lambda>w. wd_id w = i \<or> wd_id w \<in> I) f rows"
  using assms by (auto simp: sql_update_def)

lemma mark_all:
  assumes "distinct ids" and "set ids \<subseteq> wd_id ` set (deliveries d)" and f: "\<And>w. wd_id (f w) = wd_id w" "\<And>w. f w \<noteq> w"
  shows "tx_iter (\<lambda>i. requireAffectedRow (update_deliveries (\<lambda>w. wd_id w = i) f)) ids d =
    Inr ((), put_deliveries (sql_update (\<lambda>w. wd_id w \<in> set ids) f (deliveries d)) d)"
  using assms(1,2)
proof (induction ids arbitrary: d)
  case Nil
  then show ?case by (simp add: tx_return_run sql_update_none)
next
  case (Cons i ids)
  let ?d = "put_deliveries (sql_update (\<lambda>w. wd_id w = i) f (deliveries d)) d"
  from Cons.prems obtain w where "w \<in> set (deliveries d)" "wd_id w = i" by auto
  then have "sql_changed (\<lambda>w. wd_id w = i) f (deliveries d) \<noteq> 0"
    using f(2) by (auto simp: sql_changed_def filter_empty_conv)
  then have "requireAffectedRow (update_deliveries (\<lambda>w. wd_id w = i) f) d = Inr ((), ?d)"
    by (simp add: requireAffectedRow_Inr)
  moreover have "set ids \<subseteq> wd_id ` set (deliveries ?d)"
    using Cons.prems(2) map_key_sql_update [of "\<lambda>w. wd_id w = i" wd_id f "deliveries d", OF f(1)]
    by (simp flip: set_map)
  ultimately show ?case using Cons f(1) sql_update_twice [of f i "set ids"]
    by (simp add: tx_bind_run)
qed

subsection \<open>What a claim does\<close>

definition set_processing :: "env \<Rightarrow> delivery_row \<Rightarrow> delivery_row" where
  "set_processing e w =
     w\<lparr>wd_status := DProcessing, wd_attempt_count := wd_attempt_count w + 1,
       wd_lease_until := Some (datetime_of (clock6 e + 120000000)),
       wd_locked_by := Some (''webhook-'' @ uuid e), wd_updated_at := now e\<rparr>"

lemma set_processing_row: "wd_id (set_processing e w) = wd_id w" "set_processing e w \<noteq> w"
proof -
  show "wd_id (set_processing e w) = wd_id w" by (simp add: set_processing_def)
  have "wd_attempt_count (set_processing e w) \<noteq> wd_attempt_count w" by (simp add: set_processing_def)
  then show "set_processing e w \<noteq> w" by auto
qed

definition after_expiry :: "env \<Rightarrow> db \<Rightarrow> db" where
  "after_expiry e d = tx_state (failExpiredExhaustedWebhookDeliveriesManual e) d"

definition handed_out :: "env \<Rightarrow> int \<Rightarrow> db \<Rightarrow> (delivery_row \<times> event_row \<times> subscription_row) list" where
  "handed_out e lim d = claimWebhookDeliveriesManual e (nat (if lim \<le> 0 then 10 else lim)) (after_expiry e d)"

lemma after_expiry_run:
  "failExpiredExhaustedWebhookDeliveriesManual e d = Inr (x, d1) \<Longrightarrow> d1 = after_expiry e d"
  "\<exists>x. failExpiredExhaustedWebhookDeliveriesManual e d = Inr (x, after_expiry e d)"
proof -
  have "\<exists>x d1. failExpiredExhaustedWebhookDeliveriesManual e d = Inr (x, d1)"
    by (auto simp: failExpiredExhaustedWebhookDeliveriesManual_def)
  then show "failExpiredExhaustedWebhookDeliveriesManual e d = Inr (x, d1) \<Longrightarrow> d1 = after_expiry e d"
    "\<exists>x. failExpiredExhaustedWebhookDeliveriesManual e d = Inr (x, after_expiry e d)"
    by (auto simp: after_expiry_def tx_state_def)
qed

lemma after_expiry_rows:
  "events (after_expiry e d) = events d" "subscriptions (after_expiry e d) = subscriptions d"
  "w \<in> set (deliveries (after_expiry e d)) \<Longrightarrow> w \<in> set (deliveries d) \<or> wd_status w = DFailed"
  using after_expiry_run(2) [of e d]
  by (auto simp: failExpiredExhaustedWebhookDeliveriesManual_def set_sql_update)

lemma after_expiry_inv:
  assumes "outbox_inv d"
  shows "outbox_inv (after_expiry e d)"
proof -
  from after_expiry_run(2) [of e d] show ?thesis
    by (auto simp: failExpiredExhaustedWebhookDeliveriesManual_def intro!: deliveries_update_inv assms)
       (auto simp: same_delivery_def delivery_ok_def)
qed

lemma claimable_ok:
  "delivery_ok w \<Longrightarrow> delivery_claimable t w \<Longrightarrow> wd_attempt_count w < wd_max_attempts w"
  by (auto simp: delivery_ok_def delivery_claimable_def)

lemma handed_out_rows:
  assumes "outbox_inv d"
  shows "distinct (map (wd_id \<circ> fst) (handed_out e lim d))"
    and "(w, ev, s) \<in> set (handed_out e lim d) \<Longrightarrow> w \<in> set (deliveries d) \<and> delivery_claimable (now e) w \<and>
      \<not> delivery_locked e (wd_id w) \<and> ev \<in> set (events d) \<and> ev_event_id ev = wd_event_id w \<and>
      s \<in> set (subscriptions d) \<and> ws_id s = wd_subscription_id w \<and> ev_workspace_id ev = Some (ws_workspace_id s) \<and>
      w \<in> set (deliveries (after_expiry e d))"
proof -
  note rows = claimed_rows [OF after_expiry_inv [OF assms], of e "nat (if lim \<le> 0 then 10 else lim)" e]
  show "distinct (map (wd_id \<circ> fst) (handed_out e lim d))" unfolding handed_out_def by (rule rows(1))
  assume "(w, ev, s) \<in> set (handed_out e lim d)"
  with rows(2) have row: "(w, ev, s) \<in> set (claim_rows e (after_expiry e d))" unfolding handed_out_def by blast
  moreover from row have "w \<in> set (deliveries d)"
    using after_expiry_rows(3) [of w e d] by (auto simp: set_claim_rows delivery_claimable_def delivery_lease_expired_def)
  ultimately show "w \<in> set (deliveries d) \<and> delivery_claimable (now e) w \<and>
      \<not> delivery_locked e (wd_id w) \<and> ev \<in> set (events d) \<and> ev_event_id ev = wd_event_id w \<and>
      s \<in> set (subscriptions d) \<and> ws_id s = wd_subscription_id w \<and> ev_workspace_id ev = Some (ws_workspace_id s) \<and>
      w \<in> set (deliveries (after_expiry e d))"
    by (simp add: set_claim_rows after_expiry_rows)
qed

definition claim_result :: "env \<Rightarrow> delivery_row \<times> event_row \<times> subscription_row \<Rightarrow> WebhookDelivery" where
  "claim_result e = (\<lambda>(w, ev, s). (dbWebhookDeliveryToStore w ev s)
     \<lparr>dl_lease_owner := ''webhook-'' @ uuid e, dl_attempt_count := wd_attempt_count w + 1\<rparr>)"

lemma ClaimWebhookDeliveries_run:
  assumes inv: "outbox_inv d" and "uuid_text (uuid e)" and "lim < 2 ^ 31"
  shows "ClaimWebhookDeliveries e lim d = Inr (map (claim_result e) (handed_out e lim d),
    put_deliveries (sql_update (\<lambda>w. wd_id w \<in> (wd_id \<circ> fst) ` set (handed_out e lim d)) (set_processing e)
      (deliveries (after_expiry e d))) (after_expiry e d))"
proof -
  let ?own = "''webhook-'' @ uuid e"
  have own: "nullableString (newLeaseOwner e ''webhook'') = Some ?own"
    unfolding newLeaseOwner_prefixes by (rule nullableString_owner [OF assms(2)]) (simp_all add: is_graph_def)
  have lim: "tx_lift (intToInt32 (if lim \<le> 0 then 10 else lim)) = tx_return (if lim \<le> 0 then 10 else lim)"
    using assms(3) by (simp add: intToInt32_def tx_lift_def tx_return_def fun_eq_iff)
  have ids: "(wd_id \<circ> fst) ` set (handed_out e lim d) \<subseteq> wd_id ` set (deliveries (after_expiry e d))"
    using handed_out_rows(2) [OF inv] by force
  have marks: "(\<lambda>(w, ev, s). requireAffectedRow (markWebhookDeliveryProcessingManual e (datetime_of (clock6 e + 120000000)) (Some ?own) (wd_id w))) =
      (\<lambda>r. (\<lambda>i. requireAffectedRow (update_deliveries (\<lambda>w. wd_id w = i) (set_processing e))) ((wd_id \<circ> fst) r))"
    by (auto simp: fun_eq_iff markWebhookDeliveryProcessingManual_def set_processing_def [abs_def])
  have "tx_iter (\<lambda>i. requireAffectedRow (update_deliveries (\<lambda>w. wd_id w = i) (set_processing e)))
      (map (wd_id \<circ> fst) (handed_out e lim d)) (after_expiry e d) =
      Inr ((), put_deliveries (sql_update (\<lambda>w. wd_id w \<in> set (map (wd_id \<circ> fst) (handed_out e lim d))) (set_processing e)
        (deliveries (after_expiry e d))) (after_expiry e d))"
    by (rule mark_all) (use ids handed_out_rows(1) [OF inv] set_processing_row in simp_all)
  then have iter: "tx_iter (\<lambda>(w, ev, s). requireAffectedRow (markWebhookDeliveryProcessingManual e (datetime_of (clock6 e + 120000000)) (Some ?own) (wd_id w)))
      (handed_out e lim d) (after_expiry e d) = Inr ((), put_deliveries (sql_update (\<lambda>w. wd_id w \<in> (wd_id \<circ> fst) ` set (handed_out e lim d)) (set_processing e)
      (deliveries (after_expiry e d))) (after_expiry e d))"
    unfolding marks by (simp only: tx_iter_map set_map)
  obtain x where "failExpiredExhaustedWebhookDeliveriesManual e d = Inr (x, after_expiry e d)"
    using after_expiry_run(2) by blast
  with iter show ?thesis
    unfolding ClaimWebhookDeliveries_def Let_def own lim
    by (simp add: tx_bind_run tx_return_run tx_read_run handed_out_def [symmetric] claim_result_def opt_string_def case_prod_unfold)
qed

lemma claimed_state_inv:
  assumes inv: "outbox_inv d"
  shows "outbox_inv (put_deliveries (sql_update (\<lambda>w. wd_id w \<in> (wd_id \<circ> fst) ` set (handed_out e lim d)) (set_processing e)
      (deliveries (after_expiry e d))) (after_expiry e d))"
proof (rule deliveries_update_inv [OF after_expiry_inv [OF inv]])
  fix w assume w: "w \<in> set (deliveries (after_expiry e d))" "wd_id w \<in> (wd_id \<circ> fst) ` set (handed_out e lim d)" "delivery_ok w"
  then obtain v ev s where row: "(v, ev, s) \<in> set (handed_out e lim d)" "wd_id v = wd_id w" by force
  from handed_out_rows(2) [OF inv row(1)] w(1) row(2) have "v = w"
    using distinct_map_eqD [OF outbox_invD(4) [OF after_expiry_inv [OF inv]]] by blast
  with handed_out_rows(2) [OF inv row(1)] w(3) have "wd_attempt_count w < wd_max_attempts w" by (auto intro: claimable_ok)
  with w(3) show "delivery_ok (set_processing e w)" by (simp add: delivery_ok_def set_processing_def)
qed (simp add: same_delivery_def set_processing_def)

text \<open>A delivery that is being processed under an unexpired lease is not handed out.\<close>

lemma held_not_handed_out:
  assumes "outbox_inv d" and "w \<in> set (deliveries d)" and "wd_status w = DProcessing" and "wd_lease_until w = Some u" and "now e \<le> u"
  shows "wd_id w \<notin> (wd_id \<circ> fst) ` set (handed_out e lim d)"
proof
  assume "wd_id w \<in> (wd_id \<circ> fst) ` set (handed_out e lim d)"
  then obtain v ev s where row: "(v, ev, s) \<in> set (handed_out e lim d)" "wd_id v = wd_id w" by force
  from handed_out_rows(2) [OF assms(1) row(1)] row(2) assms(2) have "v = w" "delivery_claimable (now e) v"
    using distinct_map_eqD [OF outbox_invD(4) [OF assms(1)]] by blast+
  with assms(3-5) show False by (simp add: delivery_claimable_def delivery_lease_expired_def)
qed

lemma claim_result_simps [simp]:
  "dl_id (claim_result e r) = wd_id (fst r)" "dl_lease_owner (claim_result e r) = ''webhook-'' @ uuid e"
  "dl_attempt_count (claim_result e r) = wd_attempt_count (fst r) + 1"
  "dl_target_url (claim_result e r) = ws_target_url (snd (snd r))"
  "dl_signing_secret (claim_result e r) = ws_signing_secret (snd (snd r))"
  "dl_body_json (claim_result e r) = ev_body_json (fst (snd r))"
  by (simp_all add: claim_result_def case_prod_unfold dbWebhookDeliveryToStore_def)

lemma claim_ids: "map dl_id (map (claim_result e) rows) = map (wd_id \<circ> fst) rows"
  by simp

lemma claimed_row:
  assumes inv: "outbox_inv d" and "uuid_text (uuid e)" and "lim < 2 ^ 31" and "ClaimWebhookDeliveries e lim d = Inr (ds, d')"
    and "x \<in> set ds"
  obtains w ev s where "w \<in> set (deliveries d)" and "delivery_claimable (now e) w" and "x = claim_result e (w, ev, s)"
    and "ev \<in> set (events d)" and "ev_event_id ev = wd_event_id w" and "s \<in> set (subscriptions d)"
    and "ws_id s = wd_subscription_id w" and "ev_workspace_id ev = Some (ws_workspace_id s)"
    and "set_processing e w \<in> set (deliveries d')"
proof -
  from assms(4,5) ClaimWebhookDeliveries_run [OF assms(1-3)] obtain w ev s
    where row: "(w, ev, s) \<in> set (handed_out e lim d)" "x = claim_result e (w, ev, s)"
    and d': "deliveries d' = sql_update (\<lambda>w. wd_id w \<in> (wd_id \<circ> fst) ` set (handed_out e lim d)) (set_processing e) (deliveries (after_expiry e d))"
    by auto
  note r = handed_out_rows(2) [OF inv row(1)]
  have "wd_id w \<in> (wd_id \<circ> fst) ` set (handed_out e lim d)" using row(1) by force
  with r d' have "set_processing e w \<in> set (deliveries d')" by (auto simp: set_sql_update)
  with r row(2) show thesis by (intro that) auto
qed

text \<open>
  C10: A claim never fails and hands out each delivery once: it returns at most the requested number of
  distinct deliveries, each of which was due with attempts left, carries the event's body to the
  target and secret of a subscription of the event's own workspace, and is now being processed
  under the caller's fresh lease for two minutes with its attempt counted.
\<close>

theorem claim_hands_out_once:
  assumes inv: "outbox_inv d" and "uuid_text (uuid e)" and "lim < 2 ^ 31"
  shows "\<exists>ds d'. ClaimWebhookDeliveries e lim d = Inr (ds, d') \<and> distinct (map dl_id ds) \<and>
     int (length ds) \<le> (if lim \<le> 0 then 10 else lim) \<and>
     (\<forall>x \<in> set ds. \<exists>w \<in> set (deliveries d). \<exists>ev \<in> set (events d). \<exists>s \<in> set (subscriptions d).
        wd_id w = dl_id x \<and> delivery_claimable (now e) w \<and> wd_attempt_count w < wd_max_attempts w \<and>
        ev_event_id ev = wd_event_id w \<and> ws_id s = wd_subscription_id w \<and> ev_workspace_id ev = Some (ws_workspace_id s) \<and>
        dl_body_json x = ev_body_json ev \<and> dl_target_url x = ws_target_url s \<and> dl_signing_secret x = ws_signing_secret s \<and>
        dl_attempt_count x = wd_attempt_count w + 1 \<and> dl_lease_owner x = ''webhook-'' @ uuid e \<and>
        set_processing e w \<in> set (deliveries d'))"
proof -
  note run = ClaimWebhookDeliveries_run [OF assms]
  let ?ds = "map (claim_result e) (handed_out e lim d)"
  have "length ?ds \<le> nat (if lim \<le> 0 then 10 else lim)" by (simp add: handed_out_def claimWebhookDeliveriesManual_def)
  then have "int (length ?ds) \<le> (if lim \<le> 0 then 10 else lim)" by (simp split: if_splits)
  moreover have "distinct (map dl_id ?ds)" unfolding claim_ids by (rule handed_out_rows(1) [OF inv])
  moreover have "\<exists>w \<in> set (deliveries d). \<exists>ev \<in> set (events d). \<exists>s \<in> set (subscriptions d).
        wd_id w = dl_id x \<and> delivery_claimable (now e) w \<and> wd_attempt_count w < wd_max_attempts w \<and>
        ev_event_id ev = wd_event_id w \<and> ws_id s = wd_subscription_id w \<and> ev_workspace_id ev = Some (ws_workspace_id s) \<and>
        dl_body_json x = ev_body_json ev \<and> dl_target_url x = ws_target_url s \<and> dl_signing_secret x = ws_signing_secret s \<and>
        dl_attempt_count x = wd_attempt_count w + 1 \<and> dl_lease_owner x = ''webhook-'' @ uuid e \<and>
        set_processing e w \<in> set (deliveries d')"
    if "x \<in> set ds" "ClaimWebhookDeliveries e lim d = Inr (ds, d')" for x ds d'
  proof (rule claimed_row [OF assms that(2,1)])
    fix w ev s assume "w \<in> set (deliveries d)" "delivery_claimable (now e) w" "x = claim_result e (w, ev, s)"
      "ev \<in> set (events d)" "ev_event_id ev = wd_event_id w" "s \<in> set (subscriptions d)"
      "ws_id s = wd_subscription_id w" "ev_workspace_id ev = Some (ws_workspace_id s)" "set_processing e w \<in> set (deliveries d')"
    then show ?thesis
      by (intro bexI [of _ w] bexI [of _ ev] bexI [of _ s] conjI) (simp_all add: claimable_ok outbox_invD(6) [OF inv])
  qed
  ultimately show ?thesis using run by blast
qed


subsection \<open>Finishing an attempt\<close>

definition owns :: "nat \<Rightarrow> string \<Rightarrow> delivery_row \<Rightarrow> bool" where
  "owns i owner w \<longleftrightarrow> wd_id w = i \<and> wd_status w = DProcessing \<and> nullableString owner \<noteq> None \<and>
     wd_locked_by w = nullableString owner"

lemma owns_iff:
  "wd_id w = i \<and> null_eq (wd_locked_by w) (nullableString owner) \<and> wd_status w = DProcessing \<longleftrightarrow> owns i owner w"
  by (auto simp: owns_def null_eq_def split: option.splits)

lemma require_update_deliveries:
  assumes "\<And>w. P w \<Longrightarrow> wd_status (f w) \<noteq> wd_status w"
  shows "requireAffectedRow (update_deliveries P f) d =
    (if \<exists>w \<in> set (deliveries d). P w then Inr ((), put_deliveries (sql_update P f (deliveries d)) d) else Inl ErrNoRows)"
proof -
  have "sql_changed P f (deliveries d) \<noteq> 0 \<longleftrightarrow> (\<exists>w \<in> set (deliveries d). P w)"
    using assms by (force simp: sql_changed_def filter_empty_conv)
  then show ?thesis
    by (simp add: requireAffectedRow_def tx_bind_run update_deliveries_def exec_update_def list_ex_iff tx_guard_run)
qed

definition set_delivered :: "env \<Rightarrow> delivery_row \<Rightarrow> delivery_row" where
  "set_delivered e w = w\<lparr>wd_status := DDelivered, wd_lease_until := None, wd_locked_by := None,
     wd_last_error := None, wd_updated_at := now e\<rparr>"

definition set_delivery_failed :: "env \<Rightarrow> string option \<Rightarrow> delivery_row \<Rightarrow> delivery_row" where
  "set_delivery_failed e last_error w =
     w\<lparr>wd_status := (if wd_attempt_count w \<ge> wd_max_attempts w then DFailed else DPending),
       wd_next_attempt_at := (if wd_attempt_count w \<ge> wd_max_attempts w then None
                              else Some (now e + webhook_delay (wd_attempt_count w))),
       wd_lease_until := None, wd_locked_by := None, wd_last_error := last_error, wd_updated_at := now e\<rparr>"

lemma Mark_run:
  "MarkWebhookDeliveryDelivered e i owner d = (if \<exists>w \<in> set (deliveries d). owns i owner w
     then Inr ((), put_deliveries (sql_update (owns i owner) (set_delivered e) (deliveries d)) d) else Inl ErrNoRows)"
  "MarkWebhookDeliveryFailed e i owner msg d = (if \<exists>w \<in> set (deliveries d). owns i owner w
     then Inr ((), put_deliveries (sql_update (owns i owner)
       (set_delivery_failed e (nullableString (safeDurableFailureMessage durableFailureWebhook msg))) (deliveries d)) d) else Inl ErrNoRows)"
proof -
  have "set_delivered e = (\<lambda>w. w\<lparr>wd_status := DDelivered, wd_lease_until := None, wd_locked_by := None,
     wd_last_error := None, wd_updated_at := now e\<rparr>)" by (simp add: fun_eq_iff set_delivered_def)
  then have "MarkWebhookDeliveryDelivered e i owner = requireAffectedRow (update_deliveries (owns i owner) (set_delivered e))"
    by (simp add: MarkWebhookDeliveryDelivered_def markWebhookDeliveryDeliveredManual_def owns_iff)
  moreover have "wd_status (set_delivered e w) \<noteq> wd_status w" if "owns i owner w" for w
    using that by (simp add: owns_def set_delivered_def)
  ultimately show "MarkWebhookDeliveryDelivered e i owner d = (if \<exists>w \<in> set (deliveries d). owns i owner w
     then Inr ((), put_deliveries (sql_update (owns i owner) (set_delivered e) (deliveries d)) d) else Inl ErrNoRows)"
    by (simp add: require_update_deliveries)
  let ?m = "nullableString (safeDurableFailureMessage durableFailureWebhook msg)"
  have "MarkWebhookDeliveryFailed e i owner msg = requireAffectedRow (update_deliveries (owns i owner) (set_delivery_failed e ?m))"
    by (simp add: MarkWebhookDeliveryFailed_def markWebhookDeliveryFailedManual_def owns_iff set_delivery_failed_def [abs_def])
  moreover have "wd_status (set_delivery_failed e ?m w) \<noteq> wd_status w" if "owns i owner w" for w
    using that by (simp add: owns_def set_delivery_failed_def)
  ultimately show "MarkWebhookDeliveryFailed e i owner msg d = (if \<exists>w \<in> set (deliveries d). owns i owner w
     then Inr ((), put_deliveries (sql_update (owns i owner) (set_delivery_failed e ?m) (deliveries d)) d) else Inl ErrNoRows)"
    by (simp add: require_update_deliveries)
qed

text \<open>
  C12: Only the lease owner finishes a delivery attempt. When some other text is presented, or the
  delivery is not being processed, both operations report that there is no such row and change
  nothing. The owner's success makes the delivery final; its failure makes it final exactly when
  the attempts are spent and otherwise schedules it 10 to 900 seconds later, in both cases
  without a lease.
\<close>

theorem only_the_owner_finishes:
  assumes inv: "outbox_inv d"
  shows "if \<exists>w \<in> set (deliveries d). owns i owner w
     then \<exists>d1 d2. MarkWebhookDeliveryDelivered e i owner d = Inr ((), d1) \<and> MarkWebhookDeliveryFailed e i owner msg d = Inr ((), d2) \<and>
       list_all2 (\<lambda>w v. if wd_id w = i then wd_status v = DDelivered \<and> wd_locked_by v = None \<and> wd_lease_until v = None else v = w)
         (deliveries d) (deliveries d1) \<and>
       list_all2 (\<lambda>w v. if wd_id w = i then wd_locked_by v = None \<and> wd_lease_until v = None \<and> wd_attempt_count v = wd_attempt_count w \<and>
             (if wd_attempt_count w = wd_max_attempts w then wd_status v = DFailed
              else wd_status v = DPending \<and> (\<exists>t. wd_next_attempt_at v = Some t \<and> now e + 10 \<le> t \<and> t \<le> now e + 900))
           else v = w) (deliveries d) (deliveries d2)
     else MarkWebhookDeliveryDelivered e i owner d = Inl ErrNoRows \<and> MarkWebhookDeliveryFailed e i owner msg d = Inl ErrNoRows"
proof -
  have key: "wd_id w = i \<longleftrightarrow> owns i owner w" if "w \<in> set (deliveries d)" "\<exists>v \<in> set (deliveries d). owns i owner v" for w
    using that distinct_map_eqD [OF outbox_invD(4) [OF inv]] by (auto simp: owns_def)
  have delay: "10 \<le> webhook_delay n \<and> webhook_delay n \<le> 900" if "0 < n" for n
  proof -
    from that have "(2::nat) ^ 1 \<le> 2 ^ nat n" by (intro power_increasing) auto
    then show ?thesis by (simp add: webhook_delay_def)
  qed
  have cnt: "0 < wd_attempt_count w \<and> wd_attempt_count w \<le> wd_max_attempts w"
    if "w \<in> set (deliveries d)" "owns i owner w" for w
    using outbox_invD(6) [OF inv that(1)] that(2) by (simp add: delivery_ok_def owns_def)
  show ?thesis
    unfolding Mark_run
    by (auto simp: sql_update_def list_all2_map2 list_all2_same key set_delivered_def set_delivery_failed_def
          intro!: delay dest: cnt)
qed

end
