(* ===== verification/Webhook_System.thy ===== *)
theory Webhook_System
  imports Webhook_Delivery Webhook_Leases
begin

section \<open>The outbox as a transition system\<close>

text \<open>
  Retention of old events, the cursor over the event stream, and the step relation of every
  operation that touches events, deliveries or subscriptions, with the invariant of every state
  that a sequence of steps reaches.
\<close>

subsection \<open>Retention\<close>

definition old_event :: "int \<Rightarrow> event_row \<Rightarrow> bool" where
  "old_event cutoff6 ev \<longleftrightarrow> int (ev_created_at ev) * 1000000 < cutoff6"

definition old_ids :: "int \<Rightarrow> db \<Rightarrow> string set" where
  "old_ids c d = ev_event_id ` {ev \<in> set (events d). old_event c ev}"

definition without_events :: "string set \<Rightarrow> db \<Rightarrow> db" where
  "without_events S d = d\<lparr>deliveries := filter (\<lambda>w. wd_event_id w \<notin> S) (deliveries d),
     events := filter (\<lambda>ev. ev_event_id ev \<notin> S) (events d)\<rparr>"

lemma without_events_twice: "without_events S (without_events T d) = without_events (S \<union> T) d"
  by (simp add: without_events_def conj_commute)

lemma without_no_events [simp]: "without_events {} d = d"
  by (simp add: without_events_def)

lemma without_events_inv:
  assumes "outbox_inv d"
  shows "outbox_inv (without_events S d)"
proof -
  have "outbox_inv (d\<lparr>deliveries := sql_delete (\<lambda>w. wd_event_id w \<in> S) (deliveries d),
      events := sql_delete (\<lambda>ev. ev_event_id ev \<in> S) (events d),
      subscriptions := sql_delete (\<lambda>_. False) (subscriptions d)\<rparr>)"
    by (rule outbox_delete_inv [OF assms])
       (use outbox_invD(7) [OF assms] in \<open>fastforce simp: delivery_parents_def sql_delete_def\<close>)
  then show ?thesis by (simp add: without_events_def sql_delete_def)
qed

lemma batch_ids:
  assumes "outbox_inv d"
  shows "distinct (lockEventOutboxRetentionBatchManual c d)"
    and "set (lockEventOutboxRetentionBatchManual c d) \<subseteq> old_ids c d"
    and "length (lockEventOutboxRetentionBatchManual c d) < 1000 \<Longrightarrow> set (lockEventOutboxRetentionBatchManual c d) = old_ids c d"
proof -
  let ?L = "map ev_event_id (sort_key ev_id (filter (old_event c) (events d)))"
  have L: "lockEventOutboxRetentionBatchManual c d = take 1000 ?L"
    by (simp add: lockEventOutboxRetentionBatchManual_def old_event_def [abs_def])
  have "distinct ?L" using outbox_invD(1) [OF assms] by (simp add: distinct_map inj_on_def)
  then show "distinct (lockEventOutboxRetentionBatchManual c d)" unfolding L by (rule distinct_take)
  have set: "set ?L = old_ids c d" by (simp add: old_ids_def)
  then show "set (lockEventOutboxRetentionBatchManual c d) \<subseteq> old_ids c d" unfolding L by (metis set_take_subset)
  assume "length (lockEventOutboxRetentionBatchManual c d) < 1000"
  then have "take 1000 ?L = ?L" unfolding L by simp
  then show "set (lockEventOutboxRetentionBatchManual c d) = old_ids c d" unfolding L using set by simp
qed

lemma retainWebhookEventBatch_run:
  assumes "outbox_inv d"
  shows "retainWebhookEventBatch c d = Inr (length (lockEventOutboxRetentionBatchManual c d),
    without_events (set (lockEventOutboxRetentionBatchManual c d)) d)"
proof (cases "lockEventOutboxRetentionBatchManual c d")
  case Nil
  then show ?thesis by (simp add: retainWebhookEventBatch_def tx_simps)
next
  case (Cons i ids)
  have "old_ids c d \<subseteq> ev_event_id ` set (events d)" by (auto simp: old_ids_def)
  then have "sql_count (\<lambda>ev. List.member (lockEventOutboxRetentionBatchManual c d) (ev_event_id ev)) (events d) =
    length (lockEventOutboxRetentionBatchManual c d)"
    using count_members [OF outbox_invD(1) [OF assms] batch_ids(1) [OF assms]] batch_ids(2) [OF assms] by blast
  with Cons show ?thesis
    by (simp add: retainWebhookEventBatch_def tx_simps deleteWebhookDeliveriesForEventIDsManual_def
          deleteEventOutboxForIDsManual_def exec_delete_def without_events_def sql_delete_def)
qed

lemma retain_event_batches_run:
  "outbox_inv d \<Longrightarrow> retain_event_batches c d = (None, without_events (old_ids c d) d)"
proof (induction c d rule: retain_event_batches.induct)
  case (1 c d)
  let ?ids = "lockEventOutboxRetentionBatchManual c d"
  let ?d = "without_events (set ?ids) d"
  note run = retainWebhookEventBatch_run [OF "1.prems", of c]
  note ids = batch_ids [OF "1.prems", of c]
  show ?case
  proof (cases "length ?ids < eventRetentionBatchSize")
    case True
    with ids(3) show ?thesis by (subst retain_event_batches.simps) (simp add: run eventRetentionBatchSize_def)
  next
    case False
    have "retain_event_batches c ?d = (None, without_events (old_ids c ?d) ?d)"
      using "1.IH" [OF run refl False] without_events_inv [OF "1.prems"] by blast
    moreover have "old_ids c ?d \<union> set ?ids = old_ids c d"
      using ids(2) by (auto simp: old_ids_def without_events_def)
    ultimately show ?thesis using False
      by (subst retain_event_batches.simps) (simp add: run without_events_twice)
  qed
qed

text \<open>
  C30: Retention ends, without an error, and removes exactly the events created before the cut-off (30
  days before the process's clock unless a positive age is given) together with their deliveries;
  every other event, delivery and row is kept, however many batches of a thousand it takes.
\<close>

theorem retention_removes_exactly_old_events:
  assumes "outbox_inv d"
  shows "\<exists>d'. RetainWebhookEvents e age6 d = (None, d') \<and>
     (let cutoff6 = int (clock6 e) - (if age6 \<le> 0 then 30 * 24 * 3600 * 1000000 else age6);
          old = {ev_event_id ev | ev. ev \<in> set (events d) \<and> int (ev_created_at ev) * 1000000 < cutoff6} in
      events d' = filter (\<lambda>ev. int (ev_created_at ev) * 1000000 \<ge> cutoff6) (events d) \<and>
      deliveries d' = filter (\<lambda>w. wd_event_id w \<notin> old) (deliveries d) \<and>
      d' = d\<lparr>events := events d', deliveries := deliveries d'\<rparr>)"
proof -
  define c where "c = int (clock6 e) - (if age6 \<le> 0 then 30 * 24 * 3600 * 1000000 else age6)"
  have run: "RetainWebhookEvents e age6 d = (None, without_events (old_ids c d) d)"
    unfolding RetainWebhookEvents_def Let_def c_def [symmetric] by (rule retain_event_batches_run [OF assms])
  have old: "old_ids c d = {ev_event_id ev | ev. ev \<in> set (events d) \<and> int (ev_created_at ev) * 1000000 < c}"
    by (auto simp: old_ids_def old_event_def)
  have "filter (\<lambda>ev. ev_event_id ev \<notin> old_ids c d) (events d) = filter (\<lambda>ev. int (ev_created_at ev) * 1000000 \<ge> c) (events d)"
  proof (rule filter_cong [OF refl])
    fix ev assume "ev \<in> set (events d)"
    then have "ev_event_id ev \<in> old_ids c d \<longleftrightarrow> old_event c ev"
      using distinct_map_eqD [OF outbox_invD(1) [OF assms]] unfolding old_ids_def by blast
    then show "ev_event_id ev \<notin> old_ids c d \<longleftrightarrow> int (ev_created_at ev) * 1000000 \<ge> c" by (auto simp: old_event_def)
  qed
  then show ?thesis unfolding run c_def [symmetric] Let_def old [symmetric] by (simp add: without_events_def)
qed

subsection \<open>The event stream\<close>


subsection \<open>Steps\<close>

text \<open>
  A step is one committed operation of any actor on the outbox, a failure or completion of a job
  that writes its event in the same transaction, or a write of another component that leaves
  these tables alone.
\<close>

inductive outbox_step :: "db \<Rightarrow> db \<Rightarrow> bool" where
  enqueued: "EnqueueWebhookEvent e i ty s b d = Inr ((), d') \<Longrightarrow> outbox_step d d'"
| system_event: "EnqueueSystemWebhookEvent e i ty b d = Inr ((), d') \<Longrightarrow> outbox_step d d'"
| job_failed: "failWithWebhookEvent e fence msg eid ety subj body p ra d = Inr (t, d') \<Longrightarrow> outbox_step d d'"
| job_completed: "commitTranscriptionCompletion e cp w v d = Inr ((), d') \<Longrightarrow> outbox_step d d'"
| handed: "uuid_text (uuid e) \<Longrightarrow> ClaimWebhookDeliveries e lim d = Inr (ds, d') \<Longrightarrow> outbox_step d d'"
| delivered: "MarkWebhookDeliveryDelivered e i owner d = Inr ((), d') \<Longrightarrow> outbox_step d d'"
| delivery_failed: "MarkWebhookDeliveryFailed e i owner msg d = Inr ((), d') \<Longrightarrow> outbox_step d d'"
| retained: "RetainWebhookEvents e age6 d = (err, d') \<Longrightarrow> outbox_step d d'"
| subscribed: "subscription_Create sha e w url secret d = Inr (r, d') \<Longrightarrow> outbox_step d d'"
| unsubscribed: "subscription_Delete w i d = Inr ((), d') \<Longrightarrow> outbox_step d d'"
| elsewhere: "outbox_frame d d' \<Longrightarrow> outbox_step d d'"

lemma finishTranscriptionAttempt_outbox:
  "finishTranscriptionAttempt e fence oc msg rv d = Inr (x, d') \<Longrightarrow> outbox_frame d d'"
  by (auto simp: finishTranscriptionAttempt_def Let_def tx_elims outbox_frame_def finishTranscriptionJobAttemptManual_def
      split: if_splits option.splits)

lemma update_jobs_outbox: "update_jobs P f d = Inr (n, d') \<Longrightarrow> outbox_frame d d'"
  by (auto simp: update_jobs_Inr outbox_frame_def)

lemma deleteTranscriptionCheckpoints_outbox: "deleteTranscriptionCheckpoints i d = Inr (n, d') \<Longrightarrow> outbox_frame d d'"
  by (auto simp: deleteTranscriptionCheckpoints_def tx_elims outbox_frame_def)

lemma failWithWebhookEvent_inv:
  assumes inv: "outbox_inv d" and fw: "failWithWebhookEvent e fence msg eid ety subj body p ra d = Inr (t, d')"
  shows "outbox_inv d'"
proof (rule failWithWebhookEvent_stages [OF fw])
  fix held job x d1 d2 y d3
  assume "finishTranscriptionAttempt e fence (if t then OFailed else ORetryableFailed)
        (safeTranscriptionErrorMessage msg) None d = Inr (x, d1)"
    and "update_jobs (lease_held (now e) (JobID fence) (int (AttemptNumber fence)) (InputRevision fence)
        (nullableString (LeaseToken fence))) (fail_set (now e) (nullableString (safeTranscriptionErrorMessage msg)) p t ra) d1 = Inr (1, d2)"
    and del: "tx_when t (tx_bind (deleteTranscriptionCheckpoints (JobID fence)) (\<lambda>_. tx_return ())) d2 = Inr (y, d3)"
    and ev: "tx_when (t \<and> trim_space eid \<noteq> [] \<and> trim_space body \<noteq> [])
        (tx_bind (eventWorkspaceID subj) (\<lambda>w. write_event e eid ety w subj body)) d3 = Inr ((), d')"
  then have "outbox_frame d d2" by (metis finishTranscriptionAttempt_outbox update_jobs_outbox outbox_frame_trans)
  moreover have "outbox_frame d2 d3"
    using del by (auto simp: tx_elims dest: deleteTranscriptionCheckpoints_outbox split: if_splits)
  ultimately have "outbox_inv d3" using inv by (meson outbox_frame_inv)
  then show ?thesis using ev by (auto simp: tx_elims dest: write_event_inv eventWorkspaceID_state split: if_splits)
qed

lemma commitTranscriptionCompletion_inv:
  assumes inv: "outbox_inv d" and cc: "commitTranscriptionCompletion e cp w v d = Inr (x, d')"
  shows "outbox_inv d'"
proof -
  from cc obtain d1 d2 d3 m n k where "finishTranscriptionAttempt e (cp_fence cp) OCompleted [] (Some v) d = Inr (m, d1)"
    and "update_jobs k (set_completed (now e)) d1 = Inr (1, d2)"
    and "deleteTranscriptionCheckpoints (JobID (cp_fence cp)) d2 = Inr (n, d3)"
    and ev: "tx_when (trim_space (cp_event_id cp) \<noteq> [] \<and> trim_space (cp_body_json cp) \<noteq> [])
      (write_event e (cp_event_id cp) (cp_event_type cp) (nullableUint64 w) (cp_subject cp) (cp_body_json cp)) d3 = Inr ((), d')"
    unfolding commitTranscriptionCompletion_def Let_def completeTranscriptionJobLeasedManual_def
      tx_bind_Inr tx_lift_Inr tx_fence_as_Inr requireFenceAffected_Inr by auto
  then have "outbox_frame d d3"
    by (metis finishTranscriptionAttempt_outbox update_jobs_outbox deleteTranscriptionCheckpoints_outbox outbox_frame_trans)
  then have "outbox_inv d3" using inv by (meson outbox_frame_inv)
  then show ?thesis using ev by (auto simp: tx_when_Inr dest: write_event_inv split: if_splits)
qed

lemma Enqueue_inv:
  "outbox_inv d \<Longrightarrow> EnqueueWebhookEvent e i ty s b d = Inr (x, d') \<Longrightarrow> outbox_inv d'"
  "outbox_inv d \<Longrightarrow> EnqueueSystemWebhookEvent e i ty b d = Inr (x, d') \<Longrightarrow> outbox_inv d'"
  by (auto simp: EnqueueWebhookEvent_write EnqueueSystemWebhookEvent_def tx_elims
      dest: write_event_inv eventWorkspaceID_state insertEventOutboxManual_inv split: if_splits)

lemma ClaimWebhookDeliveries_inv:
  assumes "outbox_inv d" and "uuid_text (uuid e)" and "ClaimWebhookDeliveries e lim d = Inr (ds, d')"
  shows "outbox_inv d'"
proof -
  from assms(3) have "lim < 2 ^ 31"
    by (auto simp: ClaimWebhookDeliveries_def Let_def tx_bind_Inr tx_lift_Inr intToInt32_def split: if_splits)
  with ClaimWebhookDeliveries_run [OF assms(1,2)] assms(3) claimed_state_inv [OF assms(1), of e lim] show ?thesis by auto
qed

lemma Mark_inv:
  assumes inv: "outbox_inv d"
  shows "MarkWebhookDeliveryDelivered e i owner d = Inr (x, d') \<Longrightarrow> outbox_inv d'"
    and "MarkWebhookDeliveryFailed e i owner msg d = Inr (x, d') \<Longrightarrow> outbox_inv d'"
proof -
  have "outbox_inv (put_deliveries (sql_update (owns i owner) (set_delivered e) (deliveries d)) d)"
    by (rule deliveries_update_inv [OF inv]) (auto simp: same_delivery_def set_delivered_def delivery_ok_def)
  then show "MarkWebhookDeliveryDelivered e i owner d = Inr (x, d') \<Longrightarrow> outbox_inv d'"
    by (auto simp: Mark_run split: if_splits)
  have "outbox_inv (put_deliveries (sql_update (owns i owner) (set_delivery_failed e m) (deliveries d)) d)" for m
    by (rule deliveries_update_inv [OF inv]) (auto simp: same_delivery_def set_delivery_failed_def delivery_ok_def)
  then show "MarkWebhookDeliveryFailed e i owner msg d = Inr (x, d') \<Longrightarrow> outbox_inv d'"
    by (auto simp: Mark_run split: if_splits)
qed

lemma RetainWebhookEvents_inv: "outbox_inv d \<Longrightarrow> RetainWebhookEvents e age6 d = (err, d') \<Longrightarrow> outbox_inv d'"
  by (auto simp: RetainWebhookEvents_def Let_def retain_event_batches_run without_events_inv)

lemma outbox_step_inv: "outbox_step d d' \<Longrightarrow> outbox_inv d \<Longrightarrow> outbox_inv d'"
  by (induction rule: outbox_step.induct)
     (auto intro: Enqueue_inv failWithWebhookEvent_inv commitTranscriptionCompletion_inv ClaimWebhookDeliveries_inv Mark_inv
       RetainWebhookEvents_inv subscription_Create_inv subscription_Delete_inv outbox_frame_inv)

interpretation outbox: transition_system outbox_step outbox_inv
  by unfold_locales (rule outbox_step_inv)

definition outbox_initial :: "db \<Rightarrow> bool" where
  "outbox_initial d \<longleftrightarrow> events d = [] \<and> deliveries d = [] \<and> subscriptions d = [] \<and> next_event_id d = 1 \<and>
     next_subscription_id d = 1"

lemma outbox_initial_inv: "outbox_initial d \<Longrightarrow> outbox_inv d"
  by (simp add: outbox_initial_def outbox_defs sql_count_def)


end
