(* ===== verification/Webhook_Witnesses.thy ===== *)
theory Webhook_Witnesses
  imports Scribe_Demo Webhook_System
begin

section \<open>The outbox's theorems on a concrete run\<close>

text \<open>
  A workspace subscribes to one target, an event about its image is enqueued, a worker claims the
  delivery and reports a failure. Each theorem about the outbox is applied to a state of this run.
\<close>

subsection \<open>The run\<close>

definition hook_secret :: string where
  "hook_secret = replicate 32 (CHR ''s'')"

definition hook0 :: db where
  "hook0 = demo0\<lparr>subscriptions := [], next_subscription_id := 1\<rparr>"

definition hook_subscribed :: db where
  "hook_subscribed = hook0\<lparr>subscriptions := [\<lparr>ws_id = 1, ws_workspace_id = 1, ws_target_url = ''https://hook'',
     ws_target_hash = ''kooh//:sptth'', ws_signing_secret = hook_secret, ws_created_at = 100000000, ws_updated_at = 100000000\<rparr>],
     next_subscription_id := 2\<rparr>"

definition hook_event :: event_row where
  "hook_event = \<lparr>ev_id = 1, ev_event_id = ''e1'', ev_event_type = ''page.saved'', ev_workspace_id = Some 1,
     ev_subject = Some ''item-images/7'', ev_body_json = ''{}'', ev_created_at = 110\<rparr>"

definition hook_delivery :: "delivery_status \<Rightarrow> int \<Rightarrow> nat option \<Rightarrow> (nat \<times> string) option \<Rightarrow> string option \<Rightarrow> nat \<Rightarrow> delivery_row" where
  "hook_delivery st n due lease msg t =
     \<lparr>wd_id = 1, wd_event_id = ''e1'', wd_subscription_id = 1, wd_status = st, wd_attempt_count = n, wd_max_attempts = 10,
      wd_next_attempt_at = due, wd_lease_until = map_option fst lease, wd_locked_by = map_option snd lease,
      wd_last_error = msg, wd_created_at = 110, wd_updated_at = t\<rparr>"

definition hook_state :: "delivery_row \<Rightarrow> db" where
  "hook_state w = hook_subscribed\<lparr>events := [hook_event], deliveries := [w], next_event_id := 2, next_delivery_id := 2\<rparr>"

definition hook_owner :: string where
  "hook_owner = ''webhook-'' @ demo_uuid (CHR ''b'')"

definition hook_queued :: db where
  "hook_queued = hook_state (hook_delivery DPending 0 None None None 110)"

definition hook_held :: db where
  "hook_held = hook_state (hook_delivery DProcessing 1 None (Some (240, hook_owner)) None 120)"

lemma hook_subscribe: "subscription_Create rev (demo_env 100 (CHR ''a'')) 1 ''https://hook'' hook_secret hook0 =
   Inr (webhookSubscriptionFromRow (hd (subscriptions hook_subscribed)), hook_subscribed)"
  by code_simp

lemma hook_enqueue:
  "EnqueueWebhookEvent (demo_env 110 (CHR ''a'')) ''e1'' ''page.saved'' ''item-images/7'' ''{}'' hook_subscribed =
     Inr ((), hook_queued)"
  by code_simp

lemma hook_claim: "map_sum id snd (ClaimWebhookDeliveries (demo_env 120 (CHR ''b'')) 5 hook_queued) = Inr hook_held"
  by code_simp

lemma hook_initial: "outbox_initial hook0"
  by (simp add: outbox_initial_def hook0_def demo0_def)

lemma hook_claimed: "\<exists>ds. ClaimWebhookDeliveries (demo_env 120 (CHR ''b'')) 5 hook_queued = Inr (ds, hook_held)"
  using hook_claim by (cases "ClaimWebhookDeliveries (demo_env 120 (CHR ''b'')) 5 hook_queued") auto

lemma hook_steps: "outbox_step hook0 hook_subscribed" "outbox_step hook_subscribed hook_queued" "outbox_step hook_queued hook_held"
  using outbox_step.subscribed [OF hook_subscribe] outbox_step.enqueued [OF hook_enqueue]
    hook_claimed outbox_step.handed [OF demo_uuid_text(2)] by blast+

lemma hook_reach: "outbox_step\<^sup>*\<^sup>* hook0 hook_held"
  using hook_steps by (meson converse_rtranclp_into_rtranclp rtranclp.rtrancl_refl)

lemma hook_inv: "outbox_inv hook_subscribed" "outbox_inv hook_queued" "outbox_inv hook_held"
  using outbox_initial_inv [OF hook_initial] hook_steps outbox_step_inv by blast+

subsection \<open>The theorems\<close>

theorem event_reaches_witness:
  "length (deliveries hook_queued) = 1 \<and>
   EnqueueWebhookEvent (demo_env 200 (CHR ''c'')) ''e1'' ''other'' ''item-images/7'' ''[]'' hook_queued = Inr ((), hook_queued)"
proof -
  have "trim_space ''e1'' \<noteq> []" "trim_space ''{}'' \<noteq> []" "''e1'' \<notin> ev_event_id ` set (events hook_subscribed)"
    by code_simp+
  note run = event_reaches_each_subscription_once [OF hook_inv(1) hook_enqueue this]
  then have "EnqueueWebhookEvent (demo_env 200 (CHR ''c'')) ''e1'' ''other'' ''item-images/7'' ''[]'' hook_queued = Inr ((), hook_queued)"
    by blast
  moreover have "length (deliveries hook_queued) = 1" by code_simp
  ultimately show ?thesis by simp
qed

theorem claim_hands_out_witness:
  "\<exists>ds d'. ClaimWebhookDeliveries (demo_env 120 (CHR ''b'')) 5 hook_queued = Inr (ds, d') \<and>
     distinct (map dl_id ds) \<and> int (length ds) \<le> 5"
  using claim_hands_out_once [OF hook_inv(2) demo_uuid_text(2), of 5 120] by auto


theorem only_the_owner_witness:
  "(\<exists>d1. MarkWebhookDeliveryDelivered (demo_env 130 (CHR ''b'')) 1 hook_owner hook_held = Inr ((), d1)) \<and>
   MarkWebhookDeliveryDelivered (demo_env 130 (CHR ''b'')) 1 ''someone'' hook_held = Inl ErrNoRows"
proof -
  have own: "\<exists>w \<in> set (deliveries hook_held). owns 1 hook_owner w"
    and "\<not> (\<exists>w \<in> set (deliveries hook_held). owns 1 ''someone'' w)" by code_simp+
  note held = only_the_owner_finishes [OF hook_inv(3), of 1 hook_owner "demo_env 130 (CHR ''b'')" "[]", unfolded if_P [OF own]]
    and other = only_the_owner_finishes [OF hook_inv(3), of 1 "''someone''" "demo_env 130 (CHR ''b'')" "[]", unfolded if_not_P [OF this(2)]]
  show ?thesis using held other by blast
qed

theorem retention_removes_witness:
  "\<exists>d'. RetainWebhookEvents (demo_env 200 (CHR ''a'')) 60000000 hook_queued = (None, d') \<and> events d' = []"
proof -
  have "filter (\<lambda>ev. int (ev_created_at ev) * 1000000 \<ge> int (clock6 (demo_env 200 (CHR ''a''))) - 60000000) (events hook_queued) = []"
    by code_simp
  then show ?thesis
    using retention_removes_exactly_old_events [OF hook_inv(2), of "demo_env 200 (CHR ''a'')" 60000000] by (auto simp: Let_def)
qed



end
