(* ===== verification/Request_Idempotency.thy ===== *)
theory Request_Idempotency
  imports External_Requests Job_Admission
begin

section \<open>What an idempotency key guarantees\<close>

text \<open>
  One record per workspace, source and key, with a bounded number of attempts: at most one caller
  at a time works under a key, a completed operation is replayed to every later caller, a key that
  is used for a different request is refused, and retention removes exactly the old records that
  nobody holds.
\<close>

subsection \<open>The invariant\<close>

definition request_ok :: "request_row \<Rightarrow> bool" where
  "request_ok q \<longleftrightarrow> 1 \<le> rq_attempt_count q \<and> rq_attempt_count q \<le> rq_max_attempts q \<and> rq_max_attempts q = 3 \<and>
     (if rq_status q = InProgress then rq_lease_until q \<noteq> None \<and> rq_locked_by q \<noteq> None
      else rq_lease_until q = None \<and> rq_locked_by q = None)"

definition request_key :: "(string \<Rightarrow> string) \<Rightarrow> request_row \<Rightarrow> nat \<times> string \<times> string" where
  "request_key wt q = (rq_workspace_id q, wt (rq_source q), wt (rq_idempotency_key q))"

definition requests_inv :: "(string \<Rightarrow> string) \<Rightarrow> db \<Rightarrow> bool" where
  "requests_inv wt d \<longleftrightarrow> distinct (map rq_id (requests d)) \<and> distinct (map (request_key wt) (requests d)) \<and>
     (\<forall>q \<in> set (requests d). rq_id q < next_request_id d \<and> request_ok q)"

definition requests_frame :: "db \<Rightarrow> db \<Rightarrow> bool" where
  "requests_frame d d' \<longleftrightarrow> requests d' = requests d \<and> next_request_id d' = next_request_id d"

lemma same_request_key: "same_request wt w s k q \<longleftrightarrow> request_key wt q = (w, wt s, wt k)"
  by (auto simp: same_request_def request_key_def)

lemma same_request_self: "same_request wt w s k q \<Longrightarrow> same_request wt w s k = (\<lambda>x. request_key wt x = request_key wt q)"
  by (simp add: same_request_key fun_eq_iff)

lemma requests_invD:
  assumes "requests_inv wt d"
  shows "distinct (map rq_id (requests d))" "distinct (map (request_key wt) (requests d))"
    "\<And>q. q \<in> set (requests d) \<Longrightarrow> request_ok q"
  using assms by (auto simp: requests_inv_def)

lemma find_same_request:
  assumes "requests_inv wt d" and "q \<in> set (requests d)" and "same_request wt w s k q"
  shows "find (same_request wt w s k) (requests d) = Some q"
  by (rule find_unique [where P = "same_request wt w s k", OF requests_invD(2) [OF assms(1)] assms(2,3)])
     (use assms(3) in \<open>simp add: same_request_key\<close>)

lemma update_requests_Inr [simp]:
  "update_requests P f d = Inr (n, d') \<longleftrightarrow>
     n = sql_changed P f (requests d) \<and> d' = put_requests (sql_update P f (requests d)) d"
  by (auto simp: update_requests_def tx_elims)

lemma requests_update_inv:
  assumes inv: "requests_inv wt d"
    and same: "\<And>q. P q \<Longrightarrow> rq_id (f q) = rq_id q \<and> request_key wt (f q) = request_key wt q"
    and ok: "\<And>q. q \<in> set (requests d) \<Longrightarrow> P q \<Longrightarrow> request_ok q \<Longrightarrow> request_ok (f q)"
  shows "requests_inv wt (put_requests (sql_update P f (requests d)) d)"
proof -
  have keys: "map rq_id (sql_update P f (requests d)) = map rq_id (requests d)"
    "map (request_key wt) (sql_update P f (requests d)) = map (request_key wt) (requests d)"
    by (rule map_key_sql_update, use same in simp)+
  have "rq_id v < next_request_id d \<and> request_ok v" if "v \<in> set (sql_update P f (requests d))" for v
  proof -
    from that obtain q where q: "q \<in> set (requests d)" "v = (if P q then f q else q)" by (auto simp: sql_update_def)
    then show ?thesis using inv same [of q] ok [of q] by (auto simp: requests_inv_def)
  qed
  then show ?thesis using inv keys by (simp add: requests_inv_def)
qed

subsection \<open>A reservation, step by step\<close>

definition reserve_args :: "nat \<Rightarrow> string \<Rightarrow> string \<Rightarrow> string \<Rightarrow> bool" where
  "reserve_args w source key hash \<longleftrightarrow> w \<noteq> 0 \<and> length (reserve_source source) \<le> 64 \<and> trim_space key \<noteq> [] \<and>
     length (trim_space key) \<le> 128 \<and> length (trim_space hash) = 64 \<and>
     trim_set ''0123456789abcdef'' (trim_space hash) = []"

definition request_owner :: "env \<Rightarrow> string" where
  "request_owner e = ''request-'' @ uuid e"

lemma request_owner_token:
  "newLeaseOwner e ''request'' = request_owner e"
  "uuid_text (uuid e) \<Longrightarrow> nullableString (request_owner e) = Some (request_owner e)"
  unfolding request_owner_def newLeaseOwner_prefixes
  by (rule refl, rule nullableString_owner, simp_all add: is_graph_def)

definition request_lease :: "env \<Rightarrow> nat" where
  "request_lease e = datetime_of (clock6 e + 600000000)"

definition reclaim_row :: "env \<Rightarrow> string \<Rightarrow> nat \<Rightarrow> request_row \<Rightarrow> request_row" where
  "reclaim_row e eventHeader img q =
     q\<lparr>rq_status := InProgress, rq_event_header := nullableString eventHeader, rq_item_id := None,
       rq_item_image_id := (case nullableUint64 img of None \<Rightarrow> rq_item_image_id q | Some v \<Rightarrow> Some v),
       rq_transcription_job_id := None, rq_session_id := None, rq_error_message := None,
       rq_attempt_count := rq_attempt_count q + 1, rq_lease_until := Some (request_lease e),
       rq_locked_by := Some (request_owner e), rq_updated_at := now e\<rparr>"

definition exhaust_row :: "env \<Rightarrow> request_row \<Rightarrow> request_row" where
  "exhaust_row e q =
     q\<lparr>rq_status := RFailed, rq_error_message := Some ''external request attempts exhausted'',
       rq_lease_until := None, rq_locked_by := None, rq_updated_at := now e\<rparr>"

definition put_request :: "nat \<Rightarrow> (request_row \<Rightarrow> request_row) \<Rightarrow> db \<Rightarrow> db" where
  "put_request i f d = put_requests (sql_update (\<lambda>q. rq_id q = i) f (requests d)) d"

definition new_request :: "env \<Rightarrow> nat \<Rightarrow> string \<Rightarrow> string \<Rightarrow> string \<Rightarrow> string \<Rightarrow> nat \<Rightarrow> db \<Rightarrow> request_row" where
  "new_request e w source key hash eventHeader img d =
     \<lparr>rq_id = next_request_id d, rq_workspace_id = w, rq_source = reserve_source source, rq_idempotency_key = trim_space key,
      rq_request_hash = trim_space hash, rq_status = InProgress, rq_item_id = None, rq_item_image_id = nullableUint64 img,
      rq_transcription_job_id = None, rq_session_id = None, rq_event_header = nullableString eventHeader,
      rq_attempt_count = 1, rq_max_attempts = 3, rq_lease_until = Some (request_lease e),
      rq_locked_by = Some (request_owner e), rq_error_message = None, rq_updated_at = now e\<rparr>"

definition after_insert :: "(string \<Rightarrow> string) \<Rightarrow> env \<Rightarrow> nat \<Rightarrow> string \<Rightarrow> string \<Rightarrow> string \<Rightarrow> string \<Rightarrow> nat \<Rightarrow> db \<Rightarrow> db" where
  "after_insert wt e w source key hash eventHeader img d =
     (if \<exists>q \<in> set (requests d). same_request wt w (reserve_source source) (trim_space key) q then d
      else d\<lparr>requests := requests d @ [new_request e w source key hash eventHeader img d],
             next_request_id := next_request_id d + 1\<rparr>)"

definition reserve_parents :: "nat \<Rightarrow> nat \<Rightarrow> db \<Rightarrow> bool" where
  "reserve_parents w img d \<longleftrightarrow> w \<in> set (workspaces d) \<and>
     (img \<noteq> 0 \<longrightarrow> (\<exists>ii \<in> set (images d). im_id ii = img \<and> im_workspace_id ii = w))"

text \<open>What is decided about the record once it is locked.\<close>

definition decide :: "env \<Rightarrow> string \<Rightarrow> string \<Rightarrow> nat \<Rightarrow> request_row \<Rightarrow> db \<Rightarrow> err + (ExternalRequest \<times> bool) \<times> db" where
  "decide e hash eventHeader img q d =
     (let req = dbExternalRequestToStore q in
      if rq_request_hash q \<noteq> trim_space hash then Inl ErrExternalRequestMismatch
      else if rq_locked_by q = Some (request_owner e) then Inr ((req, True), d)
      else if rq_status q = RCompleted \<or> rq_status q = InProgress \<and> \<not> request_lease_passed e q \<or>
        rq_status q = RFailed \<and> rq_attempt_count q \<ge> rq_max_attempts q then Inr ((req, False), d)
      else if rq_attempt_count q \<ge> rq_max_attempts q
      then Inr ((req\<lparr>xr_Status := RFailed, xr_ErrorMessage := ''external request attempts exhausted''\<rparr>, False),
                put_request (rq_id q) (exhaust_row e) d)
      else Inr ((req\<lparr>xr_Status := InProgress, xr_ErrorMessage := [], xr_LeaseOwner := request_owner e,
                   xr_AttemptCount := rq_attempt_count q + 1\<rparr>, True),
                put_request (rq_id q) (reclaim_row e eventHeader img) d))"

lemma stored_attempts: "xr_AttemptCount (dbExternalRequestToStore q) = rq_attempt_count q"
  by (simp add: dbExternalRequestToStore_def)

lemma find_id: "x \<in> set xs \<Longrightarrow> find (\<lambda>y. y = x) xs = Some x"
  by (induction xs) auto

lemma lockItemImage_run:
  "\<exists>ii \<in> set (images d). im_id ii = img \<and> im_workspace_id ii = w \<Longrightarrow> \<exists>v. lockItemImageForUseManual img w d = Inr (v, d)"
  by (auto simp: lockItemImageForUseManual_def tx_row_Inr find_None_iff split: option.splits)
     (metis (mono_tags, lifting) find_None_iff option.exhaust)

lemma insertExternalRequestManual_run:
  assumes "reserve_parents w img d" and "uuid_text (uuid e)"
  shows "insertExternalRequestManual wt e (reserve_source source) (trim_space key) (trim_space hash) (nullableUint64 img)
     (nullableString hdr) (request_lease e) (nullableString (request_owner e)) w d =
    Inr ((), after_insert wt e w source key hash hdr img d)"
proof -
  have "case nullableUint64 img of None \<Rightarrow> True | Some i \<Rightarrow> list_ex (\<lambda>ii. im_workspace_id ii = w \<and> im_id ii = i) (images d)"
    using assms(1) by (auto simp: reserve_parents_def nullableUint64_def list_ex_iff)
  moreover have "list_ex (\<lambda>x. x = w) (workspaces d)" using assms(1) by (simp add: reserve_parents_def list_ex_iff)
  ultimately show ?thesis
    by (simp add: insertExternalRequestManual_def after_insert_def new_request_def list_ex_iff request_owner_token assms(2))
qed

lemma put_request_update:
  assumes "requests_inv wt d" and "q \<in> set (requests d)" and "P q" and "\<And>x. P x \<Longrightarrow> request_key wt x = request_key wt q"
  shows "put_requests (sql_update P f (requests d)) d = put_request (rq_id q) f d"
proof -
  have "P x \<longleftrightarrow> rq_id x = rq_id q" if "x \<in> set (requests d)" for x
    using distinct_map_eqD [OF requests_invD(2) [OF assms(1)] that assms(2)] assms(3,4)
      distinct_map_eqD [OF requests_invD(1) [OF assms(1)] that assms(2)] by metis
  then have "sql_update P f (requests d) = sql_update (\<lambda>x. rq_id x = rq_id q) f (requests d)" by (rule sql_update_cong) simp_all
  then show ?thesis by (simp add: put_request_def)
qed

lemma fail_exhausted_run:
  assumes inv: "requests_inv wt d" and q: "q \<in> set (requests d)" "same_request wt w s k q" "rq_status q = InProgress"
  shows "requireAffectedRow (failExternalRequestManual wt e (nullableString ''external request attempts exhausted'') w s k (rq_locked_by q)) d =
    Inr ((), put_request (rq_id q) (exhaust_row e) d)"
proof -
  let ?P = "\<lambda>x. same_request wt w s k x \<and> rq_status x = InProgress \<and> null_eq (rq_locked_by x) (rq_locked_by q)"
  have msg: "nullableString ''external request attempts exhausted'' = Some ''external request attempts exhausted''" by code_simp
  have P: "?P q" using q requests_invD(3) [OF inv q(1)] by (auto simp: request_ok_def null_eq_def split: option.splits)
  have "rq_status (exhaust_row e q) \<noteq> rq_status q" using q(3) by (simp add: exhaust_row_def)
  then have "exhaust_row e q \<noteq> q" by metis
  with P q(1) have "sql_changed ?P (exhaust_row e) (requests d) \<noteq> 0" by (auto simp: sql_changed_def filter_empty_conv)
  moreover have "put_requests (sql_update ?P (exhaust_row e) (requests d)) d = put_request (rq_id q) (exhaust_row e) d"
    by (rule put_request_update [OF inv q(1), where P = ?P]) (use P q(2) in \<open>simp_all add: same_request_key\<close>)
  ultimately show ?thesis unfolding requireAffectedRow_Inr failExternalRequestManual_def msg
    by (simp add: exhaust_row_def [abs_def])
qed

lemma reserve_run:
  assumes inv: "requests_inv wt (after_insert wt e w source key hash hdr img d)"
    and args: "reserve_args w source key hash" and par: "reserve_parents w img d" and u: "uuid_text (uuid e)"
    and q: "q \<in> set (requests (after_insert wt e w source key hash hdr img d))"
      "same_request wt w (reserve_source source) (trim_space key) q"
  shows "reserveExternalRequest wt e w source key hash hdr img d =
    decide e hash hdr img q (after_insert wt e w source key hash hdr img d)"
proof -
  let ?d = "after_insert wt e w source key hash hdr img d"
  have ws: "lockWorkspaceForUseManual w d = Inr (w, d)"
    using par by (simp add: lockWorkspaceForUseManual_def tx_row_run find_id reserve_parents_def)
  have im: "tx_when (0 < img) (tx_bind (lockItemImageForUseManual img w) (\<lambda>_. tx_return ())) d = Inr ((), d)"
    using par lockItemImage_run [of d img w] by (simp add: tx_when_Inr tx_bind_Inr tx_return_Inr reserve_parents_def)
  have sel: "selectExternalRequestForUpdateManual wt w (reserve_source source) (trim_space key) ?d = Inr (q, ?d)"
    by (simp add: selectExternalRequestForUpdateManual_def tx_row_run find_same_request [OF inv q])
  have rec: "reclaimExternalRequestManual e (nullableString hdr) (nullableUint64 img) (request_lease e) (Some (request_owner e)) (rq_id q) ?d =
      Inr (sql_changed (\<lambda>x. rq_id x = rq_id q) (reclaim_row e hdr img) (requests ?d), put_request (rq_id q) (reclaim_row e hdr img) ?d)"
    by (simp add: reclaimExternalRequestManual_def reclaim_row_def [abs_def] put_request_def)
  note ok = requests_invD(3) [OF inv q(1)]
  have run: "reserveExternalRequest wt e w source key hash hdr img d =
     (if rq_request_hash q \<noteq> trim_space hash then Inl ErrExternalRequestMismatch
      else if rq_locked_by q = Some (request_owner e) then Inr ((dbExternalRequestToStore q, True), ?d)
      else if failedExternalRequestExhausted q then Inr ((dbExternalRequestToStore q, False), ?d)
      else if exhaustedExternalRequest e q then
        Inr (((dbExternalRequestToStore q)\<lparr>xr_Status := RFailed, xr_ErrorMessage := ''external request attempts exhausted''\<rparr>, False),
             put_request (rq_id q) (exhaust_row e) ?d)
      else if rq_status q = RFailed \<or> staleExternalRequest e q then
        Inr (((dbExternalRequestToStore q)\<lparr>xr_Status := InProgress, xr_ErrorMessage := [], xr_LeaseOwner := request_owner e,
             xr_AttemptCount := rq_attempt_count q + 1\<rparr>, True), put_request (rq_id q) (reclaim_row e hdr img) ?d)
      else Inr ((dbExternalRequestToStore q, False), ?d))"
    using args fail_exhausted_run [OF inv q]
    by (simp add: reserveExternalRequest_def Let_def reserve_args_def tx_bind_run ws im sel rec request_owner_token u
          insertExternalRequestManual_run [OF par u, unfolded request_owner_token(2) [OF u]] tx_return_run tx_raise_run
          exhaustedExternalRequest_def stored_attempts flip: request_lease_def)
  show ?thesis unfolding run decide_def Let_def
    using ok by (cases "rq_status q") (auto simp: failedExternalRequestExhausted_def exhaustedExternalRequest_def
        staleExternalRequest_def request_ok_def split: if_splits)
qed

subsection \<open>The record after a reservation\<close>

lemma put_request_inv:
  assumes inv: "requests_inv wt d" and q: "q \<in> set (requests d)"
    and same: "\<And>x. rq_id (f x) = rq_id x \<and> request_key wt (f x) = request_key wt x" and ok: "request_ok (f q)"
  shows "requests_inv wt (put_request (rq_id q) f d)"
  unfolding put_request_def
  by (rule requests_update_inv [OF inv same])
     (use distinct_map_eqD [OF requests_invD(1) [OF inv] _ q] ok in blast)

lemma after_insert_inv:
  assumes inv: "requests_inv wt d"
  shows "requests_inv wt (after_insert wt e w source key hash hdr img d)"
proof (cases "\<exists>q \<in> set (requests d). same_request wt w (reserve_source source) (trim_space key) q")
  case False
  have "next_request_id d \<notin> rq_id ` set (requests d)" using inv by (auto simp: requests_inv_def)
  moreover have "request_key wt (new_request e w source key hash hdr img d) \<notin> request_key wt ` set (requests d)"
    using False by (auto simp: same_request_key new_request_def request_key_def)
  ultimately show ?thesis using inv False
    by (auto simp: after_insert_def requests_inv_def less_Suc_eq) (simp_all add: new_request_def request_ok_def)
qed (simp add: after_insert_def inv)

lemma after_insert_row:
  "\<exists>q \<in> set (requests (after_insert wt e w source key hash hdr img d)).
     same_request wt w (reserve_source source) (trim_space key) q"
proof -
  have "same_request wt w (reserve_source source) (trim_space key) (new_request e w source key hash hdr img d)"
    by (simp add: same_request_def new_request_def)
  then show ?thesis by (auto simp: after_insert_def)
qed

lemma row_changes [simp]:
  "rq_id (reclaim_row e hdr img q) = rq_id q" "request_key wt (reclaim_row e hdr img q) = request_key wt q"
  "rq_id (exhaust_row e q) = rq_id q" "request_key wt (exhaust_row e q) = request_key wt q"
  by (simp_all add: reclaim_row_def exhaust_row_def request_key_def)

lemma decide_inv:
  assumes inv: "requests_inv wt d" and q: "q \<in> set (requests d)" and run: "decide e hash hdr img q d = Inr (r, d')"
  shows "requests_inv wt d'"
proof -
  note ok = requests_invD(3) [OF inv q]
  have "requests_inv wt (put_request (rq_id q) (exhaust_row e) d)"
    by (rule put_request_inv [OF inv q], simp) (use ok in \<open>auto simp: request_ok_def exhaust_row_def\<close>)
  moreover have "requests_inv wt (put_request (rq_id q) (reclaim_row e hdr img) d)" if "\<not> rq_attempt_count q \<ge> rq_max_attempts q"
    by (rule put_request_inv [OF inv q], simp) (use ok that in \<open>auto simp: request_ok_def reclaim_row_def\<close>)
  ultimately show ?thesis using run inv by (auto simp: decide_def Let_def split: if_splits)
qed

lemma reserve_InrD:
  assumes "reserveExternalRequest wt e w source key hash hdr img d = Inr r"
  shows "reserve_args w source key hash \<and> reserve_parents w img d"
proof -
  have "reserve_parents w img d" if "lockWorkspaceForUseManual w d = Inr (v, d1)"
    "tx_when (img \<noteq> 0) (tx_bind (lockItemImageForUseManual img w) (\<lambda>_. tx_return ())) d1 = Inr (x, d2)" for v d1 x d2
    using that by (auto simp: tx_elims lockWorkspaceForUseManual_def lockItemImageForUseManual_def reserve_parents_def
        dest!: find_Some_mem split: if_splits)
  then show ?thesis
    using assms by (cases r) (auto simp: reserveExternalRequest_def Let_def tx_bind_Inr reserve_args_def tx_raise_Inr split: if_splits)
qed

lemma reserve_cases:
  assumes "requests_inv wt d" and "uuid_text (uuid e)" and "reserve_args w source key hash" and "reserve_parents w img d"
  obtains q where "q \<in> set (requests (after_insert wt e w source key hash hdr img d))"
    and "same_request wt w (reserve_source source) (trim_space key) q"
    and "requests_inv wt (after_insert wt e w source key hash hdr img d)"
    and "reserveExternalRequest wt e w source key hash hdr img d =
      decide e hash hdr img q (after_insert wt e w source key hash hdr img d)"
  using after_insert_row [of wt e w source key hash hdr img d] reserve_run [OF after_insert_inv [OF assms(1)] assms(3,4,2)]
    after_insert_inv [OF assms(1)] by blast

lemma reserve_inv:
  assumes "requests_inv wt d" and "uuid_text (uuid e)" and "reserveExternalRequest wt e w source key hash hdr img d = Inr (r, d')"
  shows "requests_inv wt d'"
  using reserve_cases [OF assms(1,2)] reserve_InrD [OF assms(3)] assms(3) decide_inv by metis

subsection \<open>The register it implements\<close>

text \<open>
  Seen from outside, the table is a register: a partial map from keys to the digest of the request
  and what became of it. \<open>register_reserve\<close> says what a caller may expect, with no rows, columns or
  locks in sight.
\<close>

datatype phase = Held int nat string | Done string nat nat | Spent int

datatype verdict = Granted int | Busy | Replayed string nat nat | GivenUp

type_synonym register = "nat \<times> string \<times> string \<rightharpoonup> string \<times> phase"

definition register_reserve ::
    "string \<Rightarrow> nat \<Rightarrow> nat \<Rightarrow> nat \<times> string \<times> string \<Rightarrow> string \<Rightarrow> register \<Rightarrow> err + verdict \<times> register" where
  "register_reserve owner t6 lease k digest m =
     (let grant = (\<lambda>n. Inr (Granted n, m(k \<mapsto> (digest, Held n lease owner)))) in
      case m k of
        None \<Rightarrow> grant 1
      | Some (h, p) \<Rightarrow>
          if h \<noteq> digest then Inl ErrExternalRequestMismatch
          else case p of
            Done i img j \<Rightarrow> Inr (Replayed i img j, m)
          | Spent n \<Rightarrow> if n < 3 then grant (n + 1) else Inr (GivenUp, m)
          | Held n u x \<Rightarrow>
              if t6 \<le> u * 1000000 then Inr (Busy, m)
              else if n < 3 then grant (n + 1)
              else Inr (GivenUp, m(k \<mapsto> (h, Spent n))))"

definition phase_of :: "request_row \<Rightarrow> phase" where
  "phase_of q = (case rq_status q of
       InProgress \<Rightarrow> Held (rq_attempt_count q) (opt_id (rq_lease_until q)) (opt_string (rq_locked_by q))
     | RCompleted \<Rightarrow> Done (opt_string (rq_item_id q)) (opt_id (rq_item_image_id q)) (opt_id (rq_transcription_job_id q))
     | RFailed \<Rightarrow> Spent (rq_attempt_count q))"

definition register_of :: "(string \<Rightarrow> string) \<Rightarrow> db \<Rightarrow> register" where
  "register_of wt d = map_of (map (\<lambda>q. (request_key wt q, rq_request_hash q, phase_of q)) (requests d))"

definition verdict_of :: "ExternalRequest \<times> bool \<Rightarrow> verdict" where
  "verdict_of = (\<lambda>(x, created). if created then Granted (xr_AttemptCount x)
     else case xr_Status x of
        InProgress \<Rightarrow> Busy
      | RCompleted \<Rightarrow> Replayed (xr_ItemID x) (xr_ItemImageID x) (xr_TranscriptionJobID x)
      | RFailed \<Rightarrow> GivenUp)"

lemma register_of_lookup:
  assumes "requests_inv wt d" and "q \<in> set (requests d)"
  shows "register_of wt d (request_key wt q) = Some (rq_request_hash q, phase_of q)"
  unfolding register_of_def
  by (rule map_of_is_SomeI) (use assms requests_invD(2) [OF assms(1)] in \<open>auto simp: comp_def\<close>)

lemma register_of_None:
  "register_of wt d k = None \<longleftrightarrow> (\<forall>q \<in> set (requests d). request_key wt q \<noteq> k)"
  by (force simp: register_of_def map_of_eq_None_iff)

lemma register_of_put:
  assumes inv: "requests_inv wt d" and q: "q \<in> set (requests d)"
    and f: "\<And>x. request_key wt (f x) = request_key wt x"
  shows "register_of wt (put_request (rq_id q) f d) = (register_of wt d)(request_key wt q \<mapsto> (rq_request_hash (f q), phase_of (f q)))"
proof -
  let ?g = "\<lambda>q. (request_key wt q, rq_request_hash q, phase_of q)"
  have id: "x = q" if "x \<in> set xs" "rq_id x = rq_id q" "set xs \<subseteq> set (requests d)" for x xs
    using distinct_map_eqD [OF requests_invD(1) [OF inv]] that q by blast
  have key: "request_key wt x \<noteq> request_key wt q" if "x \<in> set (requests d)" "rq_id x \<noteq> rq_id q" for x
    using distinct_map_eqD [OF requests_invD(2) [OF inv] that(1) q] that(2) by blast
  have "map_of (map ?g (sql_update (\<lambda>x. rq_id x = rq_id q) f xs)) k =
      (if k = request_key wt q \<and> q \<in> set xs then Some (rq_request_hash (f q), phase_of (f q)) else map_of (map ?g xs) k)"
    if "set xs \<subseteq> set (requests d)" for xs k
    using that
  proof (induction xs)
    case (Cons x xs)
    then show ?case
    proof (cases "rq_id x = rq_id q")
      case True
      with Cons.prems id [of x "x # xs"] have "x = q" by simp
      with Cons f show ?thesis by (auto simp: sql_update_def)
    next
      case False
      with Cons.prems key [of x] have "request_key wt x \<noteq> request_key wt q" by simp
      with Cons False show ?thesis by (auto simp: sql_update_def)
    qed
  qed (simp add: sql_update_def)
  then show ?thesis using q by (auto simp: register_of_def put_request_def fun_eq_iff)
qed

lemma register_of_insert:
  assumes "\<And>q. q \<in> set (requests d) \<Longrightarrow> request_key wt q \<noteq> request_key wt n"
  shows "register_of wt (d\<lparr>requests := requests d @ [n], next_request_id := i\<rparr>) =
    (register_of wt d)(request_key wt n \<mapsto> (rq_request_hash n, phase_of n))"
proof -
  from assms have "register_of wt d (request_key wt n) = None" by (simp add: register_of_None)
  then show ?thesis by (auto simp: register_of_def map_add_def fun_eq_iff split: option.splits)
qed

lemma row_phases:
  "rq_request_hash (exhaust_row e q) = rq_request_hash q" "phase_of (exhaust_row e q) = Spent (rq_attempt_count q)"
  "rq_request_hash (reclaim_row e hdr img q) = rq_request_hash q"
  "phase_of (reclaim_row e hdr img q) = Held (rq_attempt_count q + 1) (request_lease e) (request_owner e)"
  by (simp_all add: exhaust_row_def reclaim_row_def phase_of_def opt_id_def opt_string_def)

lemma decide_refines:
  assumes inv: "requests_inv wt d" and q: "q \<in> set (requests d)" and fresh: "rq_locked_by q \<noteq> Some (request_owner e)"
  shows "map_sum id (map_prod verdict_of (register_of wt)) (decide e hash hdr img q d) =
    register_reserve (request_owner e) (clock6 e) (request_lease e) (request_key wt q) (trim_space hash) (register_of wt d)"
proof -
  note ok = requests_invD(3) [OF inv q]
  have reg: "register_of wt d (request_key wt q) = Some (rq_request_hash q, phase_of q)" by (rule register_of_lookup [OF inv q])
  have put: "register_of wt (put_request (rq_id q) (exhaust_row e) d) =
      (register_of wt d)(request_key wt q \<mapsto> (rq_request_hash q, Spent (rq_attempt_count q)))"
    "register_of wt (put_request (rq_id q) (reclaim_row e hdr img) d) =
      (register_of wt d)(request_key wt q \<mapsto> (rq_request_hash q, Held (rq_attempt_count q + 1) (request_lease e) (request_owner e)))"
    by (simp_all add: register_of_put [OF inv q] row_phases)
  show ?thesis using ok fresh
    by (cases "rq_status q")
       (auto simp: decide_def Let_def register_reserve_def reg put phase_of_def verdict_of_def request_lease_passed_def
          request_ok_def dbExternalRequestToStore_def opt_id_def)
qed

text \<open>
  C17: Reserving a key implements the register: whatever rows, columns, locks and collation are
  involved, a fresh caller with valid arguments gets exactly the verdict that the register gives
  (granted with the attempt number, busy, replayed with the stored result, given up after three
  attempts, or refused because the key was used for another request), and the table then
  represents exactly the register's next state.
\<close>

theorem reserve_implements_register:
  assumes "requests_inv wt d" and "uuid_text (uuid e)" and "reserve_args w source key hash" and "reserve_parents w img d"
    and "\<forall>q \<in> set (requests d). rq_locked_by q \<noteq> Some (request_owner e)"
  shows "map_sum id (map_prod verdict_of (register_of wt)) (reserveExternalRequest wt e w source key hash hdr img d) =
    register_reserve (request_owner e) (clock6 e) (request_lease e) (w, wt (reserve_source source), wt (trim_space key))
      (trim_space hash) (register_of wt d)"
proof (cases "\<exists>q \<in> set (requests d). same_request wt w (reserve_source source) (trim_space key) q")
  case True
  then obtain q where q: "q \<in> set (requests d)" "same_request wt w (reserve_source source) (trim_space key) q" by blast
  from True have "after_insert wt e w source key hash hdr img d = d" by (simp add: after_insert_def)
  with reserve_run [where wt = wt and e = e and w = w and source = source and key = key and hash = hash and hdr = hdr
      and img = img and d = d and q = q] assms q
  have "reserveExternalRequest wt e w source key hash hdr img d = decide e hash hdr img q d" by simp
  with decide_refines [OF assms(1) q(1)] assms(5) q show ?thesis by (simp add: same_request_key)
next
  case False
  let ?n = "new_request e w source key hash hdr img d"
  let ?d = "after_insert wt e w source key hash hdr img d"
  have d: "?d = d\<lparr>requests := requests d @ [?n], next_request_id := next_request_id d + 1\<rparr>"
    using False by (simp add: after_insert_def)
  have n: "same_request wt w (reserve_source source) (trim_space key) ?n" by (simp add: same_request_def new_request_def)
  have "reserveExternalRequest wt e w source key hash hdr img d = decide e hash hdr img ?n ?d"
    by (rule reserve_run [OF after_insert_inv [OF assms(1)] assms(3,4,2) _ n]) (simp add: d)
  moreover have "register_of wt ?d = (register_of wt d)(request_key wt ?n \<mapsto> (rq_request_hash ?n, phase_of ?n))"
    unfolding d by (rule register_of_insert) (use False n in \<open>simp add: same_request_key\<close>)
  moreover have "register_of wt d (request_key wt ?n) = None"
    unfolding register_of_None using False n by (simp add: same_request_key)
  ultimately show ?thesis using n
    by (simp add: decide_def Let_def register_reserve_def same_request_key new_request_def phase_of_def verdict_of_def
          dbExternalRequestToStore_def opt_id_def opt_string_def)
qed

subsection \<open>Finishing an operation\<close>

definition complete_row :: "env \<Rightarrow> string \<Rightarrow> nat \<Rightarrow> nat \<Rightarrow> request_row \<Rightarrow> request_row" where
  "complete_row e item img job q =
     q\<lparr>rq_status := RCompleted, rq_item_id := nullableString item, rq_item_image_id := nullableUint64 img,
       rq_transcription_job_id := nullableUint64 job, rq_session_id := None, rq_error_message := None,
       rq_lease_until := None, rq_locked_by := None, rq_updated_at := now e\<rparr>"

definition fail_row :: "env \<Rightarrow> string option \<Rightarrow> request_row \<Rightarrow> request_row" where
  "fail_row e msg q = q\<lparr>rq_status := RFailed, rq_error_message := msg, rq_lease_until := None, rq_locked_by := None,
     rq_updated_at := now e\<rparr>"

definition request_held :: "(string \<Rightarrow> string) \<Rightarrow> nat \<Rightarrow> string \<Rightarrow> string \<Rightarrow> string \<Rightarrow> request_row \<Rightarrow> bool" where
  "request_held wt w source key owner q \<longleftrightarrow> same_request wt w source key q \<and> rq_status q = InProgress \<and>
     nullableString owner \<noteq> None \<and> rq_locked_by q = nullableString owner"

lemma request_held_iff:
  "same_request wt w s k q \<and> rq_status q = InProgress \<and> null_eq (rq_locked_by q) (nullableString owner) \<longleftrightarrow> request_held wt w s k owner q"
  by (auto simp: request_held_def null_eq_def split: option.splits)

lemma affected_request:
  assumes inv: "requests_inv wt d" and run: "requireAffectedRow (update_requests P f) d = Inr (x, d')"
    and P: "\<And>q. P q \<Longrightarrow> request_key wt q = k"
  obtains q where "q \<in> set (requests d)" and "P q" and "d' = put_request (rq_id q) f d"
proof -
  from run have changed: "sql_changed P f (requests d) \<noteq> 0" and d': "d' = put_requests (sql_update P f (requests d)) d"
    by (auto simp: requireAffectedRow_Inr)
  from changed obtain q where q: "q \<in> set (requests d)" "P q" by (auto simp: sql_changed_def filter_empty_conv)
  have "d' = put_request (rq_id q) f d" unfolding d'
    by (rule put_request_update [where P = P, OF inv q]) (use P q(2) in simp)
  with q show thesis by (rule that)
qed

lemma CompleteExternalRequest_InrD:
  assumes inv: "requests_inv wt d" and run: "CompleteExternalRequest wt e w source key owner item img job d = Inr (x, d')"
  obtains q where "q \<in> set (requests d)" and "request_held wt w (trim_space source) (trim_space key) owner q"
    and "d' = put_request (rq_id q) (complete_row e item img job) d"
proof -
  let ?P = "\<lambda>q. request_held wt w (trim_space source) (trim_space key) owner q \<and>
      completion_parents w (nullableString (trim_space item)) (nullableUint64 img) (nullableUint64 job) None d"
  have item: "nullableString (trim_space item) = nullableString item" by (simp add: nullableString_def)
  have st: "d1 = d" if "tx_when b (tx_bind m (\<lambda>_. tx_return ())) d = Inr (y, d1)" "\<And>v d2. m d = Inr (v, d2) \<Longrightarrow> d2 = d" for b m y d1
    using that by (auto simp: tx_elims split: if_splits)
  from run have "requireAffectedRow (completeExternalRequestManual wt e (nullableString (trim_space item)) (nullableUint64 img)
      (nullableUint64 job) None w (trim_space source) (trim_space key) (nullableString owner)) d = Inr (x, d')"
    unfolding CompleteExternalRequest_def Let_def
    by (auto simp: tx_bind_Inr tx_raise_Inr tx_row_Inr lockWorkspaceForUseManual_def lockItemForUseManual_def
        lockItemImageForUseManual_def lockTranscriptionJobForExternalRequestUseManual_def selectExternalRequestForUpdateManual_def
        dest!: st split: if_splits)
  then have "requireAffectedRow (update_requests ?P (complete_row e item img job)) d = Inr (x, d')"
    by (simp add: requireAffectedRow_def tx_bind_def completeExternalRequestManual_def complete_row_def [abs_def]
        item flip: request_held_iff)
  then obtain q where "q \<in> set (requests d)" "?P q" "d' = put_request (rq_id q) (complete_row e item img job) d"
    by (rule affected_request [OF inv, where P = ?P and k = "(w, wt (trim_space source), wt (trim_space key))"])
       (simp add: request_held_def same_request_key)
  then show thesis by (intro that) auto
qed

lemma FailExternalRequest_InrD:
  assumes inv: "requests_inv wt d" and run: "FailExternalRequest wt e w source key owner msg d = Inr (x, d')"
  obtains q where "q \<in> set (requests d)" and "request_held wt w source key owner q"
    and "d' = put_request (rq_id q) (fail_row e (nullableString (safeExternalRequestErrorMessage msg))) d"
proof -
  from run have "requireAffectedRow (update_requests (request_held wt w source key owner)
      (fail_row e (nullableString (safeExternalRequestErrorMessage msg)))) d = Inr (x, d')"
    by (simp add: FailExternalRequest_def failExternalRequestManual_def request_held_iff fail_row_def [abs_def])
  then show thesis
    by (rule affected_request [OF inv, where P = "request_held wt w source key owner" and k = "(w, wt source, wt key)"])
       (simp add: request_held_def same_request_key, rule that)
qed

lemma row_changes' [simp]:
  "rq_id (complete_row e item img job q) = rq_id q" "request_key wt (complete_row e item img job q) = request_key wt q"
  "rq_id (fail_row e m q) = rq_id q" "request_key wt (fail_row e m q) = request_key wt q"
  by (simp_all add: complete_row_def fail_row_def request_key_def)

lemma finish_inv:
  assumes inv: "requests_inv wt d"
  shows "CompleteExternalRequest wt e w source key owner item img job d = Inr (x, d') \<Longrightarrow> requests_inv wt d'"
    and "FailExternalRequest wt e w source key owner msg d = Inr (x, d') \<Longrightarrow> requests_inv wt d'"
proof -
  have ok: "request_ok (complete_row e item img job q)" "request_ok (fail_row e m q)" if "q \<in> set (requests d)" for q m
    using requests_invD(3) [OF inv that] by (auto simp: request_ok_def complete_row_def fail_row_def)
  show "requests_inv wt d'" if "CompleteExternalRequest wt e w source key owner item img job d = Inr (x, d')"
    using that by (rule CompleteExternalRequest_InrD [OF inv]) (auto intro!: put_request_inv [OF inv] ok)
  show "requests_inv wt d'" if "FailExternalRequest wt e w source key owner msg d = Inr (x, d')"
    using that by (rule FailExternalRequest_InrD [OF inv]) (auto intro!: put_request_inv [OF inv] ok)
qed

lemma put_request_mem:
  assumes "q \<in> set (requests d)"
  shows "f q \<in> set (requests (put_request (rq_id q) f d))"
  using assms by (force simp: put_request_def set_sql_update)


end
