(* ===== verification/Request_System.thy ===== *)
theory Request_System
  imports Request_Idempotency
begin

section \<open>External requests as a transition system\<close>

text \<open>
  Retention of idempotency records and the step relation of every operation on them: reservations,
  completions and failures, retention, the detachment of retained jobs, and writes elsewhere.
\<close>

subsection \<open>Retention\<close>

lemma deleteRetainable_run:
  fixes e c d
  defines "ids \<equiv> take 1000 (map rq_id (sort_key rq_id (filter (retainable_request e c) (requests d))))"
  assumes "distinct (map rq_id (requests d))"
  shows "deleteRetainableExternalRequestsManual e c d = Inr (length ids, put_requests (filter (\<lambda>q. rq_id q \<notin> set ids) (requests d)) d)"
    and "set ids \<subseteq> rq_id ` {q \<in> set (requests d). retainable_request e c q}"
    and "length ids < 1000 \<Longrightarrow> set ids = rq_id ` {q \<in> set (requests d). retainable_request e c q}"
proof -
  let ?L = "map rq_id (sort_key rq_id (filter (retainable_request e c) (requests d)))"
  have L: "distinct ?L" "set ?L = rq_id ` {q \<in> set (requests d). retainable_request e c q}"
    using assms(2) by (auto simp: distinct_map inj_on_def)
  have D: "distinct ids" unfolding ids_def by (rule distinct_take [OF L(1)])
  have sub: "set ids \<subseteq> set ?L" unfolding ids_def by (rule set_take_subset)
  then show "set ids \<subseteq> rq_id ` {q \<in> set (requests d). retainable_request e c q}" unfolding L(2) .
  then have "sql_count (\<lambda>q. List.member ids (rq_id q)) (requests d) = length ids"
    by (intro count_members [OF assms(2) D]) blast
  then show "deleteRetainableExternalRequestsManual e c d = Inr (length ids, put_requests (filter (\<lambda>q. rq_id q \<notin> set ids) (requests d)) d)"
    by (simp add: deleteRetainableExternalRequestsManual_def Let_def exec_delete_def sql_delete_def ids_def)
  assume "length ids < 1000"
  then have "ids = ?L" by (simp add: ids_def)
  then show "set ids = rq_id ` {q \<in> set (requests d). retainable_request e c q}" using L(2) by simp
qed

lemma retain_request_batches_run:
  "distinct (map rq_id (requests d)) \<Longrightarrow>
   retain_request_batches e c d = (None, put_requests (filter (\<lambda>q. \<not> retainable_request e c q) (requests d)) d)"
proof (induction e c d rule: retain_request_batches.induct)
  case (1 e c d)
  define ids where "ids = take 1000 (map rq_id (sort_key rq_id (filter (retainable_request e c) (requests d))))"
  let ?d = "put_requests (filter (\<lambda>q. rq_id q \<notin> set ids) (requests d)) d"
  note run = deleteRetainable_run [OF "1.prems", of e c, folded ids_def]
  have uniq: "rq_id q \<in> rq_id ` {q \<in> set (requests d). retainable_request e c q} \<longleftrightarrow> retainable_request e c q"
    if "q \<in> set (requests d)" for q
    using distinct_map_eqD [OF "1.prems"] that by blast
  show ?case
  proof (cases "length ids < 1000")
    case True
    then have "filter (\<lambda>q. rq_id q \<notin> set ids) (requests d) = filter (\<lambda>q. \<not> retainable_request e c q) (requests d)"
      unfolding run(3) [OF True] by (intro filter_cong [OF refl]) (simp only: uniq)
    with True show ?thesis by (subst retain_request_batches.simps) (simp add: run(1))
  next
    case False
    have "distinct (map rq_id (requests ?d))" using "1.prems" by (simp add: distinct_map_filter)
    with "1.IH" [OF run(1) refl False]
    have "retain_request_batches e c ?d = (None, put_requests (filter (\<lambda>q. \<not> retainable_request e c q) (requests ?d)) ?d)" by blast
    moreover have "filter (\<lambda>q. \<not> retainable_request e c q) (requests ?d) = filter (\<lambda>q. \<not> retainable_request e c q) (requests d)"
    proof -
      have "rq_id q \<notin> set ids \<and> \<not> retainable_request e c q \<longleftrightarrow> \<not> retainable_request e c q" if "q \<in> set (requests d)" for q
        using run(2) uniq [OF that] by blast
      then show ?thesis by (simp cong: filter_cong)
    qed
    ultimately show ?thesis using False by (subst retain_request_batches.simps) (simp add: run(1))
  qed
qed

text \<open>
  C32: Retention of idempotency records ends without an error and removes exactly the records last
  touched before the cut-off that nobody works on: finished ones, and unfinished ones whose lease
  has passed. A record under an unexpired lease stays, however old it is.
\<close>

theorem request_retention:
  assumes "requests_inv wt d"
  shows "RetainExternalRequests e age6 d =
    (None, put_requests (filter (\<lambda>q.
       int (rq_updated_at q) * 1000000 \<ge> int (clock6 e) - (if age6 \<le> 0 then 30 * 24 * 3600 * 1000000 else age6) \<or>
       (rq_status q = InProgress \<and> (\<exists>u. rq_lease_until q = Some u \<and> now e \<le> u))) (requests d)) d)"
proof -
  define c where "c = int (clock6 e) - (if age6 \<le> 0 then 30 * 24 * 3600 * 1000000 else age6)"
  have "\<not> retainable_request e c q \<longleftrightarrow> int (rq_updated_at q) * 1000000 \<ge> c \<or>
      (rq_status q = InProgress \<and> (\<exists>u. rq_lease_until q = Some u \<and> now e \<le> u))" for q
    by (cases "rq_status q") (auto simp: retainable_request_def not_less split: option.splits)
  then show ?thesis
    unfolding RetainExternalRequests_def Let_def c_def [symmetric]
    by (simp only: retain_request_batches_run [OF requests_invD(1) [OF assms]])
qed

subsection \<open>Steps\<close>

inductive request_step :: "(string \<Rightarrow> string) \<Rightarrow> db \<Rightarrow> db \<Rightarrow> bool" for wt where
  reserved: "uuid_text (uuid e) \<Longrightarrow> reserveExternalRequest wt e w source key hash hdr img d = Inr (r, d') \<Longrightarrow> request_step wt d d'"
| request_completed: "CompleteExternalRequest wt e w source key owner item img job d = Inr ((), d') \<Longrightarrow> request_step wt d d'"
| request_failed: "FailExternalRequest wt e w source key owner msg d = Inr ((), d') \<Longrightarrow> request_step wt d d'"
| expired: "RetainExternalRequests e age6 d = (err, d') \<Longrightarrow> request_step wt d d'"
| detached: "detachExternalRequestsFromRetainedJobManual e w job d = Inr (n, d') \<Longrightarrow> request_step wt d d'"
| untouched: "requests_frame d d' \<Longrightarrow> request_step wt d d'"

lemma detach_inv:
  assumes "requests_inv wt d" and "detachExternalRequestsFromRetainedJobManual e w job d = Inr (n, d')"
  shows "requests_inv wt d'"
proof -
  from assms(2) have "d' = put_requests (sql_update (\<lambda>q. rq_workspace_id q = w \<and> null_eq (rq_transcription_job_id q) job)
      (\<lambda>q. q\<lparr>rq_transcription_job_id := None, rq_updated_at := now e\<rparr>) (requests d)) d"
    by (simp add: detachExternalRequestsFromRetainedJobManual_def exec_update_Inr)
  then show ?thesis using requests_update_inv [OF assms(1)] by (simp add: request_key_def request_ok_def)
qed

lemma retention_inv:
  assumes "requests_inv wt d" and "RetainExternalRequests e age6 d = (err, d')"
  shows "requests_inv wt d'"
  using assms
  by (auto simp: RetainExternalRequests_def Let_def retain_request_batches_run [OF requests_invD(1)] requests_inv_def distinct_map_filter)

lemma frame_requests_inv: "requests_frame d d' \<Longrightarrow> requests_inv wt d \<Longrightarrow> requests_inv wt d'"
  by (simp add: requests_frame_def requests_inv_def)

lemma request_step_inv: "request_step wt d d' \<Longrightarrow> requests_inv wt d \<Longrightarrow> requests_inv wt d'"
  by (induction rule: request_step.induct)
     (auto intro: reserve_inv finish_inv retention_inv detach_inv frame_requests_inv)

interpretation requests_system: transition_system "request_step wt" "requests_inv wt" for wt
  by unfold_locales (rule request_step_inv)

text \<open>
  In every state that operations can reach from an empty table, there is at most one record for a
  workspace, source and key as the collation compares them, its operation was attempted one to
  three times, and it has a lease and an owner exactly while it is in progress.
\<close>

theorem requests_reachable_invariant:
  assumes "requests d0 = []" and "(request_step wt)\<^sup>*\<^sup>* d0 d"
  shows "distinct (map (\<lambda>q. (rq_workspace_id q, wt (rq_source q), wt (rq_idempotency_key q))) (requests d)) \<and>
     (\<forall>q \<in> set (requests d). 1 \<le> rq_attempt_count q \<and> rq_attempt_count q \<le> 3 \<and>
        (rq_status q = InProgress \<longleftrightarrow> rq_locked_by q \<noteq> None) \<and> (rq_status q = InProgress \<longleftrightarrow> rq_lease_until q \<noteq> None))"
proof -
  have "requests_inv wt d0" using assms(1) by (simp add: requests_inv_def)
  then have "requests_inv wt d" by (rule requests_system.steps_inv [OF assms(2)])
  then show ?thesis unfolding requests_inv_def request_key_def [abs_def] request_ok_def by (auto split: if_splits)
qed

end
