(* ===== verification/Request_Witnesses.thy ===== *)
theory Request_Witnesses
  imports Scribe_Demo Request_System
begin

section \<open>The idempotency theorems on a concrete run\<close>

text \<open>
  A client reserves a key for a request about the image and completes it; the collation compares
  letters without regard to case. Each theorem about idempotency records is applied to a state of
  this run.
\<close>

subsection \<open>The run\<close>

definition op_hash :: string where
  "op_hash = replicate 64 (CHR ''a'')"

definition op_owner :: string where
  "op_owner = ''request-'' @ demo_uuid (CHR ''b'')"

definition op_row :: "request_status \<Rightarrow> nat option \<Rightarrow> (nat \<times> string) option \<Rightarrow> nat \<Rightarrow> request_row" where
  "op_row st img lease t =
     \<lparr>rq_id = 1, rq_workspace_id = 1, rq_source = ''api'', rq_idempotency_key = ''Key-1'', rq_request_hash = op_hash,
      rq_status = st, rq_item_id = None, rq_item_image_id = img, rq_transcription_job_id = None, rq_session_id = None,
      rq_event_header = None, rq_attempt_count = 1, rq_max_attempts = 3, rq_lease_until = map_option fst lease,
      rq_locked_by = map_option snd lease, rq_error_message = None, rq_updated_at = t\<rparr>"

definition op_held :: db where
  "op_held = demo0\<lparr>requests := [op_row InProgress (Some 7) (Some (700, op_owner)) 100], next_request_id := 2\<rparr>"

definition op_done :: db where
  "op_done = demo0\<lparr>requests := [op_row RCompleted (Some 7) None 110], next_request_id := 2\<rparr>"

lemma op_reserve:
  "map_sum id snd (reserveExternalRequest to_lower (demo_env 100 (CHR ''b'')) 1 ''api'' ''Key-1'' op_hash [] 7 demo0) = Inr op_held"
  by code_simp

lemma op_complete:
  "CompleteExternalRequest to_lower (demo_env 110 (CHR ''b'')) 1 ''api'' ''KEY-1'' op_owner [] 7 0 op_held = Inr ((), op_done)"
  by code_simp

lemma op_steps: "request_step to_lower demo0 op_held" "request_step to_lower op_held op_done"
proof -
  from op_reserve obtain r where
    "reserveExternalRequest to_lower (demo_env 100 (CHR ''b'')) 1 ''api'' ''Key-1'' op_hash [] 7 demo0 = Inr (r, op_held)"
    by (cases "reserveExternalRequest to_lower (demo_env 100 (CHR ''b'')) 1 ''api'' ''Key-1'' op_hash [] 7 demo0") auto
  with demo_uuid_text(2) show "request_step to_lower demo0 op_held" by (rule request_step.reserved)
  show "request_step to_lower op_held op_done" by (rule request_step.request_completed [OF op_complete])
qed

lemma op_reach: "(request_step to_lower)\<^sup>*\<^sup>* demo0 op_done"
  using op_steps by (meson converse_rtranclp_into_rtranclp rtranclp.rtrancl_refl)

lemma op_inv: "requests_inv to_lower demo0" "requests_inv to_lower op_held" "requests_inv to_lower op_done"
proof -
  show "requests_inv to_lower demo0" by (simp add: requests_inv_def demo0_def)
  then show "requests_inv to_lower op_held" "requests_inv to_lower op_done" using op_steps request_step_inv by blast+
qed

lemma op_args: "reserve_args 1 ''api'' ''key-1'' op_hash" "reserve_parents 1 7 op_held" "reserve_parents 1 7 op_done"
  by code_simp+

subsection \<open>The theorems\<close>

theorem reserve_implements_witness:
  "map_sum id (map_prod verdict_of (register_of to_lower))
     (reserveExternalRequest to_lower (demo_env 701 (CHR ''c'')) 1 ''api'' ''key-1'' op_hash [] 7 op_held) =
   Inr (Granted 2, (register_of to_lower op_held)((1, ''api'', ''key-1'') \<mapsto> (op_hash, Held 2 1301 (''request-'' @ demo_uuid (CHR ''c'')))))"
proof -
  let ?e = "demo_env 701 (CHR ''c'')"
  have fresh: "\<forall>q \<in> set (requests op_held). rq_locked_by q \<noteq> Some (request_owner ?e)" by code_simp
  have args: "to_lower (reserve_source ''api'') = ''api''" "to_lower (trim_space ''key-1'') = ''key-1''"
      "trim_space op_hash = op_hash" "request_lease ?e = 1301" "clock6 ?e = 701000000"
      "request_owner ?e = ''request-'' @ demo_uuid (CHR ''c'')" by code_simp+
  have held: "register_of to_lower op_held (1, ''api'', ''key-1'') = Some (op_hash, Held 1 700 op_owner)" by code_simp
  show ?thesis
    unfolding reserve_implements_register [OF op_inv(2) demo_uuid_text(3) op_args(1,2) fresh] args
    by (simp add: register_reserve_def held del: One_nat_def)
qed


theorem request_retention_witness:
  "RetainExternalRequests (demo_env 500 (CHR ''a'')) 60000000 op_held = (None, op_held) \<and>
   requests (snd (RetainExternalRequests (demo_env 500 (CHR ''a'')) 60000000 op_done)) = []"
proof -
  let ?keep = "\<lambda>q. int (rq_updated_at q) * 1000000 \<ge> int (clock6 (demo_env 500 (CHR ''a''))) - 60000000 \<or>
      (rq_status q = InProgress \<and> (\<exists>u. rq_lease_until q = Some u \<and> now (demo_env 500 (CHR ''a'')) \<le> u))"
  have keep: "filter ?keep (requests op_held) = requests op_held" "filter ?keep (requests op_done) = []"
    by (simp_all add: op_held_def op_done_def op_row_def demo_env_def)
  show ?thesis
    using request_retention [OF op_inv(2), of "demo_env 500 (CHR ''a'')" 60000000]
      request_retention [OF op_inv(3), of "demo_env 500 (CHR ''a'')" 60000000] by (simp add: keep)
qed

theorem requests_reachable_witness:
  "(request_step to_lower)\<^sup>*\<^sup>* demo0 op_done \<and> rq_locked_by (hd (requests op_done)) = None"
proof -
  have d: "requests demo0 = []" "hd (requests op_done) \<in> set (requests op_done)" "rq_status (hd (requests op_done)) \<noteq> InProgress"
    by code_simp+
  from requests_reachable_invariant [OF d(1) op_reach] d(2,3) op_reach show ?thesis by blast
qed

end
