(* ===== verification/Work_Limit.thy ===== *)
theory Work_Limit
  imports Scribe_Prelude
begin

section \<open>The hierarchical work limiter\<close>

text \<open>
  \<^verbatim>\<open>internal/worklimit/hierarchical.go\<close>: one counter for the process, one per workspace and one per
  provider, taken together or not at all. Each critical section of the mutex is one atomic step;
  a caller that finds no room keeps the channel it saw and sleeps until that channel is closed.
  Channels are numbered in the order they are made: \<^verbatim>\<open>close(l.changed)\<close> followed by a new channel
  makes every earlier number a closed channel.
\<close>

subsection \<open>The limiter\<close>

record HierarchicalLimiter =
  globalLimit :: int
  workspaceLimit :: int
  providerLimit :: int
  active :: int
  activeByWorkspace :: "nat \<rightharpoonup> int"
  activeByProvider :: "string \<rightharpoonup> int"
  changed :: nat

definition NewHierarchical :: "int \<Rightarrow> int \<Rightarrow> int \<Rightarrow> err + HierarchicalLimiter" where
  "NewHierarchical g w p =
     (if g < 1 \<or> w < 1 \<or> p < 1 then Inl (ErrInvalid ''work concurrency limits must be positive'')
      else if w > g then Inl (ErrInvalid ''workspace work concurrency cannot exceed global concurrency'')
      else if p > g then Inl (ErrInvalid ''provider work concurrency cannot exceed global concurrency'')
      else Inr \<lparr>globalLimit = g, workspaceLimit = w, providerLimit = p, active = 0,
                activeByWorkspace = Map.empty, activeByProvider = Map.empty, changed = 0\<rparr>)"

text \<open>Reading a missing key of a Go map gives 0.\<close>

definition go_count :: "('k \<rightharpoonup> int) \<Rightarrow> 'k \<Rightarrow> int" where
  "go_count m k = (case m k of None \<Rightarrow> 0 | Some n \<Rightarrow> n)"

definition limiter_admits :: "HierarchicalLimiter \<Rightarrow> nat \<Rightarrow> string \<Rightarrow> bool" where
  "limiter_admits l workspaceID provider \<longleftrightarrow>
     active l < globalLimit l \<and> go_count (activeByWorkspace l) workspaceID < workspaceLimit l \<and>
     go_count (activeByProvider l) provider < providerLimit l"

definition limiter_take :: "HierarchicalLimiter \<Rightarrow> nat \<Rightarrow> string \<Rightarrow> HierarchicalLimiter" where
  "limiter_take l workspaceID provider =
     l\<lparr>active := active l + 1,
       activeByWorkspace := (activeByWorkspace l)(workspaceID \<mapsto> go_count (activeByWorkspace l) workspaceID + 1),
       activeByProvider := (activeByProvider l)(provider \<mapsto> go_count (activeByProvider l) provider + 1)\<rparr>"

text \<open>Decrementing a counter of a map, which is deleted at 0.\<close>

definition go_decrement :: "('k \<rightharpoonup> int) \<Rightarrow> 'k \<Rightarrow> ('k \<rightharpoonup> int)" where
  "go_decrement m k = (let n = go_count m k - 1 in m(k := (if n = 0 then None else Some n)))"

definition limiter_release :: "HierarchicalLimiter \<Rightarrow> nat \<Rightarrow> string \<Rightarrow> HierarchicalLimiter" where
  "limiter_release l workspaceID provider =
     (if active l \<le> 0 \<or> go_count (activeByWorkspace l) workspaceID \<le> 0 \<or> go_count (activeByProvider l) provider \<le> 0 then l
      else l\<lparr>active := active l - 1, activeByWorkspace := go_decrement (activeByWorkspace l) workspaceID,
             activeByProvider := go_decrement (activeByProvider l) provider, changed := changed l + 1\<rparr>)"

subsection \<open>Callers\<close>

text \<open>
  Where a caller of \<^verbatim>\<open>Acquire\<close> is: before the critical section, asleep on a channel, at work, or
  gone because it called the release function or its context was canceled.
\<close>

datatype call = Trying nat string | Waiting nat string nat | Working nat string | Released | Canceled

record work =
  lim :: HierarchicalLimiter
  calls :: "call list"

definition Acquire_enter :: "nat \<Rightarrow> string \<Rightarrow> err + call" where
  "Acquire_enter workspaceID rawProvider =
     (if workspaceID = 0 then Inl (ErrInvalid ''work limit workspace is required'')
      else let provider = trim_space rawProvider in
           Inr (Trying workspaceID (if provider = [] then ''unknown'' else provider)))"

definition Acquire_try :: "nat \<Rightarrow> nat \<Rightarrow> string \<Rightarrow> work \<Rightarrow> work" where
  "Acquire_try i workspaceID provider s =
     (if limiter_admits (lim s) workspaceID provider
      then s\<lparr>lim := limiter_take (lim s) workspaceID provider, calls := (calls s)[i := Working workspaceID provider]\<rparr>
      else s\<lparr>calls := (calls s)[i := Waiting workspaceID provider (changed (lim s))]\<rparr>)"

inductive work_step :: "work \<Rightarrow> work \<Rightarrow> bool" where
  entered: "Acquire_enter w p = Inr c \<Longrightarrow> work_step s (s\<lparr>calls := calls s @ [c]\<rparr>)"
| tried: "i < length (calls s) \<Longrightarrow> calls s ! i = Trying w p \<Longrightarrow> work_step s (Acquire_try i w p s)"
| woken: "i < length (calls s) \<Longrightarrow> calls s ! i = Waiting w p ch \<Longrightarrow> ch < changed (lim s) \<Longrightarrow>
    work_step s (s\<lparr>calls := (calls s)[i := Trying w p]\<rparr>)"
| canceled: "i < length (calls s) \<Longrightarrow> calls s ! i = Waiting w p ch \<Longrightarrow> work_step s (s\<lparr>calls := (calls s)[i := Canceled]\<rparr>)"
| released: "i < length (calls s) \<Longrightarrow> calls s ! i = Working w p \<Longrightarrow>
    work_step s (s\<lparr>lim := limiter_release (lim s) w p, calls := (calls s)[i := Released]\<rparr>)"
| released_again: "i < length (calls s) \<Longrightarrow> calls s ! i = Released \<Longrightarrow> work_step s s"

subsection \<open>The invariant\<close>

fun works_for :: "(nat \<Rightarrow> string \<Rightarrow> bool) \<Rightarrow> call \<Rightarrow> bool" where
  "works_for Q (Working w p) = Q w p"
| "works_for Q _ = False"

definition working :: "(nat \<Rightarrow> string \<Rightarrow> bool) \<Rightarrow> work \<Rightarrow> int" where
  "working Q s = int (length (filter (works_for Q) (calls s)))"

definition counts_ok :: "work \<Rightarrow> bool" where
  "counts_ok s \<longleftrightarrow> active (lim s) = working (\<lambda>_ _. True) s \<and>
     (\<forall>w. go_count (activeByWorkspace (lim s)) w = working (\<lambda>w' _. w' = w) s) \<and>
     (\<forall>p. go_count (activeByProvider (lim s)) p = working (\<lambda>_ p'. p' = p) s)"

definition within_limits :: "HierarchicalLimiter \<Rightarrow> bool" where
  "within_limits l \<longleftrightarrow> active l \<le> globalLimit l \<and> (\<forall>w. go_count (activeByWorkspace l) w \<le> workspaceLimit l) \<and>
     (\<forall>p. go_count (activeByProvider l) p \<le> providerLimit l)"

text \<open>A caller asleep on the current channel has no room.\<close>

definition sleepers_ok :: "work \<Rightarrow> bool" where
  "sleepers_ok s \<longleftrightarrow> (\<forall>w p ch. Waiting w p ch \<in> set (calls s) \<longrightarrow>
     ch \<le> changed (lim s) \<and> (ch = changed (lim s) \<longrightarrow> \<not> limiter_admits (lim s) w p))"

definition work_inv :: "work \<Rightarrow> bool" where
  "work_inv s \<longleftrightarrow> counts_ok s \<and> within_limits (lim s) \<and> sleepers_ok s"

lemma count_list_update:
  "i < length xs \<Longrightarrow> int (length (filter P (xs[i := y]))) = int (length (filter P xs)) - of_bool (P (xs ! i)) + of_bool (P y)"
proof (induction xs arbitrary: i)
  case (Cons x xs)
  show ?case
  proof (cases i)
    case (Suc j)
    with Cons.IH [of j] Cons.prems show ?thesis by simp
  qed simp
qed simp

lemma working_update:
  "i < length (calls s) \<Longrightarrow> working Q (s\<lparr>calls := (calls s)[i := c]\<rparr>) =
     working Q s - of_bool (works_for Q (calls s ! i)) + of_bool (works_for Q c)"
  "i < length (calls s) \<Longrightarrow> working Q (s\<lparr>lim := l, calls := (calls s)[i := c]\<rparr>) =
     working Q s - of_bool (works_for Q (calls s ! i)) + of_bool (works_for Q c)"
  by (simp_all add: working_def count_list_update)

lemma go_count_update [simp]:
  "go_count (m(k \<mapsto> n)) x = (if x = k then n else go_count m x)"
  "go_count (go_decrement m k) x = (if x = k then go_count m k - 1 else go_count m x)"
  by (auto simp: go_count_def go_decrement_def Let_def split: option.splits)

lemma working_pos:
  assumes "i < length (calls s)" and "calls s ! i = Working w p" and "Q w p"
  shows "0 < working Q s"
proof -
  have "Working w p \<in> set (calls s)" using nth_mem [OF assms(1)] assms(2) by simp
  with assms(3) have "Working w p \<in> set (filter (works_for Q) (calls s))" by simp
  then show ?thesis by (metis length_pos_if_in_set of_nat_0_less_iff working_def)
qed

lemma release_run:
  assumes "counts_ok s" and "i < length (calls s)" and "calls s ! i = Working w p"
  shows "limiter_release (lim s) w p = (lim s)\<lparr>active := active (lim s) - 1,
    activeByWorkspace := go_decrement (activeByWorkspace (lim s)) w,
    activeByProvider := go_decrement (activeByProvider (lim s)) p, changed := changed (lim s) + 1\<rparr>"
  using working_pos [OF assms(2,3), of "\<lambda>_ _. True"] working_pos [OF assms(2,3), of "\<lambda>w' _. w' = w"]
    working_pos [OF assms(2,3), of "\<lambda>_ p'. p' = p"] assms(1)
  by (simp add: limiter_release_def counts_ok_def)

lemma sleepers_update:
  assumes "sleepers_ok s" and "\<And>w p ch. c = Waiting w p ch \<Longrightarrow> ch \<le> changed (lim s) \<and> \<not> limiter_admits (lim s) w p"
  shows "sleepers_ok (s\<lparr>calls := (calls s)[i := c]\<rparr>)"
  using assms by (fastforce simp: sleepers_ok_def dest!: subsetD [OF set_update_subset_insert])

text \<open>Taking a slot leaves less room, and freeing one moves to a new channel.\<close>

lemma sleepers_take:
  assumes "sleepers_ok s"
  shows "sleepers_ok (s\<lparr>lim := limiter_take (lim s) w p, calls := (calls s)[i := Working w p]\<rparr>)"
proof -
  have "limiter_admits (limiter_take (lim s) w p) w' p' \<Longrightarrow> limiter_admits (lim s) w' p'" for w' p'
    by (auto simp: limiter_admits_def limiter_take_def split: if_splits)
  moreover have "changed (limiter_take (lim s) w p) = changed (lim s)" by (simp add: limiter_take_def)
  ultimately show ?thesis
    using assms by (fastforce simp: sleepers_ok_def dest!: subsetD [OF set_update_subset_insert])
qed

lemma work_step_inv: "work_step s s' \<Longrightarrow> work_inv s \<Longrightarrow> work_inv s'"
proof (induction rule: work_step.induct)
  case (entered w p c s)
  then obtain w' p' where "c = Trying w' p'" by (auto simp: Acquire_enter_def Let_def split: if_splits)
  with entered show ?case by (auto simp: work_inv_def counts_ok_def within_limits_def sleepers_ok_def working_def)
next
  case (tried i s w p)
  show ?case
  proof (cases "limiter_admits (lim s) w p")
    case True
    have "counts_ok (Acquire_try i w p s)" "within_limits (lim (Acquire_try i w p s))"
      using tried True by (auto simp: work_inv_def counts_ok_def within_limits_def Acquire_try_def limiter_take_def
        working_update limiter_admits_def)
    with sleepers_take tried.prems True show ?thesis by (simp add: work_inv_def Acquire_try_def)
  next
    case False
    with tried show ?thesis
      by (auto simp: work_inv_def counts_ok_def within_limits_def Acquire_try_def working_update intro!: sleepers_update)
  qed
next
  case (released i s w p)
  have run: "limiter_release (lim s) w p = (lim s)\<lparr>active := active (lim s) - 1,
      activeByWorkspace := go_decrement (activeByWorkspace (lim s)) w,
      activeByProvider := go_decrement (activeByProvider (lim s)) p, changed := changed (lim s) + 1\<rparr>"
    using released by (intro release_run) (auto simp: work_inv_def)
  have "counts_ok (s\<lparr>lim := limiter_release (lim s) w p, calls := (calls s)[i := Released]\<rparr>)"
    using released by (auto simp: run work_inv_def counts_ok_def working_update)
  moreover have "within_limits (limiter_release (lim s) w p)"
  proof -
    from released have ok: "within_limits (lim s)" by (simp add: work_inv_def)
    have le: "n - 1 \<le> k" if "n \<le> k" for n k :: int using that by simp
    from ok have "go_count (activeByWorkspace (lim s)) w - 1 \<le> workspaceLimit (lim s)"
      "go_count (activeByProvider (lim s)) p - 1 \<le> providerLimit (lim s)" by (auto simp: within_limits_def intro!: le)
    with ok show ?thesis by (simp add: run within_limits_def)
  qed
  moreover have "sleepers_ok (s\<lparr>lim := limiter_release (lim s) w p, calls := (calls s)[i := Released]\<rparr>)"
    using released by (fastforce simp: run work_inv_def sleepers_ok_def dest!: subsetD [OF set_update_subset_insert])
  ultimately show ?case by (simp add: work_inv_def)
qed (auto simp: work_inv_def counts_ok_def within_limits_def working_update intro!: sleepers_update)

interpretation worksys: transition_system work_step work_inv
  by unfold_locales (rule work_step_inv)

lemma new_work_inv: "NewHierarchical g w p = Inr l \<Longrightarrow> work_inv \<lparr>lim = l, calls = []\<rparr>"
  by (auto simp: NewHierarchical_def work_inv_def counts_ok_def within_limits_def sleepers_ok_def working_def go_count_def
      split: if_splits)

lemma step_limits:
  assumes "work_step\<^sup>*\<^sup>* s s'"
  shows "globalLimit (lim s') = globalLimit (lim s) \<and> workspaceLimit (lim s') = workspaceLimit (lim s) \<and>
    providerLimit (lim s') = providerLimit (lim s)"
  using assms
  by (induction rule: rtranclp_induct)
     (auto elim!: work_step.cases simp: Acquire_try_def limiter_take_def limiter_release_def)

subsection \<open>What callers can rely on\<close>

text \<open>
  C27: The limits hold under every interleaving: however callers arrive, wait, are canceled and release
  their slots (also repeatedly), no more callers are at work in the process, in any workspace or
  against any provider than the configured limits allow, and the counters are exactly the numbers
  of callers at work.
\<close>

theorem work_limits_hold:
  assumes "NewHierarchical g w p = Inr l" and "work_step\<^sup>*\<^sup>* \<lparr>lim = l, calls = []\<rparr> s"
  shows "active (lim s) = working (\<lambda>_ _. True) s \<and> working (\<lambda>_ _. True) s \<le> g \<and>
     (\<forall>x. go_count (activeByWorkspace (lim s)) x = working (\<lambda>x' _. x' = x) s \<and> working (\<lambda>x' _. x' = x) s \<le> w) \<and>
     (\<forall>y. go_count (activeByProvider (lim s)) y = working (\<lambda>_ y'. y' = y) s \<and> working (\<lambda>_ y'. y' = y) s \<le> p)"
proof -
  have "work_inv s" by (rule worksys.steps_inv [OF assms(2) new_work_inv [OF assms(1)]])
  moreover from assms(1) have "globalLimit l = g" "workspaceLimit l = w" "providerLimit l = p"
    by (auto simp: NewHierarchical_def split: if_splits)
  ultimately show ?thesis using step_limits [OF assms(2)]
    by (auto simp: work_inv_def counts_ok_def within_limits_def)
qed

text \<open>
  C28: No wake-up is lost: in every reachable state, a caller that sleeps although there is room for
  its workspace and provider sleeps on a channel that is already closed, so it can wake up and,
  if nobody overtakes it, starts its work.
\<close>

theorem no_lost_wakeup:
  assumes "NewHierarchical g w p = Inr l" and "work_step\<^sup>*\<^sup>* \<lparr>lim = l, calls = []\<rparr> s"
    and "i < length (calls s)" and "calls s ! i = Waiting x y ch" and "limiter_admits (lim s) x y"
  shows "ch < changed (lim s) \<and>
     (\<exists>s1 s2. work_step s s1 \<and> calls s1 ! i = Trying x y \<and> work_step s1 s2 \<and> calls s2 ! i = Working x y)"
proof -
  have "work_inv s" by (rule worksys.steps_inv [OF assms(2) new_work_inv [OF assms(1)]])
  then have ch: "ch < changed (lim s)"
    using assms(3-5) nth_mem [OF assms(3)] by (fastforce simp: work_inv_def sleepers_ok_def order.order_iff_strict)
  let ?s1 = "s\<lparr>calls := (calls s)[i := Trying x y]\<rparr>"
  have "work_step s ?s1" by (rule work_step.woken [OF assms(3,4) ch])
  moreover have "work_step ?s1 (Acquire_try i x y ?s1)" using assms(3) by (intro work_step.tried) simp_all
  moreover have "calls (Acquire_try i x y ?s1) ! i = Working x y" using assms(3,5) by (simp add: Acquire_try_def)
  moreover have "calls ?s1 ! i = Trying x y" using assms(3) by simp
  ultimately show ?thesis using ch by blast
qed

end
