(* ===== verification/Spec2Isabelle.thy ===== *)
theory Spec2Isabelle
  imports Identity_Roundtrip Page_Witnesses Storage_Witnesses Job_Witnesses Webhook_Witnesses Request_Witnesses Limit_Witnesses
begin

text \<open>
  \<^bold>\<open>The program.\<close> Scribe transcribes page images and keeps the results as IIIF annotation pages. Its
  server is written in Go, under \<^verbatim>\<open>src/internal\<close>: \<^verbatim>\<open>store\<close> holds the database transactions, \<^verbatim>\<open>db\<close> the
  generated SQL statements, \<^verbatim>\<open>iiif\<close> the documents and their identifiers, \<^verbatim>\<open>worklimit\<close> and \<^verbatim>\<open>uploadref\<close>
  two small libraries, \<^verbatim>\<open>server\<close> the workers and the request handlers. A user's request or an ingest
  creates a transcription job for an image; workers claim jobs under leases, report progress and
  checkpoints, and end an attempt by a failure, a deferral or a completion, which also writes an event
  to an outbox. Webhook workers deliver the events. Callers from outside protect their requests with
  idempotency keys. Uploads are admitted against storage quotas, and the bytes of deleted ones are
  retired by a cleanup queue. Annotation pages are normalised and validated before they are stored.

  \<^bold>\<open>How it is modelled.\<close> A transaction is a function from the database to an error or to a result with
  the new database; an error is a rollback. The database (\<open>db\<close>, in \<^verbatim>\<open>Job_Schema\<close>) is a record of
  tables, a table a list of rows in insertion order, and a statement a definition under the name of
  its query constant. An update counts the rows it changes, as the MySQL driver does without
  \<^verbatim>\<open>clientFoundRows\<close>. Times, the fresh UUID, the host name and the rows that other transactions hold
  are read from a record \<open>env\<close>; there is one \<^verbatim>\<open>NOW()\<close> per transaction, and one reading of the process's
  clock. Committed transactions are the atomic steps of the inductive step relations: that
  the locks the code takes serialise them is an assumption of the model. Strings are byte strings, text columns compare exactly except for the
  columns of idempotency keys, whose collation is a parameter. Errors are values of \<open>err\<close>, with one
  constructor for each error the code compares and \<open>ErrInvalid\<close> for the others, whose text is
  abbreviated.

  \<^bold>\<open>Theories and sources.\<close>
  \<^item> \<^verbatim>\<open>Scribe_Prelude\<close>, \<^verbatim>\<open>Tx_Frames\<close>: string functions of the standard library, errors, transactions,
    statements on tables, the locale \<open>transition_system\<close> that lifts an invariant and a step relation to
    runs, and the locale \<open>tx_relation\<close> for what a transaction leaves alone.
  \<^item> \<^verbatim>\<open>Job_Schema\<close>, \<^verbatim>\<open>Job_Queries\<close>: the rows of \<^verbatim>\<open>db/models.go\<close> and the statements on jobs, attempts and
    checkpoints. \<^verbatim>\<open>Job_Store\<close> and \<^verbatim>\<open>Job_Admission\<close>: \<^verbatim>\<open>store/transcription_jobs.go\<close>,
    \<^verbatim>\<open>transcription_checkpoints.go\<close> and \<^verbatim>\<open>transcription_admission.go\<close>. \<^verbatim>\<open>Safe_Failures\<close>:
    \<^verbatim>\<open>store/safe_failures.go\<close>.
  \<^item> \<^verbatim>\<open>Event_Outbox\<close>, \<^verbatim>\<open>Webhook_Subscriptions\<close>: the event outbox, its deliveries and subscriptions.
  \<^item> \<^verbatim>\<open>External_Requests\<close>: the idempotency records of \<^verbatim>\<open>store/transcription_jobs.go\<close>.
  \<^item> \<^verbatim>\<open>Work_Limit\<close>: \<^verbatim>\<open>worklimit/hierarchical.go\<close>, as an interleaving of callers.
  \<^item> \<^verbatim>\<open>Storage_Quota\<close>, \<^verbatim>\<open>Resource_Cleanup\<close>, \<^verbatim>\<open>Blob_Retirement\<close>, \<^verbatim>\<open>Upload_Reference\<close>:
    \<^verbatim>\<open>store/storage_quota.go\<close>, \<^verbatim>\<open>store/resource_cleanup.go\<close>, the transaction of \<^verbatim>\<open>store/items.go\<close> that adds
    an image, the reservation part of \<^verbatim>\<open>store/ingest.go\<close> and \<^verbatim>\<open>uploadref/url.go\<close>.
  \<^item> \<^verbatim>\<open>Go_URL\<close>, \<^verbatim>\<open>Json_Text\<close>: what the code uses of \<^verbatim>\<open>net/url\<close> and \<^verbatim>\<open>encoding/json\<close>, on bytes, and
    \<^verbatim>\<open>iiif/json.go\<close>. \<^verbatim>\<open>Media_Fragment\<close>: \<^verbatim>\<open>iiif/media_fragment.go\<close>. \<^verbatim>\<open>Page_Identity\<close> and
    \<^verbatim>\<open>Page_Documents\<close>: \<^verbatim>\<open>iiif/presentation.go\<close>.

  \<^bold>\<open>What is proved.\<close>
  \<^item> Jobs (\<^verbatim>\<open>Job_Invariant\<close>, \<^verbatim>\<open>Job_Lifecycle\<close>, \<^verbatim>\<open>Job_Retention\<close>, \<^verbatim>\<open>Job_Creation\<close>, \<^verbatim>\<open>Job_System\<close>,
    \<^verbatim>\<open>Job_Fencing\<close>, \<^verbatim>\<open>Job_Claims\<close>, \<^verbatim>\<open>Job_Outcomes\<close>): an invariant of every reachable state, a gapless and
    append-only log of attempts, fences that stay dead once their attempt is closed, the order of
    claims, what each outcome leaves behind, admission and idempotence of creation, exact retention.
  \<^item> Webhooks (\<^verbatim>\<open>Webhook_Delivery\<close>, \<^verbatim>\<open>Webhook_Leases\<close>, \<^verbatim>\<open>Webhook_System\<close>): one delivery per event and
    subscription, exclusive leases, termination and exactness of retention, an event stream without gaps.
  \<^item> Idempotency keys (\<^verbatim>\<open>Request_Idempotency\<close>, \<^verbatim>\<open>Request_System\<close>): reservations refine an abstract
    register of keys; completed operations are replayed; retention is exact and terminates.
  \<^item> Limits (\<^verbatim>\<open>Work_Limit\<close>, \<^verbatim>\<open>Storage_Accounting\<close>, \<^verbatim>\<open>Storage_Operations\<close>, \<^verbatim>\<open>Storage_System\<close>): bounds on
    concurrent work and no lost wake-up; quotas that are never exceeded, counters that never drift from
    the reservations, fenced uploads that nothing refers to, and checks that are exact although they
    compute in 64 bits.
  \<^item> Documents (\<^verbatim>\<open>Fragment_Roundtrip\<close>, \<^verbatim>\<open>Identity_Roundtrip\<close>, \<^verbatim>\<open>Json_Roundtrip\<close>, \<^verbatim>\<open>Object_Maps\<close>,
    \<^verbatim>\<open>Page_Canonical\<close>): regions, identifiers and JSON values are read back as they were written,
    accepted geometry lies inside the image, accepted pages are canonical, and normalisation is
    idempotent byte for byte.
  \<^item> \<^verbatim>\<open>Scribe_Demo\<close> and the theories named \<^verbatim>\<open>Witnesses\<close> apply every theorem that has hypotheses to
    concrete states and documents.

  \<^bold>\<open>Bounds and fuel.\<close> The claim loop and the retention loops are functions with a termination measure,
  or run on a fuel that the theorems show to be enough. The JSON parser has a fuel of two calls per byte
  and two more; \<open>decode_encode\<close> shows that it suffices for every text the encoder writes. The parser's
  nesting limit is the 10000 of the standard library, the scan's is 128.

  \<^bold>\<open>Parameters.\<close> SHA-256, the collation of key columns and the published IIIF schemas are arguments of
  the definitions that use them; their hypotheses are named in the theorems.

  \<^bold>\<open>Not modelled.\<close> Upload batches, the transactions that save and publish annotation pages, annotation
  mirrors, contexts, item deletion, identities and API keys, editor review, provider calls and audits,
  OCR runs and the rebuild of the quota counters from stored payloads: their tables are declared in
  \<^verbatim>\<open>Job_Schema\<close> as far as modelled transactions touch them, their operations are not. Request handlers,
  HTTP, configuration, image processing, exports and the browser front ends are input and output or
  call other services.
\<close>

end
